(* ===== verification/Prelude.thy ===== *)
theory Prelude
  imports Main "HOL-Library.Word" "HOL-Library.List_Lexorder" "HOL-Library.Char_ord"
    "HOL-Library.Product_Lexorder" "HOL-Library.Multiset"
begin

text \<open>
  Shared ground of the development: the machine integers of the Rust code, its
  \<open>Result\<close> and \<open>Option\<close> combinators, and the generic facts on lists that several
  components use.

  Unsigned integers are words of their width, so that wrap-around is never lost.
  A signed \<open>i64\<close> is an \<open>int\<close>; where the code computes with one, the range check of the
  checked operation is written out.  A \<open>Result<T, E>\<close> is the sum \<open>E + T\<close> with the
  error on the left.  A \<open>str\<close> is its UTF-8 byte sequence, a \<open>string\<close> whose
  characters are bytes, so that \<open>length\<close> is Rust's \<open>len()\<close>.
\<close>

named_theorems result_simps
named_theorems word_checked

section \<open>Machine integers\<close>

type_synonym u8 = "8 word"
type_synonym u16 = "16 word"
type_synonym u32 = "32 word"
type_synonym u64 = "64 word"
type_synonym u128 = "128 word"
type_synonym i64 = int
type_synonym i32 = int
type_synonym digest = "u8 list"

definition checked_add :: "'a::len word \<Rightarrow> 'a word \<Rightarrow> 'a word option" where
  "checked_add a b = (if unat a + unat b < 2 ^ LENGTH('a) then Some (a + b) else None)"

definition checked_sub :: "'a::len word \<Rightarrow> 'a word \<Rightarrow> 'a word option" where
  "checked_sub a b = (if b \<le> a then Some (a - b) else None)"

definition checked_mul :: "'a::len word \<Rightarrow> 'a word \<Rightarrow> 'a word option" where
  "checked_mul a b = (if unat a * unat b < 2 ^ LENGTH('a) then Some (a * b) else None)"

definition saturating_add :: "'a::len word \<Rightarrow> 'a word \<Rightarrow> 'a word" where
  "saturating_add a b = (if unat a + unat b < 2 ^ LENGTH('a) then a + b else - 1)"

definition saturating_sub :: "'a::len word \<Rightarrow> 'a word \<Rightarrow> 'a word" where
  "saturating_sub a b = (if b \<le> a then a - b else 0)"

definition abs_diff :: "'a::len word \<Rightarrow> 'a word \<Rightarrow> 'a word" where
  "abs_diff a b = (if a \<le> b then b - a else a - b)"

text \<open>The bound \<open>i64::MAX as u64\<close>, which the archive's integer columns impose.\<close>

definition i64_max_u64 :: u64 where
  "i64_max_u64 = 9223372036854775807"

definition i64_min :: i64 where
  "i64_min = - 9223372036854775808"

definition i64_max :: i64 where
  "i64_max = 9223372036854775807"

definition in_i64 :: "int \<Rightarrow> bool" where
  "in_i64 x \<longleftrightarrow> i64_min \<le> x \<and> x \<le> i64_max"

definition i64_checked_sub :: "i64 \<Rightarrow> i64 \<Rightarrow> i64 option" where
  "i64_checked_sub a b = (if in_i64 (a - b) then Some (a - b) else None)"

definition i64_checked_mul :: "i64 \<Rightarrow> i64 \<Rightarrow> i64 option" where
  "i64_checked_mul a b = (if in_i64 (a * b) then Some (a * b) else None)"

lemma unat_less_pow: "unat (a :: 'a::len word) < 2 ^ LENGTH('a)"
  by (rule unsigned_less)

lemma word_of_unat_eq:
  "unat c = n \<Longrightarrow> c = of_nat n"
  for c :: "'a::len word"
  by auto

lemma checked_add_iff [word_checked]:
  "checked_add a b = Some c \<longleftrightarrow> unat c = unat a + unat b"
  for a b c :: "'a::len word"
proof
  show "checked_add a b = Some c \<Longrightarrow> unat c = unat a + unat b"
    by (auto simp: checked_add_def unat_word_ariths split: if_splits)
next
  assume h: "unat c = unat a + unat b"
  then have "unat a + unat b < 2 ^ LENGTH('a)"
    using unat_less_pow [of c] by simp
  with h show "checked_add a b = Some c"
    by (simp add: checked_add_def word_unat_eq_iff unat_word_ariths)
qed

lemma checked_add_None_iff [word_checked]:
  "checked_add a b = None \<longleftrightarrow> 2 ^ LENGTH('a) \<le> unat a + unat b"
  for a b :: "'a::len word"
  by (simp add: checked_add_def linorder_not_less)

lemma checked_sub_iff [word_checked]:
  "checked_sub a b = Some c \<longleftrightarrow> unat a = unat b + unat c"
  for a b c :: "'a::len word"
  by (auto simp: checked_sub_def word_le_nat_alt word_unat_eq_iff unat_sub_if')

lemma checked_sub_None_iff [word_checked]:
  "checked_sub a b = None \<longleftrightarrow> unat a < unat b"
  for a b :: "'a::len word"
  by (auto simp: checked_sub_def word_le_nat_alt)

lemma checked_mul_iff [word_checked]:
  "checked_mul a b = Some c \<longleftrightarrow> unat c = unat a * unat b"
  for a b c :: "'a::len word"
proof
  show "checked_mul a b = Some c \<Longrightarrow> unat c = unat a * unat b"
    by (auto simp: checked_mul_def unat_word_ariths split: if_splits)
next
  assume h: "unat c = unat a * unat b"
  then have "unat a * unat b < 2 ^ LENGTH('a)"
    using unat_less_pow [of c] by simp
  with h show "checked_mul a b = Some c"
    by (simp add: checked_mul_def word_unat_eq_iff unat_word_ariths)
qed

lemma checked_mul_None_iff [word_checked]:
  "checked_mul a b = None \<longleftrightarrow> 2 ^ LENGTH('a) \<le> unat a * unat b"
  for a b :: "'a::len word"
  by (simp add: checked_mul_def linorder_not_less)

lemma unat_max_word: "unat (- 1 :: 'a::len word) = 2 ^ LENGTH('a) - 1"
  by (simp add: unsigned_minus_1_eq_mask mask_eq_exp_minus_1)

lemma unat_saturating_add:
  "unat (saturating_add a b) = min (unat a + unat b) (2 ^ LENGTH('a) - 1)"
  for a b :: "'a::len word"
  by (auto simp: saturating_add_def unat_word_ariths unat_max_word min_def)

lemma unat_saturating_sub:
  "unat (saturating_sub a b) = unat a - unat b"
  for a b :: "'a::len word"
  by (auto simp: saturating_sub_def word_le_nat_alt unat_sub_if')

lemma unat_abs_diff:
  "unat (abs_diff a b) = (unat a - unat b) + (unat b - unat a)"
  for a b :: "'a::len word"
  by (auto simp: abs_diff_def word_le_nat_alt unat_sub_if')

lemma abs_diff_commute: "abs_diff a b = abs_diff b a"
  for a b :: "'a::len word"
  by (auto simp: abs_diff_def)

lemma unat_ucast_widen:
  "LENGTH('a) \<le> LENGTH('b) \<Longrightarrow> unat (ucast (w :: 'a::len word) :: 'b::len word) = unat w"
  by (simp add: unsigned_ucast_eq take_bit_nat_eq_self_iff)
    (meson order_less_le_trans power_increasing unat_less_pow one_le_numeral)

section \<open>Results and options\<close>

text \<open>The operator \<open>?\<close> and \<open>Result::and_then\<close>.\<close>

definition and_then :: "'e + 'a \<Rightarrow> ('a \<Rightarrow> 'e + 'b) \<Rightarrow> 'e + 'b" where
  "and_then r f = (case r of Inl e \<Rightarrow> Inl e | Inr x \<Rightarrow> f x)"

definition ok_or :: "'e \<Rightarrow> 'a option \<Rightarrow> 'e + 'a" where
  "ok_or e v = (case v of None \<Rightarrow> Inl e | Some x \<Rightarrow> Inr x)"

definition is_some_and :: "('a \<Rightarrow> bool) \<Rightarrow> 'a option \<Rightarrow> bool" where
  "is_some_and p v = (case v of None \<Rightarrow> False | Some x \<Rightarrow> p x)"

definition is_none_or :: "('a \<Rightarrow> bool) \<Rightarrow> 'a option \<Rightarrow> bool" where
  "is_none_or p v = (case v of None \<Rightarrow> True | Some x \<Rightarrow> p x)"

definition zip_option :: "'a option \<Rightarrow> 'b option \<Rightarrow> ('a \<times> 'b) option" where
  "zip_option a b = (case (a, b) of (Some x, Some y) \<Rightarrow> Some (x, y) | _ \<Rightarrow> None)"

definition filter_option :: "('a \<Rightarrow> bool) \<Rightarrow> 'a option \<Rightarrow> 'a option" where
  "filter_option p v = (case v of None \<Rightarrow> None | Some x \<Rightarrow> if p x then Some x else None)"

fun try_fold :: "('b \<Rightarrow> 'a \<Rightarrow> 'e + 'b) \<Rightarrow> 'b \<Rightarrow> 'a list \<Rightarrow> 'e + 'b" where
  "try_fold f acc [] = Inr acc"
| "try_fold f acc (x # xs) = and_then (f acc x) (\<lambda>acc'. try_fold f acc' xs)"

fun try_map :: "('a \<Rightarrow> 'e + 'b) \<Rightarrow> 'a list \<Rightarrow> 'e + 'b list" where
  "try_map f [] = Inr []"
| "try_map f (x # xs) = and_then (f x) (\<lambda>y. and_then (try_map f xs) (\<lambda>ys. Inr (y # ys)))"

lemma and_then_simps [simp]:
  "and_then (Inl e) f = Inl e" "and_then (Inr x) f = f x"
  by (simp_all add: and_then_def)

lemma and_then_Inr_iff [result_simps]:
  "and_then r f = Inr y \<longleftrightarrow> (\<exists>x. r = Inr x \<and> f x = Inr y)"
  by (cases r) simp_all

lemma and_then_Inl_iff [result_simps]:
  "and_then r f = Inl e \<longleftrightarrow> r = Inl e \<or> (\<exists>x. r = Inr x \<and> f x = Inl e)"
  by (cases r) simp_all

lemma ok_or_simps [simp]: "ok_or e None = Inl e" "ok_or e (Some x) = Inr x"
  by (simp_all add: ok_or_def)

lemma ok_or_Inr_iff [result_simps]: "ok_or e v = Inr x \<longleftrightarrow> v = Some x"
  by (cases v) simp_all

lemma ok_or_Inl_iff [result_simps]: "ok_or e v = Inl e' \<longleftrightarrow> v = None \<and> e' = e"
  by (cases v) auto

lemma is_some_and_simps [simp]:
  "is_some_and p None = False" "is_some_and p (Some x) = p x"
  by (simp_all add: is_some_and_def)

lemma is_none_or_simps [simp]:
  "is_none_or p None = True" "is_none_or p (Some x) = p x"
  by (simp_all add: is_none_or_def)

lemma is_some_and_iff: "is_some_and p v \<longleftrightarrow> (\<exists>x. v = Some x \<and> p x)"
  by (cases v) simp_all

lemma is_none_or_iff: "is_none_or p v \<longleftrightarrow> (\<forall>x. v = Some x \<longrightarrow> p x)"
  by (cases v) simp_all

lemma zip_option_simps [simp]:
  "zip_option None b = None" "zip_option a None = None"
  "zip_option (Some x) (Some y) = Some (x, y)"
  by (simp_all add: zip_option_def split: option.splits)

lemma zip_option_Some_iff:
  "zip_option a b = Some p \<longleftrightarrow> a = Some (fst p) \<and> b = Some (snd p)"
  by (cases a; cases b; cases p) auto

lemma filter_option_simps [simp]:
  "filter_option p None = None"
  "filter_option p (Some x) = (if p x then Some x else None)"
  by (simp_all add: filter_option_def)

lemma filter_option_Some_iff:
  "filter_option p v = Some x \<longleftrightarrow> v = Some x \<and> p x"
  by (cases v) auto

lemma if_Inr_iff [result_simps]:
  "(if c then Inl e else r) = Inr y \<longleftrightarrow> \<not> c \<and> r = Inr y"
  by simp

lemma if_Inl_iff [result_simps]:
  "(if c then Inl e else r) = Inl e' \<longleftrightarrow> (c \<and> e = e') \<or> (\<not> c \<and> r = Inl e')"
  by auto

lemma try_fold_append:
  "try_fold f acc (xs @ ys) = and_then (try_fold f acc xs) (\<lambda>acc'. try_fold f acc' ys)"
  by (induction xs arbitrary: acc) (auto simp: and_then_def split: sum.splits)

lemma try_fold_invariant:
  assumes "try_fold f acc xs = Inr res" and "P acc"
    and "\<And>a x a'. P a \<Longrightarrow> x \<in> set xs \<Longrightarrow> f a x = Inr a' \<Longrightarrow> P a'"
  shows "P res"
  using assms
proof (induction xs arbitrary: acc)
  case Nil
  then show ?case by simp
next
  case (Cons x xs)
  from Cons.prems(1) obtain a' where "f acc x = Inr a'" and "try_fold f a' xs = Inr res"
    by (auto simp: result_simps)
  with Cons show ?case by (metis list.set_intros)
qed

lemma try_map_Inr_iff:
  "try_map f xs = Inr ys \<longleftrightarrow> list_all2 (\<lambda>x y. f x = Inr y) xs ys"
  by (induction xs arbitrary: ys) (auto simp: result_simps list_all2_Cons1)

section \<open>Lists\<close>

text \<open>
  Rust sorts in place; the model uses \<open>sort_key\<close>.  An unstable sort returns the same list
  wherever the keys are distinct, which the components show for the lists they sort.
  \<open>Vec::dedup\<close> is \<open>remdups_adj\<close>.
\<close>

lemma sorted_wrt_less_iff: "sorted_wrt (<) xs \<longleftrightarrow> sorted xs \<and> distinct xs"
  for xs :: "'a::linorder list"
  by (rule strict_sorted_iff)

lemma sort_key_strict: "distinct (map f xs) \<Longrightarrow> sorted_wrt (<) (map f (sort_key f xs))"
  for f :: "'a \<Rightarrow> 'b::linorder"
proof -
  assume "distinct (map f xs)"
  then have "distinct (map f (sort_key f xs))"
    by (metis distinct_map distinct_sort set_sort)
  then show ?thesis by (simp add: sorted_wrt_less_iff)
qed

lemma sort_key_unique:
  assumes "mset ys = mset xs" and "sorted (map f ys)" and "distinct (map f xs)"
  shows "ys = sort_key f xs"
proof (rule properties_for_sort_key [symmetric])
  show "mset ys = mset xs" by (rule assms(1))
  show "sorted (map f ys)" by (rule assms(2))
  fix k
  assume "k \<in> set ys"
  have "inj_on f (set xs)" using assms(3) by (simp add: distinct_map)
  moreover have "set ys = set xs" using assms(1) by (metis set_mset_mset)
  ultimately have *: "\<And>x. x \<in> set xs \<Longrightarrow> (f k = f x) = (k = x)"
    using \<open>k \<in> set ys\<close> by (metis inj_onD)
  have dx: "distinct xs" using assms(3) by (simp add: distinct_map)
  have dy: "distinct ys" using assms(1) dx by (metis distinct_count_atmost_1 mset_eq_setD)
  have sel: "distinct zs \<Longrightarrow> k \<in> set zs \<Longrightarrow> (\<And>x. x \<in> set zs \<Longrightarrow> (f k = f x) = (k = x)) \<Longrightarrow>
      filter (\<lambda>x. f k = f x) zs = [k]" for zs
  proof (induction zs)
    case Nil
    then show ?case by simp
  next
    case (Cons z zs)
    then show ?case
      by (cases "z = k") (auto simp: filter_empty_conv)
  qed
  show "filter (\<lambda>x. f k = f x) ys = filter (\<lambda>x. f k = f x) xs"
    using sel [OF dx] sel [OF dy] * \<open>k \<in> set ys\<close> \<open>set ys = set xs\<close> by simp
qed

lemma distinct_adj_sorted: "sorted xs \<Longrightarrow> distinct_adj xs \<Longrightarrow> distinct xs"
  for xs :: "'a::linorder list"
proof (induction xs)
  case (Cons x xs)
  then show ?case
    by (cases xs) (auto simp: distinct_adj_Cons)
qed simp

lemma sort_remdups_adj_strict: "sorted_wrt (<) (remdups_adj (sort xs))"
  for xs :: "'a::linorder list"
  by (simp add: sorted_wrt_less_iff distinct_adj_sorted)

end
