(* ===== verification/Encoding.thy ===== *)
theory Encoding
  imports Prelude
begin

text \<open>
  The byte strings that TokenMaster feeds to SHA-256.  The digest function itself is
  third-party code: every identity of the model takes it as the argument \<open>sha256\<close> and is
  \<open>sha256\<close> applied to a message, and what the development proves is about the messages.  A
  running hasher is the bytes it has received.

  The locale \<open>prefix_code\<close> is the interface of a self-delimiting encoding: a decoder that
  knows which encoding comes next can cut it off the front of the message without
  ambiguity.  Identities built from such pieces determine every piece.
\<close>

section \<open>Bytes\<close>

definition byte_of_char :: "char \<Rightarrow> u8" where
  "byte_of_char c = word_of_nat (of_char c)"

definition bytes_of :: "string \<Rightarrow> u8 list" where
  "bytes_of s = map byte_of_char s"

text \<open>\<open>to_be_bytes\<close> and \<open>to_le_bytes\<close> of the integer types.\<close>

definition be_bytes :: "'a::len word \<Rightarrow> u8 list" where
  "be_bytes w = map (\<lambda>i. ucast (drop_bit (8 * i) w)) (rev [0 ..< LENGTH('a) div 8])"

definition le_bytes :: "'a::len word \<Rightarrow> u8 list" where
  "le_bytes w = rev (be_bytes w)"

lemma unat_byte_of_char: "unat (byte_of_char c) = of_char c"
  by (simp add: byte_of_char_def unat_of_nat take_bit_nat_eq_self_iff)

lemma inj_byte_of_char: "inj byte_of_char"
proof (rule injI)
  fix c d
  assume "byte_of_char c = byte_of_char d"
  then have "(of_char c :: nat) = of_char d" by (metis unat_byte_of_char)
  then show "c = d" by simp
qed

lemma bytes_of_eq_iff [simp]: "bytes_of s = bytes_of t \<longleftrightarrow> s = t"
  by (simp add: bytes_of_def inj_map_eq_map [OF inj_byte_of_char])

lemma length_bytes_of [simp]: "length (bytes_of s) = length s"
  by (simp add: bytes_of_def)

lemma length_be_bytes [simp]: "length (be_bytes (w :: 'a::len word)) = LENGTH('a) div 8"
  by (simp add: be_bytes_def)

lemma length_le_bytes [simp]: "length (le_bytes (w :: 'a::len word)) = LENGTH('a) div 8"
  by (simp add: le_bytes_def)

lemma be_bytes_inj:
  assumes "8 dvd LENGTH('a)" and eq: "be_bytes v = be_bytes (w :: 'a::len word)"
  shows "v = w"
proof (rule bit_eqI)
  fix n
  assume "possible_bit TYPE('a word) n"
  then have n: "n < LENGTH('a)" by simp
  define i where "i = n div 8"
  have i: "i < LENGTH('a) div 8"
    using n assms(1) by (auto simp: i_def less_mult_imp_div_less)
  have "(ucast (drop_bit (8 * i) v) :: u8) = ucast (drop_bit (8 * i) w)"
    using eq i by (auto simp: be_bytes_def)
  then have "bit (ucast (drop_bit (8 * i) v) :: u8) (n mod 8) =
             bit (ucast (drop_bit (8 * i) w) :: u8) (n mod 8)"
    by simp
  moreover have "8 * i + n mod 8 = n" by (simp add: i_def)
  moreover have "n mod 8 < LENGTH(8)" by simp
  ultimately show "bit v n = bit w n"
    by (simp only: bit_ucast_iff bit_drop_bit_eq o_apply simp_thms)
qed

section \<open>Self-delimiting encodings\<close>

locale prefix_code =
  fixes enc :: "'a \<Rightarrow> u8 list"
    and ok :: "'a \<Rightarrow> bool"
  assumes cut: "ok x \<Longrightarrow> ok y \<Longrightarrow> enc x @ r = enc y @ s \<Longrightarrow> x = y \<and> r = s"
begin

lemma enc_eqD: "ok x \<Longrightarrow> ok y \<Longrightarrow> enc x = enc y \<Longrightarrow> x = y"
  using cut [of x y "[]" "[]"] by simp

text \<open>Sequences of a fixed length are again self-delimiting.\<close>

lemma cut_list:
  "length xs = length ys \<Longrightarrow> list_all ok xs \<Longrightarrow> list_all ok ys \<Longrightarrow>
   concat (map enc xs) @ r = concat (map enc ys) @ s \<Longrightarrow> xs = ys \<and> r = s"
proof (induction xs ys arbitrary: r s rule: list_induct2)
  case Nil
  then show ?case by simp
next
  case (Cons x xs y ys)
  have "x = y \<and> concat (map enc xs) @ r = concat (map enc ys) @ s"
    by (rule cut) (use Cons.prems in simp_all)
  with Cons.IH [of r s] Cons.prems show ?case by simp
qed

end

text \<open>When no encoding is empty, a message made of any number of them determines them all.\<close>

locale prefix_code_nonempty = prefix_code +
  assumes nonempty: "enc x \<noteq> []"
begin

lemma sequence_eqD:
  "list_all ok xs \<Longrightarrow> list_all ok ys \<Longrightarrow>
   concat (map enc xs) = concat (map enc ys) \<Longrightarrow> xs = ys"
proof (induction xs arbitrary: ys)
  case Nil
  then show ?case by (cases ys) (simp_all add: nonempty)
next
  case (Cons x xs)
  have "concat (map enc ys) \<noteq> []" using Cons.prems(3) nonempty [of x] by (metis append_is_Nil_conv concat.simps(2) list.simps(9))
  then obtain y ys' where ys: "ys = y # ys'" by (cases ys) simp_all
  have "x = y \<and> concat (map enc xs) = concat (map enc ys')"
    by (rule cut) (use Cons.prems ys in simp_all)
  with Cons.IH [of ys'] Cons.prems ys show ?case by simp
qed

end

text \<open>Two encodings after one another, and a tagged optional value.\<close>

locale prefix_code_pair =
  one: prefix_code enc1 ok1 + two: prefix_code enc2 ok2
  for enc1 :: "'a \<Rightarrow> u8 list" and ok1 and enc2 :: "'b \<Rightarrow> u8 list" and ok2
begin

lemma cut_pair:
  assumes "ok1 a" "ok1 a'" "ok2 b" "ok2 b'"
    and "enc1 a @ enc2 b @ r = enc1 a' @ enc2 b' @ s"
  shows "a = a' \<and> b = b' \<and> r = s"
proof -
  from one.cut [OF assms(1,2,5)] have "a = a'" and "enc2 b @ r = enc2 b' @ s" by simp_all
  with two.cut [OF assms(3,4)] show ?thesis by simp
qed

sublocale pair: prefix_code "\<lambda>(a, b). enc1 a @ enc2 b" "\<lambda>(a, b). ok1 a \<and> ok2 b"
proof unfold_locales
  fix x y :: "'a \<times> 'b" and r s
  obtain a b a' b' where xy: "x = (a, b)" "y = (a', b')" by (cases x; cases y) blast
  assume "case x of (a, b) \<Rightarrow> ok1 a \<and> ok2 b" and "case y of (a, b) \<Rightarrow> ok1 a \<and> ok2 b"
    and "(case x of (a, b) \<Rightarrow> enc1 a @ enc2 b) @ r = (case y of (a, b) \<Rightarrow> enc1 a @ enc2 b) @ s"
  then have "ok1 a" "ok1 a'" "ok2 b" "ok2 b'" "enc1 a @ enc2 b @ r = enc1 a' @ enc2 b' @ s"
    by (simp_all add: xy)
  from cut_pair [OF this] show "x = y \<and> r = s" by (simp add: xy)
qed

end

text \<open>A byte string of known length \<open>n\<close>, such as a digest.\<close>

lemma fixed_length_cut:
  "length x = n \<Longrightarrow> length y = n \<Longrightarrow> x @ r = y @ s \<Longrightarrow> x = y \<and> r = s"
  by (simp add: append_eq_append_conv)

text \<open>An integer in a fixed number of bytes.\<close>

lemma be_bytes_cut:
  assumes "8 dvd LENGTH('a)" and "be_bytes v @ r = be_bytes (w :: 'a::len word) @ s"
  shows "v = w \<and> r = s"
  using fixed_length_cut [OF length_be_bytes length_be_bytes assms(2)] be_bytes_inj [OF assms(1)]
  by blast

lemma le_bytes_cut:
  assumes "8 dvd LENGTH('a)" and "le_bytes v @ r = le_bytes (w :: 'a::len word) @ s"
  shows "v = w \<and> r = s"
  using fixed_length_cut [OF length_le_bytes length_le_bytes assms(2)] be_bytes_inj [OF assms(1)]
  unfolding le_bytes_def by (metis rev_rev_ident)

interpretation be64: prefix_code "be_bytes :: u64 \<Rightarrow> u8 list" "\<lambda>_. True"
  by unfold_locales (rule be_bytes_cut, simp_all)

interpretation be32: prefix_code "be_bytes :: u32 \<Rightarrow> u8 list" "\<lambda>_. True"
  by unfold_locales (rule be_bytes_cut, simp_all)

interpretation le64: prefix_code "le_bytes :: u64 \<Rightarrow> u8 list" "\<lambda>_. True"
  by unfold_locales (rule le_bytes_cut, simp_all)

section \<open>Length-prefixed fields\<close>

text \<open>
  \<open>update_field\<close> of the identity modules (\<open>crates/quota/src/identity.rs\<close>,
  \<open>crates/benefits/src/identity.rs\<close>): an eight-byte big-endian length, then the bytes.
\<close>

definition field_bytes :: "u8 list \<Rightarrow> u8 list" where
  "field_bytes v = be_bytes (word_of_nat (length v) :: u64) @ v"

definition update_field :: "u8 list \<Rightarrow> u8 list \<Rightarrow> u8 list" where
  "update_field hasher field = hasher @ field_bytes field"

definition field_ok :: "u8 list \<Rightarrow> bool" where
  "field_ok v \<longleftrightarrow> length v < 2 ^ 64"

lemma field_bytes_cut:
  assumes "field_ok x" "field_ok y" "field_bytes x @ r = field_bytes y @ s"
  shows "x = y \<and> r = s"
proof -
  have eq: "be_bytes (word_of_nat (length x) :: u64) @ (x @ r) =
            be_bytes (word_of_nat (length y) :: u64) @ (y @ s)"
    using assms(3) by (simp add: field_bytes_def)
  then have "(word_of_nat (length x) :: u64) = word_of_nat (length y)" and "x @ r = y @ s"
    using be64.cut [OF TrueI TrueI eq] by simp_all
  then have "unat (word_of_nat (length x) :: u64) = unat (word_of_nat (length y) :: u64)"
    by simp
  then have "length x = length y"
    using assms(1,2) by (simp add: field_ok_def unat_of_nat take_bit_nat_eq_self_iff)
  with \<open>x @ r = y @ s\<close> show ?thesis by simp
qed

interpretation field: prefix_code field_bytes field_ok
  by unfold_locales (rule field_bytes_cut)

text \<open>A run of updates is the concatenation of the encoded fields.\<close>

lemma update_fields_concat:
  "foldl update_field h vs = h @ concat (map field_bytes vs)"
  by (induction vs arbitrary: h) (simp_all add: update_field_def)

lemma update_fields_inj:
  assumes "length vs = length ws" "list_all field_ok vs" "list_all field_ok ws"
    and "foldl update_field [] vs = foldl update_field [] ws"
  shows "vs = ws"
  using field.cut_list [OF assms(1-3), of "[]" "[]"] assms(4)
  by (simp add: update_fields_concat)

end
