(* ===== verification/Usage.thy ===== *)
theory Usage
  imports Prelude
begin

text \<open>
  The provider-neutral usage values of \<open>crates/domain/src/usage.rs\<close>: token counts, activity
  counters, timestamps, the validated text newtypes and the observation and relation drafts
  that a provider adapter hands to the accounting crate.

  A newtype over \<open>Box<str>\<close> is the \<open>string\<close> it holds; its constructor is the validation
  function.  Text that the code trims is a list of Unicode scalar values, because
  \<open>str::trim\<close> and \<open>char::is_control\<close> look at scalar values and not at bytes; the stored
  value is its UTF-8 form.
\<close>

section \<open>Errors\<close>

datatype usage_error =
    InvalidText string nat
  | InvalidCharacters string
  | InvalidTimestamp
  | InvalidLineage

section \<open>Token counts\<close>

datatype token_count = Available u64 | Unavailable

definition token_count_serialize :: "token_count \<Rightarrow> u64 option" where
  "token_count_serialize c = (case c of Available v \<Rightarrow> Some v | Unavailable \<Rightarrow> None)"

definition token_count_deserialize :: "u64 option \<Rightarrow> token_count" where
  "token_count_deserialize w = (case w of None \<Rightarrow> Unavailable | Some v \<Rightarrow> Available v)"

record token_usage =
  tu_input :: token_count
  tu_cached :: token_count
  tu_output :: token_count
  tu_reasoning :: token_count
  tu_total :: token_count
  tu_cache_write_5m :: token_count
  tu_cache_write_1h :: token_count

definition token_usage_new ::
  "token_count \<Rightarrow> token_count \<Rightarrow> token_count \<Rightarrow> token_count \<Rightarrow> token_count \<Rightarrow> token_usage" where
  "token_usage_new input cached output reasoning total_count =
     \<lparr>tu_input = input, tu_cached = cached, tu_output = output, tu_reasoning = reasoning,
      tu_total = total_count, tu_cache_write_5m = Unavailable, tu_cache_write_1h = Unavailable\<rparr>"

definition with_cache_writes :: "token_usage \<Rightarrow> token_count \<Rightarrow> token_count \<Rightarrow> token_usage" where
  "with_cache_writes u w5 w1 = u\<lparr>tu_cache_write_5m := w5, tu_cache_write_1h := w1\<rparr>"

datatype long_context_state = LongContext_Yes | LongContext_No | LongContext_Unavailable

type_synonym reported_cost_usd_micros = u64

section \<open>Activity counters\<close>

datatype activity_kind =
  Activity_Read | EditWrite | Activity_Search | Activity_Git | BuildTest | Activity_Web
  | Subagents | Terminal

fun activity_index :: "activity_kind \<Rightarrow> nat" where
  "activity_index Activity_Read = 0"
| "activity_index EditWrite = 1"
| "activity_index Activity_Search = 2"
| "activity_index Activity_Git = 3"
| "activity_index BuildTest = 4"
| "activity_index Activity_Web = 5"
| "activity_index Subagents = 6"
| "activity_index Terminal = 7"

text \<open>The array of eight counters; \<open>activity_counts_ok\<close> is its length.\<close>

type_synonym activity_counts = "u64 list"

definition activity_counts_ok :: "activity_counts \<Rightarrow> bool" where
  "activity_counts_ok a \<longleftrightarrow> length a = 8"

definition activity_default :: activity_counts where
  "activity_default = replicate 8 0"

definition activity_get :: "activity_counts \<Rightarrow> activity_kind \<Rightarrow> u64" where
  "activity_get a kind = a ! activity_index kind"

definition activity_add :: "activity_counts \<Rightarrow> activity_kind \<Rightarrow> u64 \<Rightarrow> activity_counts" where
  "activity_add a kind n =
     a[activity_index kind := saturating_add (a ! activity_index kind) n]"

definition activity_increment :: "activity_counts \<Rightarrow> activity_kind \<Rightarrow> activity_counts" where
  "activity_increment a kind = activity_add a kind 1"

section \<open>Timestamps\<close>

record utc_timestamp =
  unix_seconds :: i64
  subsec_nanos :: u32

definition utc_timestamp_new :: "i64 \<Rightarrow> u32 \<Rightarrow> usage_error + utc_timestamp" where
  "utc_timestamp_new secs nanos =
     (if 1000000000 \<le> nanos then Inl InvalidTimestamp
      else Inr \<lparr>unix_seconds = secs, subsec_nanos = nanos\<rparr>)"

section \<open>Validated text\<close>

definition is_ascii_alphanumeric :: "char \<Rightarrow> bool" where
  "is_ascii_alphanumeric c =
     (let n = of_char c :: nat
      in (48 \<le> n \<and> n \<le> 57) \<or> (65 \<le> n \<and> n \<le> 90) \<or> (97 \<le> n \<and> n \<le> 122))"

definition is_usage_id_byte :: "char \<Rightarrow> bool" where
  "is_usage_id_byte c \<longleftrightarrow>
     is_ascii_alphanumeric c \<or> c = CHR ''.'' \<or> c = CHR ''_'' \<or> c = CHR ''-''"

definition is_model_key_byte :: "char \<Rightarrow> bool" where
  "is_model_key_byte c \<longleftrightarrow> is_usage_id_byte c \<or> c = CHR ''/'' \<or> c = CHR '':''"

definition validate_ascii_value ::
  "string \<Rightarrow> string \<Rightarrow> nat \<Rightarrow> (char \<Rightarrow> bool) \<Rightarrow> usage_error + string" where
  "validate_ascii_value value field max_bytes is_allowed =
     (if value = [] \<or> max_bytes < length value then Inl (InvalidText field max_bytes)
      else if \<not> list_all is_allowed value then Inl (InvalidCharacters field)
      else Inr value)"

text \<open>Unicode: \<open>char::is_whitespace\<close> (White_Space) and \<open>char::is_control\<close> (Cc).\<close>

type_synonym unicode = "nat list"

definition char_is_whitespace :: "nat \<Rightarrow> bool" where
  "char_is_whitespace c \<longleftrightarrow>
     (9 \<le> c \<and> c \<le> 13) \<or> c = 32 \<or> c = 133 \<or> c = 160 \<or> c = 5760 \<or>
     (8192 \<le> c \<and> c \<le> 8202) \<or> c = 8232 \<or> c = 8233 \<or> c = 8239 \<or> c = 8287 \<or> c = 12288"

definition char_is_control :: "nat \<Rightarrow> bool" where
  "char_is_control c \<longleftrightarrow> c \<le> 31 \<or> (127 \<le> c \<and> c \<le> 159)"

definition utf8_char :: "nat \<Rightarrow> string" where
  "utf8_char c =
     (if c < 128 then [char_of c]
      else if c < 2048 then [char_of (192 + c div 64), char_of (128 + c mod 64)]
      else if c < 65536 then
        [char_of (224 + c div 4096), char_of (128 + c div 64 mod 64), char_of (128 + c mod 64)]
      else
        [char_of (240 + c div 262144), char_of (128 + c div 4096 mod 64),
         char_of (128 + c div 64 mod 64), char_of (128 + c mod 64)])"

definition utf8 :: "unicode \<Rightarrow> string" where
  "utf8 cs = concat (map utf8_char cs)"

definition str_trim :: "unicode \<Rightarrow> unicode" where
  "str_trim cs = rev (dropWhile char_is_whitespace (rev (dropWhile char_is_whitespace cs)))"

definition validate_trimmed_value :: "unicode \<Rightarrow> string \<Rightarrow> nat \<Rightarrow> usage_error + string" where
  "validate_trimmed_value value field max_bytes =
     (let value = str_trim value
      in if value = [] \<or> max_bytes < length (utf8 value) then Inl (InvalidText field max_bytes)
         else if list_ex char_is_control value then Inl (InvalidCharacters field)
         else Inr (utf8 value))"

type_synonym usage_provider_id = string
type_synonym usage_profile_id = string
type_synonym usage_source_id = string
type_synonym model_key = string
type_synonym usage_session_id = string
type_synonym metadata_value = string
type_synonym project_alias = string

definition usage_provider_id_new :: "string \<Rightarrow> usage_error + usage_provider_id" where
  "usage_provider_id_new v = validate_ascii_value v ''provider_id'' 64 is_usage_id_byte"

definition usage_profile_id_new :: "string \<Rightarrow> usage_error + usage_profile_id" where
  "usage_profile_id_new v = validate_ascii_value v ''profile_id'' 128 is_usage_id_byte"

definition usage_source_id_new :: "string \<Rightarrow> usage_error + usage_source_id" where
  "usage_source_id_new v = validate_ascii_value v ''source_id'' 128 is_usage_id_byte"

definition model_key_new :: "string \<Rightarrow> usage_error + model_key" where
  "model_key_new v = validate_ascii_value v ''model'' 64 is_model_key_byte"

definition usage_session_id_new :: "unicode \<Rightarrow> usage_error + usage_session_id" where
  "usage_session_id_new v = validate_trimmed_value v ''session_id'' 512"

definition metadata_value_new :: "unicode \<Rightarrow> usage_error + metadata_value" where
  "metadata_value_new v = validate_trimmed_value v ''metadata'' 512"

definition is_path_separator :: "char \<Rightarrow> bool" where
  "is_path_separator c \<longleftrightarrow> c = CHR ''/'' \<or> c = CHR 0x5C"

definition project_alias_new :: "unicode \<Rightarrow> usage_error + project_alias" where
  "project_alias_new v =
     and_then (validate_trimmed_value v ''project'' 512)
       (\<lambda>value. if list_ex is_path_separator value then Inl (InvalidCharacters ''project'')
                else Inr value)"

section \<open>Drafts\<close>

datatype observation_verification = Verification_Incremental | Verification_FullPrefix

record session_relation_draft =
  rel_provider_id :: usage_provider_id
  rel_profile_id :: usage_profile_id
  rel_session_id :: usage_session_id
  rel_parent_session_id :: usage_session_id
  rel_declared_conflict :: bool
  rel_source_id :: usage_source_id
  rel_source_offset :: u64

definition session_relation_draft_new ::
  "session_relation_draft \<Rightarrow> usage_error + session_relation_draft" where
  "session_relation_draft_new parts =
     (if \<not> rel_declared_conflict parts \<and> rel_parent_session_id parts = rel_session_id parts
      then Inl InvalidLineage else Inr parts)"

record observation_draft =
  obs_provider_id :: usage_provider_id
  obs_profile_id :: usage_profile_id
  obs_session_id :: usage_session_id
  obs_parent_session_id :: "usage_session_id option"
  obs_session_ordinal :: u64
  obs_lineage_conflict :: bool
  obs_source_id :: usage_source_id
  obs_source_offset :: u64
  obs_source_verification :: observation_verification
  obs_timestamp :: utc_timestamp
  obs_model :: model_key
  obs_raw_model :: "metadata_value option"
  obs_delta_usage :: token_usage
  obs_cumulative_usage :: "token_usage option"
  obs_fallback_model :: bool
  obs_long_context :: long_context_state
  obs_service_tier :: "metadata_value option"
  obs_reported_cost :: "reported_cost_usd_micros option"
  obs_project :: "project_alias option"
  obs_originator :: "metadata_value option"
  obs_activity :: activity_counts

definition observation_draft_new :: "observation_draft \<Rightarrow> usage_error + observation_draft" where
  "observation_draft_new parts =
     (if \<not> obs_lineage_conflict parts \<and> obs_parent_session_id parts = Some (obs_session_id parts)
      then Inl InvalidLineage else Inr parts)"

text \<open>
  What the validated newtypes of a draft guarantee: the text bounds that the accounting
  encoding relies on.
\<close>

definition draft_text_ok :: "observation_draft \<Rightarrow> bool" where
  "draft_text_ok d \<longleftrightarrow>
     length (obs_provider_id d) \<le> 64 \<and> length (obs_profile_id d) \<le> 128 \<and>
     length (obs_session_id d) \<le> 512 \<and> length (obs_model d) \<le> 64"

section \<open>Lemmas\<close>

lemma token_count_roundtrip: "token_count_deserialize (token_count_serialize c) = c"
  by (cases c) (simp_all add: token_count_serialize_def token_count_deserialize_def)

lemma activity_index_less [simp]: "activity_index k < 8"
  by (cases k) simp_all

lemma activity_index_inj: "activity_index k = activity_index k' \<longleftrightarrow> k = k'"
  by (cases k; cases k') simp_all

lemma activity_add_ok: "activity_counts_ok a \<Longrightarrow> activity_counts_ok (activity_add a k n)"
  by (simp add: activity_counts_ok_def activity_add_def)

lemma activity_get_add:
  "activity_counts_ok a \<Longrightarrow>
   unat (activity_get (activity_add a k n) k') =
     (if k' = k then min (unat (activity_get a k) + unat n) (2 ^ 64 - 1)
      else unat (activity_get a k'))"
  by (simp add: activity_counts_ok_def activity_add_def activity_get_def nth_list_update
      activity_index_inj unat_saturating_add)

lemma validate_ascii_value_iff [result_simps]:
  "validate_ascii_value v f m p = Inr s \<longleftrightarrow> s = v \<and> v \<noteq> [] \<and> length v \<le> m \<and> list_all p v"
  by (auto simp: validate_ascii_value_def)

lemma str_trim_dropWhile: "dropWhile char_is_whitespace (str_trim cs) = str_trim cs"
proof (cases "dropWhile char_is_whitespace cs")
  case Nil
  then have "str_trim cs = []" unfolding str_trim_def Nil by simp
  then show ?thesis by simp
next
  case (Cons c cs')
  then have c: "\<not> char_is_whitespace c" by (metis hd_dropWhile list.distinct(1) list.sel(1))
  have "\<exists>ds. rev (dropWhile char_is_whitespace (rev cs' @ [c])) = c # ds"
    using c by (simp add: dropWhile_append) (metis rev_rev_ident)
  then obtain ds where "str_trim cs = c # ds" using Cons by (auto simp: str_trim_def)
  with c show ?thesis by simp
qed

lemma str_trim_idem [simp]: "str_trim (str_trim cs) = str_trim cs"
proof -
  have "str_trim (str_trim cs) = rev (dropWhile char_is_whitespace (rev (str_trim cs)))"
    by (simp add: str_trim_def [of "str_trim cs"] str_trim_dropWhile)
  also have "\<dots> = str_trim cs" by (simp add: str_trim_def)
  finally show ?thesis .
qed

lemma str_trim_hd: "str_trim cs \<noteq> [] \<Longrightarrow> \<not> char_is_whitespace (hd (str_trim cs))"
  using str_trim_dropWhile [of cs] by (metis hd_dropWhile)

lemma str_trim_last: "str_trim cs \<noteq> [] \<Longrightarrow> \<not> char_is_whitespace (last (str_trim cs))"
  unfolding str_trim_def last_rev by (metis hd_dropWhile rev.simps(1))

lemma validate_trimmed_value_iff:
  "validate_trimmed_value v f m = Inr s \<longleftrightarrow>
     s = utf8 (str_trim v) \<and> str_trim v \<noteq> [] \<and> length s \<le> m \<and>
     \<not> list_ex char_is_control (str_trim v)"
  by (auto simp: validate_trimmed_value_def Let_def)

lemma activity_fold_ok:
  "activity_counts_ok a \<Longrightarrow> activity_counts_ok (foldl (\<lambda>a (k, n). activity_add a k n) a ops)"
  by (induction ops arbitrary: a) (auto simp: activity_add_ok)

lemma activity_fold_get:
  assumes "activity_counts_ok a"
  shows "unat (activity_get (foldl (\<lambda>a (k, n). activity_add a k n) a ops) kind) =
    min (unat (activity_get a kind) +
         sum_list (map (\<lambda>(k, n). if k = kind then unat n else 0) ops)) (2 ^ 64 - 1)"
  using assms
proof (induction ops arbitrary: a)
  case Nil
  have "unat (activity_get a kind) \<le> 2 ^ 64 - 1"
    using unat_less_pow [of "activity_get a kind"] by simp
  then show ?case by simp
next
  case (Cons x ops)
  obtain k n where x: "x = (k, n)" by (cases x)
  have "activity_counts_ok (activity_add a k n)" using Cons.prems by (rule activity_add_ok)
  from Cons.IH [OF this] show ?case
    by (simp add: x activity_get_add [OF Cons.prems] min_def)
qed

section \<open>Properties\<close>

text \<open>
  A project alias is stored in canonical form: whatever text the constructor accepts, the
  stored value is the UTF-8 form of a non-empty text without control characters and without
  white space at either end, has at most 512 bytes and contains neither path separator; and
  constructing an alias from that text again gives the same value.
\<close>

theorem project_alias_canonical:
  assumes "project_alias_new v = Inr s"
  shows "\<exists>t. s = utf8 t \<and> t \<noteq> [] \<and> length s \<le> 512 \<and>
    \<not> char_is_whitespace (hd t) \<and> \<not> char_is_whitespace (last t) \<and>
    (\<forall>c \<in> set t. \<not> char_is_control c) \<and>
    (\<forall>b \<in> set s. \<not> is_path_separator b) \<and>
    project_alias_new t = Inr s"
proof -
  from assms have s: "s = utf8 (str_trim v)" "str_trim v \<noteq> []" "length s \<le> 512"
      "\<not> list_ex char_is_control (str_trim v)" "\<not> list_ex is_path_separator s"
    by (auto simp: project_alias_new_def validate_trimmed_value_iff result_simps)
  then have "project_alias_new (str_trim v) = Inr s"
    by (simp add: project_alias_new_def validate_trimmed_value_def)
  with s str_trim_hd str_trim_last show ?thesis
    by (intro exI [of _ "str_trim v"]) (simp add: list_ex_iff)
qed

theorem project_alias_canonical_witness:
  "project_alias_new [32, 116, 109, 9] = Inr ''tm'' \<and>
   (\<exists>t. ''tm'' = utf8 t \<and> t \<noteq> [] \<and> project_alias_new t = Inr ''tm'')"
proof
  show new: "project_alias_new [32, 116, 109, 9] = Inr ''tm''"
    by code_simp
  from project_alias_canonical [OF new]
  show "\<exists>t. ''tm'' = utf8 t \<and> t \<noteq> [] \<and> project_alias_new t = Inr ''tm''" by blast
qed

text \<open>
  Any sequence of additions to the activity counters, starting from the default, leaves in
  each of the eight counters the sum of the amounts added to its kind, saturated at the
  largest 64-bit value; other kinds never disturb it, whatever the order.
\<close>

theorem activity_counts_sum:
  "unat (activity_get (foldl (\<lambda>a (k, n). activity_add a k n) activity_default ops) kind) =
     min (sum_list (map (\<lambda>(k, n). if k = kind then unat n else 0) ops)) (2 ^ 64 - 1)"
proof -
  have "activity_counts_ok activity_default" "activity_get activity_default kind = 0"
    by (simp_all add: activity_counts_ok_def activity_default_def activity_get_def)
  from activity_fold_get [OF this(1), of ops kind] this(2) show ?thesis by simp
qed

end
