(* ===== verification/Framing.thy ===== *)
theory Framing
  imports Encoding Usage
begin

text \<open>
  The line framing of the Codex reader, \<open>crates/codex/src/reader/framing.rs\<close>, with the diagnostics of
  \<open>reader/mod.rs\<close> and \<open>parser/mod.rs\<close> that it counts in.

  A buffered source is the list of what successive reads of the file deliver: a failure, or the
  bytes that filled the buffer.  Parameters are \<open>memchr\<close> of the crate of that name, the line parser
  (whose diagnostics are only ever added to, so it returns what it adds), whether an allocation
  succeeds, and the answers of the cancellation check.  The descriptor and the source verification of
  \<open>FramingInput\<close> only make the parse context, which is an argument of the line parser.
\<close>

section \<open>Errors and diagnostics\<close>

datatype reader_error_code =
    Reader_InvalidDescriptor
  | Reader_NonRegular
  | Reader_ReparsePoint
  | Reader_OpenFailed
  | Reader_ReadFailed
  | Reader_SeekFailed
  | Reader_SourceChanged
  | Reader_CheckpointInvalid
  | Reader_AnchorMismatch
  | Reader_ResumeInvalid
  | Reader_Cancelled
  | Reader_CapacityExceeded

record reader_error =
  rer_code :: reader_error_code
  rer_limit :: "u64 option"

definition reader_error_new :: "reader_error_code \<Rightarrow> reader_error" where
  "reader_error_new code = \<lparr> rer_code = code, rer_limit = None \<rparr>"

definition reader_error_with_limit :: "reader_error_code \<Rightarrow> u64 \<Rightarrow> reader_error" where
  "reader_error_with_limit code limit = \<lparr> rer_code = code, rer_limit = Some limit \<rparr>"

datatype reader_diagnostic_code = Diag_CompleteLine | Diag_CrlfLine | Diag_IncompleteTail | Diag_OversizedLine

record reader_diagnostics =
  rd_complete_lines :: u64
  rd_crlf_lines :: u64
  rd_incomplete_tails :: u64
  rd_oversized_lines :: u64
  rd_max_line_bytes_retained :: u64

definition reader_diagnostics_default :: reader_diagnostics where
  "reader_diagnostics_default = \<lparr> rd_complete_lines = 0, rd_crlf_lines = 0, rd_incomplete_tails = 0,
     rd_oversized_lines = 0, rd_max_line_bytes_retained = 0 \<rparr>"

fun reader_diagnostics_record :: "reader_diagnostic_code \<Rightarrow> reader_diagnostics \<Rightarrow> reader_diagnostics" where
  "reader_diagnostics_record Diag_CompleteLine d = d \<lparr> rd_complete_lines := saturating_add (rd_complete_lines d) 1 \<rparr>"
| "reader_diagnostics_record Diag_CrlfLine d = d \<lparr> rd_crlf_lines := saturating_add (rd_crlf_lines d) 1 \<rparr>"
| "reader_diagnostics_record Diag_IncompleteTail d = d \<lparr> rd_incomplete_tails := saturating_add (rd_incomplete_tails d) 1 \<rparr>"
| "reader_diagnostics_record Diag_OversizedLine d = d \<lparr> rd_oversized_lines := saturating_add (rd_oversized_lines d) 1 \<rparr>"

text \<open>\<open>u64::try_from(n).unwrap_or(u64::MAX)\<close>.\<close>

definition u64_of_usize :: "nat \<Rightarrow> u64" where
  "u64_of_usize n = (if n < 2 ^ 64 then word_of_nat n else - 1)"

definition observe_line_bytes :: "nat \<Rightarrow> reader_diagnostics \<Rightarrow> reader_diagnostics" where
  "observe_line_bytes bytes d =
     d \<lparr> rd_max_line_bytes_retained := max (rd_max_line_bytes_retained d) (u64_of_usize bytes) \<rparr>"

datatype parser_diagnostic_code =
    Parser_LineTooLarge
  | Parser_MalformedJson
  | Parser_InvalidToken
  | Parser_InvalidTimestamp
  | Parser_ZeroUsage
  | Parser_InvalidModel
  | Parser_ModelFallback
  | Parser_InvalidMetadata
  | Parser_MetadataTruncated
  | Parser_InvalidPath
  | Parser_ToolCapacity
  | Parser_Irrelevant

text \<open>The counters of \<open>ParserDiagnostics\<close>: four named ones, and one per code.\<close>

record parser_diagnostics =
  pd_lines :: u64
  pd_emitted_events :: u64
  pd_metadata_lines :: u64
  pd_tool_events :: u64
  pd_codes :: "parser_diagnostic_code \<Rightarrow> u64"

definition parser_diagnostics_new :: parser_diagnostics where
  "parser_diagnostics_new = \<lparr> pd_lines = 0, pd_emitted_events = 0, pd_metadata_lines = 0, pd_tool_events = 0,
     pd_codes = (\<lambda>_. 0) \<rparr>"

definition parser_record :: "parser_diagnostic_code \<Rightarrow> parser_diagnostics \<Rightarrow> parser_diagnostics" where
  "parser_record code d = d \<lparr> pd_codes := (pd_codes d)(code := saturating_add (pd_codes d code) 1) \<rparr>"

definition record_line :: "parser_diagnostics \<Rightarrow> parser_diagnostics" where
  "record_line d = d \<lparr> pd_lines := saturating_add (pd_lines d) 1 \<rparr>"

datatype parse_outcome =
    Parse_Emitted observation_draft
  | Parse_SessionRelation session_relation_draft
  | Parse_MetadataOnly
  | Parse_ToolOnly
  | Parse_Skipped
  | Parse_Rejected parser_diagnostic_code

section \<open>Reading lines\<close>

definition READ_BUFFER_BYTES :: nat where
  "READ_BUFFER_BYTES = 128 * 1024"

definition MAX_BATCH_EVENTS :: nat where
  "MAX_BATCH_EVENTS = 256"

definition MAX_BATCH_COMPLETE_BYTES :: u64 where
  "MAX_BATCH_COMPLETE_BYTES = 1048576"

definition MAX_LINE_BYTES :: nat where
  "MAX_LINE_BYTES = 16777216"

type_synonym buf_source = "(unit + u8 list) list"

fun fill_buf :: "buf_source \<Rightarrow> unit + u8 list" where
  "fill_buf [] = Inr []"
| "fill_buf (delivered # _) = delivered"

fun consume :: "nat \<Rightarrow> buf_source \<Rightarrow> buf_source" where
  "consume n (Inr bytes # rest) = (if n < length bytes then Inr (drop n bytes) # rest else rest)"
| "consume n source = source"

type_synonym 'st line_parser =
  "'st \<Rightarrow> u64 \<Rightarrow> u8 list \<Rightarrow> parse_outcome \<times> 'st \<times> (parser_diagnostics \<Rightarrow> parser_diagnostics)"

type_synonym byte_search = "u8 \<Rightarrow> u8 list \<Rightarrow> nat option"

record 'st framing =
  fr_state :: 'st
  fr_events :: "observation_draft list"
  fr_relations :: "session_relation_draft list"
  fr_diagnostics :: reader_diagnostics
  fr_parser_diagnostics :: parser_diagnostics
  fr_line :: "u8 list"
  fr_discarding :: bool
  fr_absolute_offset :: u64
  fr_committed_offset :: u64
  fr_bytes_read :: u64
  fr_complete_bytes :: u64
  fr_line_batch_bytes :: u64
  fr_hashed :: "u8 list"

record 'st framing_input =
  fi_start_offset :: u64
  fi_committed_offset :: u64
  fi_state :: 'st
  fi_snapshot_end_offset :: u64
  fi_discarding_oversized_line :: bool

record 'st framing_result =
  fx_state :: 'st
  fx_events :: "observation_draft list"
  fx_relations :: "session_relation_draft list"
  fx_diagnostics :: reader_diagnostics
  fx_parser_diagnostics :: parser_diagnostics
  fx_committed_offset :: u64
  fx_scan_offset :: u64
  fx_bytes_read :: u64
  fx_reached_snapshot_end :: bool
  fx_incomplete_tail :: bool
  fx_discarding_oversized_line :: bool
  fx_consumed_sha256 :: "u8 list"

definition reserve_line :: "(nat \<Rightarrow> bool) \<Rightarrow> u8 list \<Rightarrow> nat \<Rightarrow> reader_error + unit" where
  "reserve_line alloc line additional =
     (if alloc (length line + additional) then Inr ()
      else Inl (reader_error_with_limit Reader_CapacityExceeded (word_of_nat MAX_LINE_BYTES)))"

text \<open>The part of a turn before the bytes are consumed: the new line buffer, and whether a line too large ended.\<close>

definition extend_line :: "(nat \<Rightarrow> bool) \<Rightarrow> nat option \<Rightarrow> nat \<Rightarrow> u8 list \<Rightarrow> 'st framing
    \<Rightarrow> reader_error + (bool \<times> 'st framing)" where
  "extend_line alloc newline content_len available f =
     (if fr_discarding f then Inr (newline \<noteq> None, f)
      else if length (fr_line f) + content_len > MAX_LINE_BYTES
      then (let retain = min (MAX_LINE_BYTES - length (fr_line f)) content_len in
            and_then (if retain > 0 then reserve_line alloc (fr_line f) retain else Inr ()) (\<lambda>_.
            let diagnostics = (if retain > 0
                  then observe_line_bytes (length (fr_line f @ take retain available)) (fr_diagnostics f)
                  else fr_diagnostics f)
            in Inr (newline \<noteq> None,
                 f \<lparr> fr_diagnostics := diagnostics, fr_discarding := True, fr_line := [] \<rparr>)))
      else and_then (reserve_line alloc (fr_line f) content_len) (\<lambda>_.
           let line = fr_line f @ take content_len available
           in Inr (False, f \<lparr> fr_line := line,
                fr_diagnostics := observe_line_bytes (length line) (fr_diagnostics f) \<rparr>)))"

definition consume_bytes :: "u8 list \<Rightarrow> 'st framing \<Rightarrow> 'st framing" where
  "consume_bytes bytes f =
     (let consumed = u64_of_usize (length bytes) in
      f \<lparr> fr_hashed := fr_hashed f @ bytes,
          fr_absolute_offset := saturating_add (fr_absolute_offset f) consumed,
          fr_bytes_read := saturating_add (fr_bytes_read f) consumed,
          fr_line_batch_bytes := saturating_add (fr_line_batch_bytes f) consumed \<rparr>)"

definition push_outcome :: "parse_outcome \<Rightarrow> 'st framing \<Rightarrow> 'st framing" where
  "push_outcome outcome f = (case outcome of
     Parse_Emitted event \<Rightarrow> f \<lparr> fr_events := fr_events f @ [event] \<rparr>
   | Parse_SessionRelation relation \<Rightarrow> f \<lparr> fr_relations := fr_relations f @ [relation] \<rparr>
   | _ \<Rightarrow> f)"

definition finish_line :: "'st line_parser \<Rightarrow> bool \<Rightarrow> 'st framing \<Rightarrow> 'st framing" where
  "finish_line parse_line oversized_completion f =
     (let f = f \<lparr> fr_diagnostics := reader_diagnostics_record Diag_CompleteLine (fr_diagnostics f) \<rparr>;
          f = (if oversized_completion
               then f \<lparr> fr_diagnostics := reader_diagnostics_record Diag_OversizedLine (fr_diagnostics f),
                        fr_parser_diagnostics :=
                          parser_record Parser_LineTooLarge (record_line (fr_parser_diagnostics f)),
                        fr_discarding := False \<rparr>
               else
                 let line = fr_line f;
                     crlf = (line \<noteq> [] \<and> last line = 13);
                     f = (if crlf then f \<lparr> fr_diagnostics := reader_diagnostics_record Diag_CrlfLine (fr_diagnostics f) \<rparr>
                          else f);
                     parse_bytes = (if crlf then butlast line else line)
                 in if parse_bytes = [] then f
                    else let (outcome, state, record) = parse_line (fr_state f) (fr_committed_offset f) parse_bytes
                         in push_outcome outcome (f \<lparr> fr_state := state,
                              fr_parser_diagnostics := record (fr_parser_diagnostics f) \<rparr>))
      in f \<lparr> fr_committed_offset := fr_absolute_offset f,
             fr_complete_bytes := saturating_add (fr_complete_bytes f) (fr_line_batch_bytes f),
             fr_line_batch_bytes := 0, fr_line := [] \<rparr>)"

definition batch_full :: "'st framing \<Rightarrow> bool" where
  "batch_full f \<longleftrightarrow> length (fr_events f) + length (fr_relations f) \<ge> MAX_BATCH_EVENTS
     \<or> fr_complete_bytes f \<ge> MAX_BATCH_COMPLETE_BYTES"

definition consumed_len :: "nat option \<Rightarrow> u8 list \<Rightarrow> nat" where
  "consumed_len newline available =
     (case newline of Some n \<Rightarrow> n + 1 | None \<Rightarrow> length available)"

function frame_loop :: "byte_search \<Rightarrow> (nat \<Rightarrow> bool) \<Rightarrow> 'st line_parser \<Rightarrow> (nat \<Rightarrow> bool) \<Rightarrow> u64 \<Rightarrow> u64 \<Rightarrow> nat
    \<Rightarrow> buf_source \<Rightarrow> 'st framing \<Rightarrow> reader_error + (bool \<times> 'st framing)" where
  "frame_loop memchr alloc parse_line should_cancel discard_read_limit snapshot_end_offset turn source f =
     (if should_cancel turn then Inl (reader_error_new Reader_Cancelled)
      else case fill_buf source of
        Inl _ \<Rightarrow> Inl (reader_error_new Reader_ReadFailed)
      | Inr available \<Rightarrow>
          if available = [] then Inr (True, f)
          else
            let newline = memchr 10 available;
                content_len = (case newline of Some n \<Rightarrow> n | None \<Rightarrow> length available);
                consumed = consumed_len newline available
            in case extend_line alloc newline content_len available f of
                 Inl error \<Rightarrow> Inl error
               | Inr (oversized_completion, f) \<Rightarrow>
                   let f = consume_bytes (take consumed available) f in
                   if newline \<noteq> None
                   then let f = finish_line parse_line oversized_completion f in
                     if batch_full f then Inr (fr_absolute_offset f \<ge> snapshot_end_offset, f)
                     else frame_loop memchr alloc parse_line should_cancel discard_read_limit
                            snapshot_end_offset (Suc turn) (consume consumed source) f
                   else if fr_discarding f \<and> fr_bytes_read f \<ge> discard_read_limit
                   then Inr (fr_absolute_offset f \<ge> snapshot_end_offset, f)
                   else frame_loop memchr alloc parse_line should_cancel discard_read_limit
                          snapshot_end_offset (Suc turn) (consume consumed source) f)"
  by pat_completeness auto

definition source_size :: "buf_source \<Rightarrow> nat" where
  "source_size source = (\<Sum>d \<leftarrow> source. case d of Inl _ \<Rightarrow> 1 | Inr bytes \<Rightarrow> length bytes)"

lemma consume_smaller:
  assumes "fill_buf source = Inr available" "available \<noteq> []"
  shows "source_size (consume (consumed_len newline available) source) < source_size source"
  using assms
  by (cases source) (auto simp: source_size_def consumed_len_def split: option.split)

termination frame_loop
  by (relation "measure (\<lambda>(_, _, _, _, _, _, _, source, _). source_size source)") (auto dest: consume_smaller)

declare frame_loop.simps [simp del]

definition framing_start :: "'st framing_input \<Rightarrow> 'st framing" where
  "framing_start input = \<lparr> fr_state = fi_state input, fr_events = [], fr_relations = [],
     fr_diagnostics = reader_diagnostics_default, fr_parser_diagnostics = parser_diagnostics_new,
     fr_line = [], fr_discarding = fi_discarding_oversized_line input,
     fr_absolute_offset = fi_start_offset input, fr_committed_offset = fi_committed_offset input,
     fr_bytes_read = 0, fr_complete_bytes = 0, fr_line_batch_bytes = 0, fr_hashed = [] \<rparr>"

definition framing_end :: "(u8 list \<Rightarrow> u8 list) \<Rightarrow> bool \<Rightarrow> 'st framing \<Rightarrow> 'st framing_result" where
  "framing_end sha256 reached_snapshot_end f =
     (let incomplete_tail = (fr_discarding f \<or> (reached_snapshot_end \<and> fr_line f \<noteq> []));
          diagnostics = (if incomplete_tail then reader_diagnostics_record Diag_IncompleteTail (fr_diagnostics f)
            else fr_diagnostics f)
      in \<lparr> fx_state = fr_state f, fx_events = fr_events f, fx_relations = fr_relations f,
           fx_diagnostics = diagnostics, fx_parser_diagnostics = fr_parser_diagnostics f,
           fx_committed_offset = fr_committed_offset f,
           fx_scan_offset = (if fr_discarding f then fr_absolute_offset f else fr_committed_offset f),
           fx_bytes_read = fr_bytes_read f, fx_reached_snapshot_end = reached_snapshot_end,
           fx_incomplete_tail = incomplete_tail, fx_discarding_oversized_line = fr_discarding f,
           fx_consumed_sha256 = sha256 (fr_hashed f) \<rparr>)"

definition read_lines :: "(u8 list \<Rightarrow> u8 list) \<Rightarrow> byte_search \<Rightarrow> (nat \<Rightarrow> bool) \<Rightarrow> 'st line_parser
    \<Rightarrow> (nat \<Rightarrow> bool) \<Rightarrow> buf_source \<Rightarrow> 'st framing_input \<Rightarrow> reader_error + 'st framing_result" where
  "read_lines sha256 memchr alloc parse_line should_cancel source input =
     (let discard_read_limit = (if fi_discarding_oversized_line input then MAX_BATCH_COMPLETE_BYTES
            else u64_of_usize (MAX_LINE_BYTES + READ_BUFFER_BYTES))
      in case frame_loop memchr alloc parse_line should_cancel discard_read_limit
                (fi_snapshot_end_offset input) 0 source (framing_start input) of
           Inl error \<Rightarrow> Inl error
         | Inr (reached_snapshot_end, f) \<Rightarrow> Inr (framing_end sha256 reached_snapshot_end f))"

section \<open>What the lines of a file mean\<close>

text \<open>\<open>memchr\<close> as its crate documents it: the index of the first occurrence.\<close>

definition finds_first :: "byte_search \<Rightarrow> bool" where
  "finds_first memchr \<longleftrightarrow> (\<forall>b xs. memchr b xs
     = (if b \<in> set xs then Some (length (takeWhile (\<lambda>x. x \<noteq> b) xs)) else None))"

definition split_step :: "u8 list list \<times> u8 list \<Rightarrow> u8 \<Rightarrow> u8 list list \<times> u8 list" where
  "split_step = (\<lambda>(lines, tail) b. if b = 10 then (lines @ [tail], []) else (lines, tail @ [b]))"

text \<open>The complete lines of some bytes, without their newlines, and what follows the last one.\<close>

definition split_lines :: "u8 list \<Rightarrow> u8 list list \<times> u8 list" where
  "split_lines bytes = foldl split_step ([], []) bytes"

definition line_text :: "u8 list \<Rightarrow> u8 list" where
  "line_text line = (if line \<noteq> [] \<and> last line = 13 then butlast line else line)"

record 'st scan =
  sc_discard :: bool
  sc_committed :: u64
  sc_pos :: nat
  sc_state :: 'st
  sc_events :: "observation_draft list"
  sc_relations :: "session_relation_draft list"

definition outcome_events :: "parse_outcome \<Rightarrow> observation_draft list" where
  "outcome_events outcome = (case outcome of Parse_Emitted event \<Rightarrow> [event] | _ \<Rightarrow> [])"

definition outcome_relations :: "parse_outcome \<Rightarrow> session_relation_draft list" where
  "outcome_relations outcome = (case outcome of Parse_SessionRelation relation \<Rightarrow> [relation] | _ \<Rightarrow> [])"

text \<open>
  One complete line: its text goes to the parser with the offset the line starts at, unless it is
  empty or too large, or is the rest of a line whose start was already too large.
\<close>

definition scan_line :: "'st line_parser \<Rightarrow> 'st scan \<Rightarrow> u8 list \<Rightarrow> 'st scan" where
  "scan_line parse_line s line =
     (let pos = sc_pos s + length line + 1;
          s' = (if sc_discard s \<or> length line > MAX_LINE_BYTES \<or> line_text line = [] then s
                else let (outcome, state, _) = parse_line (sc_state s) (sc_committed s) (line_text line)
                     in s \<lparr> sc_state := state, sc_events := sc_events s @ outcome_events outcome,
                            sc_relations := sc_relations s @ outcome_relations outcome \<rparr>)
      in s' \<lparr> sc_discard := False, sc_committed := word_of_nat pos, sc_pos := pos \<rparr>)"

definition scan_bytes :: "'st line_parser \<Rightarrow> 'st scan \<Rightarrow> u8 list \<Rightarrow> 'st scan" where
  "scan_bytes parse_line s bytes = foldl (scan_line parse_line) s (fst (split_lines bytes))"

lemma split_lines_Nil [simp]: "split_lines [] = ([], [])"
  by (simp add: split_lines_def)

lemma foldl_split_plain: "10 \<notin> set x \<Longrightarrow> foldl split_step (ls, t) x = (ls, t @ x)"
  by (induction x arbitrary: t) (auto simp: split_step_def)

lemma split_lines_append:
  "split_lines (w @ y) = foldl split_step (split_lines w) y"
  by (simp add: split_lines_def)

lemma foldl_split_shift:
  "foldl split_step ([], t) y = (ls', t') \<Longrightarrow> foldl split_step (ls, t) y = (ls @ ls', t')"
proof (induction y arbitrary: ls' t' rule: rev_induct)
  case (snoc b y)
  obtain ls1 t1 where split: "foldl split_step ([], t) y = (ls1, t1)"
    by fastforce
  show ?case
    using snoc.IH [OF split] snoc.prems split by (auto simp: split_step_def)
qed simp

lemma split_lines_plain:
  "10 \<notin> set x \<Longrightarrow> split_lines w = (ls, t) \<Longrightarrow> split_lines (w @ x) = (ls, t @ x)"
  by (simp add: split_lines_append foldl_split_plain)

lemma split_lines_newline:
  "10 \<notin> set x \<Longrightarrow> split_lines w = (ls, t) \<Longrightarrow> split_lines (w @ x @ [10]) = (ls @ [t @ x], [])"
  by (simp add: split_lines_append foldl_split_plain) (simp add: split_step_def)

lemma split_lines_length:
  "split_lines w = (ls, t) \<Longrightarrow> (\<Sum>l \<leftarrow> ls. length l + 1) + length t = length w"
  by (induction w arbitrary: ls t rule: rev_induct)
    (auto simp: split_lines_append split_step_def split: if_splits prod.splits)

lemma scan_line_pos [simp]: "sc_pos (scan_line parse s l) = sc_pos s + length l + 1"
  by (simp add: scan_line_def Let_def)

lemma scan_lines_pos: "sc_pos (foldl (scan_line parse) s ls) = sc_pos s + (\<Sum>l \<leftarrow> ls. length l + 1)"
  by (induction ls arbitrary: s) simp_all

lemma scan_bytes_pos:
  "split_lines w = (ls, t) \<Longrightarrow> sc_pos (scan_bytes parse s w) + length t = sc_pos s + length w"
  using split_lines_length [of w ls t] by (simp add: scan_bytes_def scan_lines_pos)

lemma scan_bytes_plain:
  "10 \<notin> set x \<Longrightarrow> scan_bytes parse s (w @ x) = scan_bytes parse s w"
  by (cases "split_lines w") (simp add: scan_bytes_def split_lines_plain)

lemma scan_bytes_newline:
  "10 \<notin> set x \<Longrightarrow>
   scan_bytes parse s (w @ x @ [10]) = scan_line parse (scan_bytes parse s w) (snd (split_lines w) @ x)"
  by (cases "split_lines w") (simp add: scan_bytes_def split_lines_newline)

section \<open>The loop follows the lines\<close>

text \<open>What the loop's variables say once the bytes \<open>w\<close> are consumed.\<close>

definition framing_inv :: "'st line_parser \<Rightarrow> 'st scan \<Rightarrow> u8 list \<Rightarrow> 'st framing \<Rightarrow> bool" where
  "framing_inv parse_line s0 w f \<longleftrightarrow>
     (let s = scan_bytes parse_line s0 w; tail = snd (split_lines w) in
      sc_pos s0 + length w < 2 ^ 64 \<and> fr_hashed f = w
      \<and> fr_state f = sc_state s \<and> fr_events f = sc_events s \<and> fr_relations f = sc_relations s
      \<and> fr_committed_offset f = sc_committed s
      \<and> unat (fr_absolute_offset f) = sc_pos s0 + length w
      \<and> (fr_discarding f \<longleftrightarrow> sc_discard s \<or> length tail > MAX_LINE_BYTES)
      \<and> fr_line f = (if fr_discarding f then [] else tail)
      \<and> unat (fr_bytes_read f) = length w
      \<and> unat (fr_line_batch_bytes f) = length tail
      \<and> unat (fr_complete_bytes f) = length w - length tail
      \<and> unat (rd_max_line_bytes_retained (fr_diagnostics f)) \<le> MAX_LINE_BYTES)"

lemma unat_u64_of_usize: "n < 2 ^ 64 \<Longrightarrow> unat (u64_of_usize n) = n"
  by (simp add: u64_of_usize_def unat_of_nat take_bit_nat_eq_self)

lemma saturating_add_exact:
  "unat a + n < 2 ^ 64 \<Longrightarrow> unat (saturating_add a (u64_of_usize n)) = unat a + n" for a :: u64
  by (simp add: saturating_add_def unat_u64_of_usize unat_word_ariths)

lemma observe_line_bytes_bound:
  assumes "n \<le> MAX_LINE_BYTES" "unat (rd_max_line_bytes_retained d) \<le> MAX_LINE_BYTES"
  shows "unat (rd_max_line_bytes_retained (observe_line_bytes n d)) \<le> MAX_LINE_BYTES"
proof -
  have "unat (u64_of_usize n) \<le> MAX_LINE_BYTES"
    using assms(1) by (simp add: unat_u64_of_usize MAX_LINE_BYTES_def)
  with assms(2) show ?thesis
    by (simp add: observe_line_bytes_def max_def)
qed


lemma extend_line_result:
  assumes inv: "framing_inv parse s0 w f" and x: "take content_len available = x" "length x = content_len"
    and ext: "extend_line alloc newline content_len available f = Inr (oversized, f1)"
    and split: "split_lines w = (ls, tail)"
  defines "large \<equiv> sc_discard (scan_bytes parse s0 w) \<or> length (tail @ x) > MAX_LINE_BYTES"
  obtains d where "f1 = f \<lparr> fr_line := (if large then [] else tail @ x), fr_discarding := large, fr_diagnostics := d \<rparr>"
    and "unat (rd_max_line_bytes_retained d) \<le> MAX_LINE_BYTES"
    and "oversized \<longleftrightarrow> newline \<noteq> None \<and> large"
proof -
  have discarding: "fr_discarding f \<longleftrightarrow> sc_discard (scan_bytes parse s0 w) \<or> length tail > MAX_LINE_BYTES"
    and line: "fr_line f = (if fr_discarding f then [] else tail)"
    and bound: "unat (rd_max_line_bytes_retained (fr_diagnostics f)) \<le> MAX_LINE_BYTES"
    using inv split by (simp_all add: framing_inv_def Let_def)
  show thesis
  proof (cases "fr_discarding f")
    case True
    then have "f1 = f" "oversized \<longleftrightarrow> newline \<noteq> None" "large" "fr_line f = []"
      using ext line discarding by (auto simp: extend_line_def large_def)
    with True bound show thesis
      by (intro that [of "fr_diagnostics f"]) simp_all
  next
    case False
    then have line: "fr_line f = tail" and small: "length tail \<le> MAX_LINE_BYTES"
      and large: "large \<longleftrightarrow> length tail + content_len > MAX_LINE_BYTES"
      using line discarding x by (auto simp: large_def)
    have retained: "length (tail @ take (min (MAX_LINE_BYTES - length tail) content_len) available) \<le> MAX_LINE_BYTES"
      using small by simp
    show thesis
    proof (cases large)
      case True
      with ext False line large retained bound show thesis
        by (intro that [of "fr_diagnostics f1"])
          (auto simp: extend_line_def Let_def result_simps intro!: observe_line_bytes_bound split: if_splits)
    next
      case nolarge: False
      with ext False line large x bound show thesis
        by (intro that [of "fr_diagnostics f1"])
          (auto simp: extend_line_def Let_def result_simps intro!: observe_line_bytes_bound split: if_splits)
    qed
  qed
qed

lemma consume_bytes_fields:
  "fr_state (consume_bytes x f) = fr_state f" "fr_events (consume_bytes x f) = fr_events f"
  "fr_relations (consume_bytes x f) = fr_relations f" "fr_diagnostics (consume_bytes x f) = fr_diagnostics f"
  "fr_line (consume_bytes x f) = fr_line f" "fr_discarding (consume_bytes x f) = fr_discarding f"
  "fr_committed_offset (consume_bytes x f) = fr_committed_offset f"
  "fr_complete_bytes (consume_bytes x f) = fr_complete_bytes f"
  "fr_hashed (consume_bytes x f) = fr_hashed f @ x"
  by (simp_all add: consume_bytes_def Let_def)

lemma consume_bytes_counts:
  assumes "unat (fr_absolute_offset f) + length x < 2 ^ 64" "unat (fr_bytes_read f) + length x < 2 ^ 64"
    "unat (fr_line_batch_bytes f) + length x < 2 ^ 64"
  shows "unat (fr_absolute_offset (consume_bytes x f)) = unat (fr_absolute_offset f) + length x"
    "unat (fr_bytes_read (consume_bytes x f)) = unat (fr_bytes_read f) + length x"
    "unat (fr_line_batch_bytes (consume_bytes x f)) = unat (fr_line_batch_bytes f) + length x"
  using assms by (simp_all add: consume_bytes_def Let_def saturating_add_exact)

lemma split_tail_length: "length (snd (split_lines w)) \<le> length w"
  by (cases "split_lines w") (use split_lines_length [of w] in fastforce)

lemma framing_inv_plain:
  assumes inv: "framing_inv parse s0 w f" and plain: "10 \<notin> set x"
    and bound: "sc_pos s0 + length w + length x < 2 ^ 64"
    and ext: "extend_line alloc newline (length x) available f = Inr (oversized, f1)"
    and x: "take (length x) available = x"
  shows "framing_inv parse s0 (w @ x) (consume_bytes x f1)"
proof -
  obtain ls tail where split: "split_lines w = (ls, tail)"
    by fastforce
  obtain d where f1: "f1 = f \<lparr> fr_line := (if sc_discard (scan_bytes parse s0 w) \<or> length (tail @ x) > MAX_LINE_BYTES
        then [] else tail @ x), fr_discarding := (sc_discard (scan_bytes parse s0 w) \<or> length (tail @ x) > MAX_LINE_BYTES),
        fr_diagnostics := d \<rparr>"
    and d: "unat (rd_max_line_bytes_retained d) \<le> MAX_LINE_BYTES"
    by (rule extend_line_result [OF inv x refl ext split])
  have "length tail \<le> length w"
    using split_tail_length [of w] split by simp
  then show ?thesis
    using inv bound split d consume_bytes_counts [of f1 x]
    by (simp add: framing_inv_def Let_def consume_bytes_fields split_lines_plain [OF plain split]
        scan_bytes_plain [OF plain] f1)
qed


lemma push_outcome_fields:
  "fr_events (push_outcome p f) = fr_events f @ outcome_events p"
  "fr_relations (push_outcome p f) = fr_relations f @ outcome_relations p"
  "fr_state (push_outcome p f) = fr_state f" "fr_absolute_offset (push_outcome p f) = fr_absolute_offset f"
  "fr_bytes_read (push_outcome p f) = fr_bytes_read f" "fr_hashed (push_outcome p f) = fr_hashed f"
  "fr_complete_bytes (push_outcome p f) = fr_complete_bytes f"
  "fr_line_batch_bytes (push_outcome p f) = fr_line_batch_bytes f"
  "fr_diagnostics (push_outcome p f) = fr_diagnostics f" "fr_discarding (push_outcome p f) = fr_discarding f"
  by (cases p; simp add: push_outcome_def outcome_events_def outcome_relations_def)+

lemma record_keeps_bound [simp]:
  "rd_max_line_bytes_retained (reader_diagnostics_record c d) = rd_max_line_bytes_retained d"
  by (cases c) simp_all

text \<open>What \<open>finish_line\<close> does, whatever became of the line.\<close>

lemma finish_line_fields:
  "fr_absolute_offset (finish_line parse big f) = fr_absolute_offset f"
  "fr_bytes_read (finish_line parse big f) = fr_bytes_read f"
  "fr_hashed (finish_line parse big f) = fr_hashed f"
  "fr_committed_offset (finish_line parse big f) = fr_absolute_offset f"
  "fr_complete_bytes (finish_line parse big f) = saturating_add (fr_complete_bytes f) (fr_line_batch_bytes f)"
  "fr_line_batch_bytes (finish_line parse big f) = 0" "fr_line (finish_line parse big f) = []"
  "rd_max_line_bytes_retained (fr_diagnostics (finish_line parse big f)) = rd_max_line_bytes_retained (fr_diagnostics f)"
  "fr_discarding (finish_line parse big f) \<longleftrightarrow> \<not> big \<and> fr_discarding f"
  by (auto simp: finish_line_def Let_def push_outcome_fields split: prod.split)

lemma finish_line_scan:
  assumes "big \<longleftrightarrow> sc_discard s \<or> length line > MAX_LINE_BYTES"
    and "\<not> big \<Longrightarrow> fr_line f = line" "fr_state f = sc_state s" "fr_events f = sc_events s"
    "fr_relations f = sc_relations s" "fr_committed_offset f = sc_committed s"
  shows "fr_state (finish_line parse big f) = sc_state (scan_line parse s line)"
    "fr_events (finish_line parse big f) = sc_events (scan_line parse s line)"
    "fr_relations (finish_line parse big f) = sc_relations (scan_line parse s line)"
  using assms
  by (auto simp: finish_line_def scan_line_def Let_def line_text_def push_outcome_fields split: prod.split)

lemma framing_inv_newline:
  assumes inv: "framing_inv parse s0 w f" and plain: "10 \<notin> set x"
    and bound: "sc_pos s0 + length w + length x + 1 < 2 ^ 64"
    and ext: "extend_line alloc (Some n) (length x) available f = Inr (oversized, f1)"
    and x: "take (length x) available = x"
  defines "f2 \<equiv> finish_line parse oversized (consume_bytes (x @ [10]) f1)"
  shows "framing_inv parse s0 (w @ x @ [10]) f2" "\<not> fr_discarding f2"
    "fr_committed_offset f2 = fr_absolute_offset f2"
proof -
  obtain ls tail where split: "split_lines w = (ls, tail)"
    by fastforce
  define s where "s = scan_bytes parse s0 w"
  define large where "large \<longleftrightarrow> sc_discard s \<or> length (tail @ x) > MAX_LINE_BYTES"
  obtain d where f1: "f1 = f \<lparr> fr_line := (if large then [] else tail @ x), fr_discarding := large,
        fr_diagnostics := d \<rparr>"
    and d: "unat (rd_max_line_bytes_retained d) \<le> MAX_LINE_BYTES" and oversized: "oversized \<longleftrightarrow> large"
    unfolding large_def s_def by (rule extend_line_result [OF inv x refl ext split]) simp
  note invs = inv [unfolded framing_inv_def Let_def split snd_conv, folded s_def]
  have tail: "length tail \<le> length w"
    using split_tail_length [of w] split by simp
  have counts: "unat (fr_absolute_offset (consume_bytes (x @ [10]) f1)) = sc_pos s0 + length w + length x + 1"
    "unat (fr_bytes_read (consume_bytes (x @ [10]) f1)) = length w + length x + 1"
    "unat (fr_line_batch_bytes (consume_bytes (x @ [10]) f1)) = length tail + length x + 1"
    using consume_bytes_counts [of f1 "x @ [10]"] invs bound tail by (simp_all add: f1)
  have total: "unat (fr_complete_bytes f2) = length w + length x + 1"
    unfolding f2_def finish_line_fields(5) consume_bytes_fields unat_saturating_add
    using counts(3) invs tail bound by (simp add: f1)
  have pos: "sc_pos s + length tail = sc_pos s0 + length w"
    using scan_bytes_pos [OF split] by (simp add: s_def)
  have scan: "scan_bytes parse s0 (w @ x @ [10]) = scan_line parse s (tail @ x)"
    using scan_bytes_newline [OF plain, of parse s0 w] split by (simp add: s_def)
  have committed: "sc_committed (scan_line parse s (tail @ x)) = word_of_nat (sc_pos s0 + length w + length x + 1)"
    using pos by (simp add: scan_line_def Let_def add.assoc [symmetric])
  have absolute: "fr_absolute_offset f2 = word_of_nat (sc_pos s0 + length w + length x + 1)"
    unfolding f2_def finish_line_fields(1) by (rule word_of_unat_eq [OF counts(1)])
  have discard: "\<not> sc_discard (scan_line parse s (tail @ x))"
    by (simp add: scan_line_def Let_def)
  note fields = finish_line_scan [of oversized s "tail @ x" "consume_bytes (x @ [10]) f1" parse]
  have parsed: "fr_state f2 = sc_state (scan_line parse s (tail @ x))"
    "fr_events f2 = sc_events (scan_line parse s (tail @ x))"
    "fr_relations f2 = sc_relations (scan_line parse s (tail @ x))"
    unfolding f2_def by (rule fields; use invs oversized in \<open>simp add: large_def consume_bytes_fields f1\<close>)+
  show not_discarding: "\<not> fr_discarding f2"
    by (simp add: f2_def finish_line_fields consume_bytes_fields f1 oversized)
  show same: "fr_committed_offset f2 = fr_absolute_offset f2"
    by (simp add: f2_def finish_line_fields)
  show "framing_inv parse s0 (w @ x @ [10]) f2"
    unfolding framing_inv_def Let_def scan split_lines_newline [OF plain split] snd_conv
    using bound counts invs total parsed committed absolute discard not_discarding same d
    by (simp add: f2_def finish_line_fields consume_bytes_fields f1)
qed

fun source_bytes :: "buf_source \<Rightarrow> u8 list" where
  "source_bytes (Inr (b # bs) # rest) = (b # bs) @ source_bytes rest"
| "source_bytes _ = []"

lemma source_bytes_consume:
  assumes "fill_buf source = Inr available" "available \<noteq> []" "n \<le> length available"
  shows "source_bytes source = take n available @ source_bytes (consume n source)"
proof -
  obtain rest where source: "source = Inr available # rest"
    using assms by (cases source) auto
  obtain b bs where available: "available = b # bs"
    using assms(2) by (cases available) auto
  show ?thesis
  proof (cases "n < length available")
    case True
    then obtain c cs where rest_bytes: "drop n available = c # cs"
      by (cases "drop n available") auto
    have "available = take n available @ c # cs"
      using append_take_drop_id [of n available] rest_bytes by simp
    with True show ?thesis
      using rest_bytes by (simp add: source available)
  next
    case False
    with assms(3) show ?thesis
      by (simp add: source available)
  qed
qed

text \<open>What one turn finds before the newline, by the law of \<open>memchr\<close>.\<close>

lemma memchr_newline:
  assumes "finds_first memchr"
  shows "memchr 10 available = Some n \<Longrightarrow>
      n < length available \<and> 10 \<notin> set (take n available) \<and> available ! n = 10
      \<and> take (n + 1) available = take n available @ [10]"
    and "memchr 10 available = None \<Longrightarrow> 10 \<notin> set available"
proof -
  have memchr: "memchr 10 available
      = (if 10 \<in> set available then Some (length (takeWhile (\<lambda>x. x \<noteq> 10) available)) else None)"
    using assms unfolding finds_first_def by blast
  show "10 \<notin> set available" if "memchr 10 available = None"
    using that memchr by (simp split: if_splits)
  assume "memchr 10 available = Some n"
  then have n: "n = length (takeWhile (\<lambda>x. x \<noteq> 10) available)" and mem: "10 \<in> set available"
    using memchr by (auto split: if_splits)
  have "takeWhile (\<lambda>x. x \<noteq> 10) available \<noteq> available"
    using mem by (simp add: takeWhile_eq_all_conv)
  then have less: "n < length available"
    unfolding n using takeWhile_dropWhile_id [of "\<lambda>x. x \<noteq> 10" available]
    by (metis append.right_neutral length_0_conv length_append less_add_same_cancel1 not_gr_zero)
  have nth: "available ! n = 10"
    using nth_length_takeWhile [of "\<lambda>x. x \<noteq> 10" available] less by (simp add: n)
  have "take n available = takeWhile (\<lambda>x. x \<noteq> 10) available"
    unfolding n by (rule takeWhile_eq_take [symmetric])
  then have "10 \<notin> set (take n available)"
    using set_takeWhileD by fastforce
  with less nth show "n < length available \<and> 10 \<notin> set (take n available) \<and> available ! n = 10
      \<and> take (n + 1) available = take n available @ [10]"
    by (simp add: take_Suc_conv_app_nth)
qed

text \<open>
  The loop's result: the bytes consumed are a prefix of those the source holds, the variables describe
  them, and the loop stops before the end of the file only past the point where it started, with nothing
  of the last line left unread.
\<close>

definition loop_post :: "'st line_parser \<Rightarrow> 'st scan \<Rightarrow> u64 \<Rightarrow> u8 list \<Rightarrow> buf_source
    \<Rightarrow> bool \<Rightarrow> 'st framing \<Rightarrow> bool" where
  "loop_post parse_line s0 snapshot_end w source reached f \<longleftrightarrow>
     (\<exists>u v. source_bytes source = u @ v \<and> framing_inv parse_line s0 (w @ u) f
        \<and> (v = [] \<and> reached
           \<or> (u \<noteq> [] \<and> (reached \<longleftrightarrow> fr_absolute_offset f \<ge> snapshot_end)
              \<and> (fr_discarding f \<or> fr_committed_offset f = fr_absolute_offset f))))"

lemma loop_post_step:
  assumes "source_bytes source = x @ source_bytes source'"
    and "loop_post parse s0 snapshot_end (w @ x) source' reached f"
  shows "loop_post parse s0 snapshot_end w source reached f"
  using assms unfolding loop_post_def by (metis append.assoc append_is_Nil_conv)

lemma loop_post_break:
  assumes "source_bytes source = x @ source_bytes source'" "x \<noteq> []"
    and "framing_inv parse s0 (w @ x) f" "fr_discarding f \<or> fr_committed_offset f = fr_absolute_offset f"
  shows "loop_post parse s0 snapshot_end w source (fr_absolute_offset f \<ge> snapshot_end) f"
  using assms unfolding loop_post_def by blast

lemma frame_loop_post:
  assumes "finds_first memchr"
    and "framing_inv parse s0 w f" "sc_pos s0 + length w + length (source_bytes source) < 2 ^ 64"
    and "frame_loop memchr alloc parse should_cancel limit snapshot_end turn source f = Inr (reached, f')"
  shows "loop_post parse s0 snapshot_end w source reached f'"
  using assms(2-4)
proof (induction "source_size source" arbitrary: w f source turn rule: less_induct)
  case less
  note loop = less.prems(3) [unfolded frame_loop.simps [of memchr alloc parse should_cancel limit snapshot_end turn source f]]
  from loop obtain available where fill: "fill_buf source = Inr available"
    by (auto split: if_splits sum.splits)
  show ?case
  proof (cases "available = []")
    case True
    then have "source_bytes source = []"
      using fill by (cases source rule: source_bytes.cases) auto
    then show ?thesis
      using loop fill True less.prems(1) by (auto simp: loop_post_def split: if_splits)
  next
    case False
    define newline where "newline = memchr 10 available"
    define x where "x = (case newline of Some n \<Rightarrow> take n available | None \<Rightarrow> available)"
    define y where "y = (case newline of Some n \<Rightarrow> x @ [10] | None \<Rightarrow> x)"
    let ?source = "consume (consumed_len newline available) source"
    have len: "length x = (case newline of Some n \<Rightarrow> n | None \<Rightarrow> length available)"
      "take (length x) available = x" "10 \<notin> set x" "take (consumed_len newline available) available = y"
      "consumed_len newline available \<le> length available" "y \<noteq> []"
      using memchr_newline [OF assms(1), of available] False
      by (auto simp: x_def y_def newline_def consumed_len_def split: option.splits)
    have bytes: "source_bytes source = y @ source_bytes ?source"
      using source_bytes_consume [OF fill False len(5)] len(4) by simp
    have smaller: "source_size ?source < source_size source"
      by (rule consume_smaller [OF fill False])
    have room: "sc_pos s0 + length w + length y + length (source_bytes ?source) < 2 ^ 64"
      using less.prems(2) bytes by simp
    obtain big f1 where ext: "extend_line alloc newline (length x) available f = Inr (big, f1)"
      using loop fill False by (auto simp: Let_def newline_def [symmetric] len(1) split: if_splits sum.splits)
    note IH = less.hyps [OF smaller, of "w @ y"]
    show ?thesis
    proof (cases newline)
      case None
      then have y: "y = x"
        by (simp add: y_def)
      have inv: "framing_inv parse s0 (w @ y) (consume_bytes y f1)"
        unfolding y using room y by (intro framing_inv_plain [OF less.prems(1) len(3) _ ext len(2)]) simp
      let ?g = "consume_bytes y f1"
      have turn: "\<not> should_cancel turn"
        using loop by (simp split: if_splits)
      have step: "(if fr_discarding ?g \<and> fr_bytes_read ?g \<ge> limit
          then Inr (fr_absolute_offset ?g \<ge> snapshot_end, ?g)
          else frame_loop memchr alloc parse should_cancel limit snapshot_end (Suc turn) ?source ?g)
        = Inr (reached, f')"
        using loop turn fill False ext None len(1,4)
        by (simp add: Let_def newline_def [symmetric] split del: if_split cong: if_cong)
      show ?thesis
      proof (cases "fr_discarding ?g \<and> fr_bytes_read ?g \<ge> limit")
        case True
        with step have eqs: "f' = ?g" "reached = (fr_absolute_offset ?g \<ge> snapshot_end)"
          by auto
        show ?thesis
          unfolding eqs using True by (intro loop_post_break [OF bytes len(6) inv] disjI1) simp
      next
        case go_on: False
        with step have "frame_loop memchr alloc parse should_cancel limit snapshot_end (Suc turn) ?source ?g
            = Inr (reached, f')"
          by (simp split: if_splits)
        then have "loop_post parse s0 snapshot_end (w @ y) ?source reached f'"
          by (rule IH [OF inv, rotated]) (use room in simp)
        then show ?thesis
          by (rule loop_post_step [OF bytes])
      qed
    next
      case (Some n)
      then have y: "y = x @ [10]"
        by (simp add: y_def)
      let ?f = "finish_line parse big (consume_bytes y f1)"
      have inv: "framing_inv parse s0 (w @ y) ?f" "fr_committed_offset ?f = fr_absolute_offset ?f"
        unfolding y using room y
        by (auto intro!: framing_inv_newline [OF less.prems(1) len(3) _ ext [unfolded Some] len(2)])
      have turn: "\<not> should_cancel turn"
        using loop by (simp split: if_splits)
      have step: "(if batch_full ?f then Inr (fr_absolute_offset ?f \<ge> snapshot_end, ?f)
          else frame_loop memchr alloc parse should_cancel limit snapshot_end (Suc turn) ?source ?f)
        = Inr (reached, f')"
        using loop turn fill False ext Some len(1,4)
        by (simp add: Let_def newline_def [symmetric] split del: if_split cong: if_cong)
      show ?thesis
      proof (cases "batch_full ?f")
        case True
        with step have eqs: "f' = ?f" "reached = (fr_absolute_offset ?f \<ge> snapshot_end)"
          by auto
        show ?thesis
          unfolding eqs by (rule loop_post_break [OF bytes len(6) inv(1) disjI2 [OF inv(2)]])
      next
        case go_on: False
        with step have "frame_loop memchr alloc parse should_cancel limit snapshot_end (Suc turn) ?source ?f
            = Inr (reached, f')"
          by simp
        then have "loop_post parse s0 snapshot_end (w @ y) ?source reached f'"
          by (rule IH [OF inv(1), rotated]) (use room in simp)
        then show ?thesis
          by (rule loop_post_step [OF bytes])
      qed
    qed
  qed
qed

section \<open>Batches\<close>

text \<open>
  A batch ends somewhere in the file and the next one starts from its checkpoint, as
  \<open>read_source_batch_with_cache\<close> sets it up: at the scan offset, with the parser's state.
\<close>

definition next_input :: "u64 \<Rightarrow> 'st framing_result \<Rightarrow> 'st framing_input" where
  "next_input snapshot_end r = \<lparr> fi_start_offset = fx_scan_offset r, fi_committed_offset = fx_committed_offset r,
     fi_state = fx_state r, fi_snapshot_end_offset = snapshot_end,
     fi_discarding_oversized_line = fx_discarding_oversized_line r \<rparr>"

definition input_scan :: "'st framing_input \<Rightarrow> 'st scan" where
  "input_scan input = \<lparr> sc_discard = fi_discarding_oversized_line input, sc_committed = fi_committed_offset input,
     sc_pos = unat (fi_start_offset input), sc_state = fi_state input, sc_events = [], sc_relations = [] \<rparr>"

text \<open>What a checkpoint promises of its offsets.\<close>

definition input_ok :: "'st framing_input \<Rightarrow> bool" where
  "input_ok input \<longleftrightarrow> fi_discarding_oversized_line input \<or> fi_committed_offset input = fi_start_offset input"

definition scan_value :: "'st scan \<Rightarrow> 'st \<times> u64 \<times> observation_draft list \<times> session_relation_draft list" where
  "scan_value s = (sc_state s, sc_committed s, sc_events s, sc_relations s)"

lemma framing_start_inv:
  "framing_inv parse (input_scan input) [] (framing_start input)"
  using unat_less_pow [of "fi_start_offset input"]
  by (simp add: framing_inv_def framing_start_def input_scan_def scan_bytes_def reader_diagnostics_default_def)

lemma split_lines_tail_plain: "split_lines w = (ls, tail) \<Longrightarrow> 10 \<notin> set tail"
  by (induction w arbitrary: ls tail rule: rev_induct)
    (auto simp: split_lines_append split_step_def split: if_splits prod.splits)

lemma split_lines_resume:
  assumes "split_lines w = (ls, tail)" "split_lines (tail @ z) = (ls', tail')"
  shows "split_lines (w @ z) = (ls @ ls', tail')"
proof -
  have "foldl split_step ([], tail) z = (ls', tail')"
    using assms(2) foldl_split_plain [OF split_lines_tail_plain [OF assms(1)], of "[]" "[]"]
    by (simp add: split_lines_def)
  then show ?thesis
    using foldl_split_shift assms(1) by (simp add: split_lines_append)
qed

lemma scan_bytes_resume:
  assumes "split_lines w = (ls, tail)"
  shows "scan_bytes parse s (w @ z) = scan_bytes parse (scan_bytes parse s w) (tail @ z)"
  using split_lines_resume [OF assms, of z] assms
  by (cases "split_lines (tail @ z)") (simp add: scan_bytes_def)

lemma scan_line_large:
  assumes "sc_discard s \<or> length line > MAX_LINE_BYTES"
  shows "scan_line parse s line = s \<lparr> sc_discard := False,
    sc_committed := word_of_nat (sc_pos s + length line + 1), sc_pos := sc_pos s + length line + 1 \<rparr>"
  using assms by (auto simp: scan_line_def Let_def)

text \<open>Leaving off inside a line too large, and going on with the rest of it to be dropped.\<close>

lemma split_lines_first:
  assumes "10 \<in> set z"
  obtains x z' where "z = x @ [10] @ z'" "10 \<notin> set x"
  using split_list_first [OF assms] that by auto

lemma scan_bytes_first:
  assumes "10 \<notin> set x"
  shows "scan_bytes parse s (x @ [10] @ z) = scan_bytes parse (scan_line parse s x) z"
  using scan_bytes_resume [of "x @ [10]" "[x]" "[]" parse s z] split_lines_newline [OF assms, of "[]" "[]" "[]"]
  by (simp add: scan_bytes_def)

lemma scan_bytes_large:
  assumes "sc_discard s \<or> length tail > MAX_LINE_BYTES" "10 \<notin> set tail"
  shows "scan_value (scan_bytes parse s (tail @ z))
    = scan_value (scan_bytes parse (s \<lparr> sc_discard := True, sc_pos := sc_pos s + length tail \<rparr>) z)"
proof (cases "10 \<in> set z")
  case True
  then obtain x z' where z: "z = x @ [10] @ z'" and x: "10 \<notin> set x"
    by (rule split_lines_first)
  have "scan_line parse s (tail @ x) = scan_line parse (s \<lparr> sc_discard := True, sc_pos := sc_pos s + length tail \<rparr>) x"
    using assms(1) by (subst (1 2) scan_line_large) (auto simp: add.assoc)
  then show ?thesis
    using scan_bytes_first [of "tail @ x" parse s z'] scan_bytes_first [OF x, of parse _ z'] assms(2) x
    by (simp add: z)
next
  case False
  then have "split_lines (tail @ z) = ([], tail @ z)" "split_lines z = ([], z)"
    using split_lines_plain [of "tail @ z" "[]"] split_lines_plain [of z "[]"] assms(2) by simp_all
  then show ?thesis
    by (simp add: scan_bytes_def scan_value_def)
qed

lemma scan_committed_pos:
  assumes "sc_discard s \<or> sc_committed s = word_of_nat (sc_pos s)"
  shows "sc_discard (scan_bytes parse s w) \<or> sc_committed (scan_bytes parse s w) = word_of_nat (sc_pos (scan_bytes parse s w))"
proof -
  have "sc_discard (foldl (scan_line parse) s ls)
      \<or> sc_committed (foldl (scan_line parse) s ls) = word_of_nat (sc_pos (foldl (scan_line parse) s ls))" for ls
    using assms by (induction ls rule: rev_induct) (auto simp: scan_line_def Let_def)
  then show ?thesis
    by (simp add: scan_bytes_def)
qed

lemma scan_line_shift:
  "scan_line parse (s \<lparr> sc_events := E @ sc_events s, sc_relations := R @ sc_relations s \<rparr>) l
   = (scan_line parse s l) \<lparr> sc_events := E @ sc_events (scan_line parse s l),
       sc_relations := R @ sc_relations (scan_line parse s l) \<rparr>"
  by (auto simp: scan_line_def Let_def split: prod.split)

lemma scan_bytes_shift:
  "scan_bytes parse (s \<lparr> sc_events := E @ sc_events s, sc_relations := R @ sc_relations s \<rparr>) w
   = (scan_bytes parse s w) \<lparr> sc_events := E @ sc_events (scan_bytes parse s w),
       sc_relations := R @ sc_relations (scan_bytes parse s w) \<rparr>"
proof -
  have "foldl (scan_line parse) (s \<lparr> sc_events := E @ sc_events s, sc_relations := R @ sc_relations s \<rparr>) ls
    = (foldl (scan_line parse) s ls) \<lparr> sc_events := E @ sc_events (foldl (scan_line parse) s ls),
       sc_relations := R @ sc_relations (foldl (scan_line parse) s ls) \<rparr>" for ls
    by (induction ls rule: rev_induct) (simp_all only: foldl.simps foldl_append scan_line_shift)
  then show ?thesis
    by (simp add: scan_bytes_def)
qed

end
