(* ===== verification/FramingBatches.thy ===== *)
theory FramingBatches
  imports Framing
begin

text \<open>
  What \<open>read_lines\<close> of \<open>crates/codex/src/reader/framing.rs\<close> promises its callers: one batch reads the lines of
  the bytes it consumed, and a file read batch by batch, each from the checkpoint of the one before, yields
  the lines of the whole file, however the operating system cuts the bytes.
\<close>

section \<open>One batch\<close>

lemma split_lines_tail_drop:
  "split_lines w = (ls, tail) \<Longrightarrow> drop (length w - length tail) w = tail \<and> length tail \<le> length w"
proof (induction w arbitrary: ls tail rule: rev_induct)
  case (snoc b w)
  obtain ls' tail' where split: "split_lines w = (ls', tail')"
    by fastforce
  with snoc.IH have "drop (length w - length tail') w = tail'" "length tail' \<le> length w"
    by auto
  with snoc.prems split show ?case
    by (auto simp: split_lines_append split_step_def Suc_diff_le split: if_splits)
qed simp

definition result_value :: "'st framing_result \<Rightarrow> 'st \<times> u64 \<times> observation_draft list \<times> session_relation_draft list" where
  "result_value r = (fx_state r, fx_committed_offset r, fx_events r, fx_relations r)"

definition prepend_value :: "'st framing_result
    \<Rightarrow> 'st \<times> u64 \<times> observation_draft list \<times> session_relation_draft list
    \<Rightarrow> 'st \<times> u64 \<times> observation_draft list \<times> session_relation_draft list" where
  "prepend_value r = (\<lambda>(state, committed, events, relations).
     (state, committed, fx_events r @ events, fx_relations r @ relations))"

text \<open>The next batch, from the result's checkpoint, sees what the whole would have shown from there.\<close>

lemma resume_value:
  assumes inv: "framing_inv parse (input_scan input) u f" and ok: "input_ok input"
    and r: "r = framing_end sha256 reached f"
  shows "input_ok (next_input e r)"
    "unat (fi_start_offset input) \<le> unat (fx_scan_offset r)"
    "unat (fx_scan_offset r) \<le> unat (fi_start_offset input) + length u"
    "scan_value (scan_bytes parse (input_scan input) (u @ z))
      = prepend_value r (scan_value (scan_bytes parse (input_scan (next_input e r))
          (drop (unat (fx_scan_offset r) - unat (fi_start_offset input)) (u @ z))))"
proof -
  obtain ls tail where split: "split_lines u = (ls, tail)"
    by fastforce
  define s where "s = scan_bytes parse (input_scan input) u"
  note invs = inv [unfolded framing_inv_def Let_def split snd_conv, folded s_def]
  have tail: "drop (length u - length tail) u = tail" "length tail \<le> length u"
    using split_lines_tail_drop [OF split] by auto
  have pos: "sc_pos s + length tail = unat (fi_start_offset input) + length u"
    using scan_bytes_pos [OF split, of parse "input_scan input"] by (simp add: s_def input_scan_def)
  have start: "sc_discard (input_scan input) \<or> sc_committed (input_scan input) = word_of_nat (sc_pos (input_scan input))"
    using ok by (auto simp: input_ok_def input_scan_def)
  have "sc_pos s < 2 ^ 64"
    using invs pos by (simp add: input_scan_def)
  then have committed: "sc_discard s \<or> unat (sc_committed s) = sc_pos s"
    using scan_committed_pos [OF start, of parse u, folded s_def]
    by (auto simp: unat_of_nat take_bit_nat_eq_self)
  have fields: "fx_state r = sc_state s" "fx_committed_offset r = sc_committed s" "fx_events r = sc_events s"
    "fx_relations r = sc_relations s" "fx_discarding_oversized_line r = fr_discarding f"
    using invs by (simp_all add: r framing_end_def Let_def)
  show "input_ok (next_input e r)"
    by (simp add: input_ok_def next_input_def r framing_end_def Let_def)
  have scan: "unat (fx_scan_offset r)
      = (if fr_discarding f then unat (fi_start_offset input) + length u else sc_pos s)"
    using invs committed by (auto simp: r framing_end_def Let_def input_scan_def)
  show "unat (fi_start_offset input) \<le> unat (fx_scan_offset r)"
    "unat (fx_scan_offset r) \<le> unat (fi_start_offset input) + length u"
    using scan pos tail(2) by (auto split: if_splits)
  define s' where "s' = input_scan (next_input e r)"
  have shifted: "scan_value (scan_bytes parse (s' \<lparr> sc_events := sc_events s @ sc_events s',
        sc_relations := sc_relations s @ sc_relations s' \<rparr>) y)
      = prepend_value r (scan_value (scan_bytes parse s' y))" for y
    unfolding scan_bytes_shift by (simp add: scan_value_def prepend_value_def fields)
  have whole: "scan_bytes parse (input_scan input) (u @ z) = scan_bytes parse s (tail @ z)"
    unfolding s_def by (rule scan_bytes_resume [OF split])
  show "scan_value (scan_bytes parse (input_scan input) (u @ z))
      = prepend_value r (scan_value (scan_bytes parse (input_scan (next_input e r))
          (drop (unat (fx_scan_offset r) - unat (fi_start_offset input)) (u @ z))))"
  proof (cases "fr_discarding f")
    case True
    have "s' \<lparr> sc_events := sc_events s @ sc_events s', sc_relations := sc_relations s @ sc_relations s' \<rparr>
        = s \<lparr> sc_discard := True, sc_pos := sc_pos s + length tail \<rparr>"
      using True pos scan fields by (cases s) (simp add: s'_def input_scan_def next_input_def)
    moreover have "scan_value (scan_bytes parse s (tail @ z))
        = scan_value (scan_bytes parse (s \<lparr> sc_discard := True, sc_pos := sc_pos s + length tail \<rparr>) z)"
      using True invs by (intro scan_bytes_large split_lines_tail_plain [OF split]) simp
    ultimately show ?thesis
      using shifted [of z] whole scan True by (simp add: s'_def [symmetric])
  next
    case False
    have "s' \<lparr> sc_events := sc_events s @ sc_events s', sc_relations := sc_relations s @ sc_relations s' \<rparr> = s"
      using False invs scan fields by (cases s) (simp add: s'_def input_scan_def next_input_def)
    moreover have "drop (sc_pos s - unat (fi_start_offset input)) (u @ z) = tail @ z"
    proof -
      have "sc_pos s - unat (fi_start_offset input) = length u - length tail"
        using pos tail(2) by simp
      then show ?thesis
        using tail by simp
    qed
    ultimately show ?thesis
      using shifted [of "tail @ z"] whole scan False by (simp add: s'_def [symmetric])
  qed
qed

lemma read_lines_cases:
  assumes memchr: "finds_first memchr"
    and room: "unat (fi_start_offset input) + length (source_bytes source) < 2 ^ 64"
    and read: "read_lines sha256 memchr alloc parse should_cancel source input = Inr r"
  obtains u v f where "source_bytes source = u @ v" "framing_inv parse (input_scan input) u f"
    "r = framing_end sha256 (fx_reached_snapshot_end r) f"
    "v = [] \<and> fx_reached_snapshot_end r
      \<or> u \<noteq> [] \<and> (fx_reached_snapshot_end r \<longleftrightarrow> fi_snapshot_end_offset input \<le> fr_absolute_offset f)
        \<and> fx_scan_offset r = fr_absolute_offset f"
proof -
  define limit where "limit = (if fi_discarding_oversized_line input then MAX_BATCH_COMPLETE_BYTES
    else u64_of_usize (MAX_LINE_BYTES + READ_BUFFER_BYTES))"
  obtain reached f where loop: "frame_loop memchr alloc parse should_cancel limit (fi_snapshot_end_offset input) 0
      source (framing_start input) = Inr (reached, f)" and r: "r = framing_end sha256 reached f"
    using read by (auto simp: read_lines_def Let_def limit_def split: sum.splits)
  have "loop_post parse (input_scan input) (fi_snapshot_end_offset input) [] source reached f"
    using room by (intro frame_loop_post [OF memchr framing_start_inv _ loop]) (simp add: input_scan_def)
  moreover have "fx_reached_snapshot_end r = reached"
    by (simp add: r framing_end_def Let_def)
  moreover have "fx_scan_offset r = (if fr_discarding f then fr_absolute_offset f else fr_committed_offset f)"
    by (simp add: r framing_end_def Let_def)
  ultimately show thesis
    using r unfolding loop_post_def by (auto intro: that [of _ _ f])
qed

lemma read_lines_value:
  assumes "framing_inv parse (input_scan input) u f" "r = framing_end sha256 reached f"
  shows "result_value r = scan_value (scan_bytes parse (input_scan input) u)"
    "fx_consumed_sha256 r = sha256 u" "unat (fx_bytes_read r) = length u"
    "unat (rd_max_line_bytes_retained (fx_diagnostics r)) \<le> MAX_LINE_BYTES"
  using assms by (simp_all add: framing_inv_def Let_def framing_end_def result_value_def scan_value_def)

text \<open>
  C29. A batch that succeeds has read some prefix of the bytes the source holds, and reports exactly it: the
  digest is that prefix's, the events, relations, parser state and committed offset are those of its complete
  lines, each given to the parser once, in order, with the offset it starts at, without its line end, and never
  when it is empty or larger than the limit; no more than the limit is ever kept of a line; and a batch that
  stops short of the end of the file has moved the scan offset past everything it read.
\<close>

theorem read_lines_exact:
  assumes "finds_first memchr"
    and "unat (fi_start_offset input) + length (source_bytes source) < 2 ^ 64"
    and "read_lines sha256 memchr alloc parse should_cancel source input = Inr r"
  shows "\<exists>u v. source_bytes source = u @ v \<and> fx_consumed_sha256 r = sha256 u
    \<and> unat (fx_bytes_read r) = length u
    \<and> result_value r = scan_value (scan_bytes parse (input_scan input) u)
    \<and> unat (rd_max_line_bytes_retained (fx_diagnostics r)) \<le> MAX_LINE_BYTES
    \<and> (v \<noteq> [] \<longrightarrow> u \<noteq> [] \<and> unat (fx_scan_offset r) = unat (fi_start_offset input) + length u)"
proof -
  obtain u v f where bytes: "source_bytes source = u @ v" and inv: "framing_inv parse (input_scan input) u f"
    and r: "r = framing_end sha256 (fx_reached_snapshot_end r) f"
    and stop: "v = [] \<and> fx_reached_snapshot_end r
      \<or> u \<noteq> [] \<and> (fx_reached_snapshot_end r \<longleftrightarrow> fi_snapshot_end_offset input \<le> fr_absolute_offset f)
        \<and> fx_scan_offset r = fr_absolute_offset f"
    by (rule read_lines_cases [OF assms])
  have "unat (fr_absolute_offset f) = unat (fi_start_offset input) + length u"
    using inv by (simp add: framing_inv_def Let_def input_scan_def)
  then show ?thesis
    using bytes read_lines_value [OF inv r] stop by (intro exI [of _ u] exI [of _ v]) auto
qed

section \<open>A file in batches\<close>

text \<open>
  The caller's loop over an unchanging file: batch after batch, until one reaches the end.  What the
  operating system delivers, and when it is asked to cancel, may differ from batch to batch.
\<close>

fun read_file :: "(u8 list \<Rightarrow> u8 list) \<Rightarrow> byte_search \<Rightarrow> (nat \<Rightarrow> bool) \<Rightarrow> 'st line_parser
    \<Rightarrow> (nat \<Rightarrow> nat \<Rightarrow> bool) \<Rightarrow> (nat \<Rightarrow> u64 \<Rightarrow> buf_source) \<Rightarrow> nat \<Rightarrow> 'st framing_input
    \<Rightarrow> (reader_error + ('st \<times> u64 \<times> observation_draft list \<times> session_relation_draft list)) option" where
  "read_file sha256 memchr alloc parse_line should_cancel deliver 0 input = None"
| "read_file sha256 memchr alloc parse_line should_cancel deliver (Suc batches) input =
     (case read_lines sha256 memchr alloc parse_line (should_cancel batches)
             (deliver batches (fi_start_offset input)) input of
        Inl error \<Rightarrow> Some (Inl error)
      | Inr r \<Rightarrow>
          if fx_reached_snapshot_end r then Some (Inr (result_value r))
          else map_option (map_sum id (prepend_value r))
                 (read_file sha256 memchr alloc parse_line should_cancel deliver batches
                    (next_input (fi_snapshot_end_offset input) r)))"

lemma map_batch_iff:
  "map_option (map_sum id g) x = Some (Inr y) \<longleftrightarrow> (\<exists>z. x = Some (Inr z) \<and> y = g z)"
proof -
  have "map_sum id g s = Inr y \<longleftrightarrow> (\<exists>z. s = Inr z \<and> y = g z)" for s
    by (cases s) auto
  then show ?thesis
    by auto
qed

definition delivers :: "(nat \<Rightarrow> u64 \<Rightarrow> buf_source) \<Rightarrow> u8 list \<Rightarrow> bool" where
  "delivers deliver file \<longleftrightarrow> (\<forall>batch offset. source_bytes (deliver batch offset) = drop (unat offset) file)"

lemma batch_step:
  assumes memchr: "finds_first memchr" and contents: "delivers deliver file" "length file < 2 ^ 64"
    and ok: "input_ok input" "unat (fi_start_offset input) \<le> length file"
      "fi_snapshot_end_offset input = word_of_nat (length file)"
    and read: "read_lines sha256 memchr alloc parse cancel (deliver n (fi_start_offset input)) input = Inr r"
  shows "fx_reached_snapshot_end r \<Longrightarrow>
      result_value r = scan_value (scan_bytes parse (input_scan input) (drop (unat (fi_start_offset input)) file))"
    and "\<not> fx_reached_snapshot_end r \<Longrightarrow> input_ok (next_input (fi_snapshot_end_offset input) r)
      \<and> unat (fi_start_offset input) < unat (fx_scan_offset r) \<and> unat (fx_scan_offset r) \<le> length file
      \<and> scan_value (scan_bytes parse (input_scan input) (drop (unat (fi_start_offset input)) file))
        = prepend_value r (scan_value (scan_bytes parse (input_scan (next_input (fi_snapshot_end_offset input) r))
            (drop (unat (fx_scan_offset r)) file)))"
proof -
  let ?start = "unat (fi_start_offset input)"
  have bytes: "source_bytes (deliver n (fi_start_offset input)) = drop ?start file"
    using contents(1) by (simp add: delivers_def)
  have room: "?start + length (source_bytes (deliver n (fi_start_offset input))) < 2 ^ 64"
    using contents(2) ok(2) by (simp add: bytes)
  obtain u v f where split: "drop ?start file = u @ v" and inv: "framing_inv parse (input_scan input) u f"
    and r: "r = framing_end sha256 (fx_reached_snapshot_end r) f"
    and stop: "v = [] \<and> fx_reached_snapshot_end r
      \<or> u \<noteq> [] \<and> (fx_reached_snapshot_end r \<longleftrightarrow> fi_snapshot_end_offset input \<le> fr_absolute_offset f)
        \<and> fx_scan_offset r = fr_absolute_offset f"
    by (rule read_lines_cases [OF memchr room read, unfolded bytes])
  have absolute: "unat (fr_absolute_offset f) = ?start + length u"
    using inv by (simp add: framing_inv_def Let_def input_scan_def)
  have total: "length file = ?start + length u + length v"
    using arg_cong [OF split, of length] ok(2) by simp
  have end_offset: "unat (fi_snapshot_end_offset input) = length file"
    using ok(3) contents(2) by (simp add: unat_of_nat take_bit_nat_eq_self)
  show "result_value r = scan_value (scan_bytes parse (input_scan input) (drop ?start file))"
    if "fx_reached_snapshot_end r"
  proof -
    have "v = []"
      using stop that absolute total end_offset by (auto simp: word_le_nat_alt)
    then show ?thesis
      using read_lines_value(1) [OF inv r] split by simp
  qed
  assume "\<not> fx_reached_snapshot_end r"
  then have some: "u \<noteq> []" and scan: "unat (fx_scan_offset r) = ?start + length u"
    using stop absolute by auto
  have "drop (unat (fx_scan_offset r) - ?start) (drop ?start file) = drop (unat (fx_scan_offset r)) file"
    by (simp add: scan add.commute)
  then have "scan_value (scan_bytes parse (input_scan input) (drop ?start file))
      = prepend_value r (scan_value (scan_bytes parse (input_scan (next_input (fi_snapshot_end_offset input) r))
          (drop (unat (fx_scan_offset r)) file)))"
    using resume_value(4) [OF inv ok(1) r, of v "fi_snapshot_end_offset input"] unfolding split [symmetric] by simp
  moreover have "?start < unat (fx_scan_offset r)" "unat (fx_scan_offset r) \<le> length file"
    using some scan total by auto
  ultimately show "input_ok (next_input (fi_snapshot_end_offset input) r)
      \<and> ?start < unat (fx_scan_offset r) \<and> unat (fx_scan_offset r) \<le> length file
      \<and> scan_value (scan_bytes parse (input_scan input) (drop ?start file))
        = prepend_value r (scan_value (scan_bytes parse (input_scan (next_input (fi_snapshot_end_offset input) r))
            (drop (unat (fx_scan_offset r)) file)))"
    using resume_value(1) [OF inv ok(1) r] by blast
qed

text \<open>
  C7. A file read in batches is read as if at once.  However the bytes arrive, wherever a batch stops and
  the next one picks up from its checkpoint, lines too large to keep included, the events, the relations, the
  parser state and the committed offset at the end are those of one pass over the complete lines of the
  whole file: no line is lost, repeated or cut, and every event carries the offset of its line.
\<close>

theorem batches_equal_whole:
  assumes "finds_first memchr" "delivers deliver file" "length file < 2 ^ 64" "input_ok input"
    "unat (fi_start_offset input) \<le> length file" "fi_snapshot_end_offset input = word_of_nat (length file)"
    "read_file sha256 memchr alloc parse should_cancel deliver batches input = Some (Inr read)"
  shows "read = scan_value (scan_bytes parse (input_scan input) (drop (unat (fi_start_offset input)) file))"
  using assms(4-7)
proof (induction batches arbitrary: input read)
  case (Suc batches)
  from Suc.prems(4) obtain r where read: "read_lines sha256 memchr alloc parse (should_cancel batches)
      (deliver batches (fi_start_offset input)) input = Inr r"
    by (auto split: sum.splits)
  note step = batch_step [OF assms(1-3) Suc.prems(1-3) read]
  show ?case
  proof (cases "fx_reached_snapshot_end r")
    case True
    then show ?thesis
      using Suc.prems(4) read step(1) by simp
  next
    case False
    then obtain rest where rest: "read_file sha256 memchr alloc parse should_cancel deliver batches
        (next_input (fi_snapshot_end_offset input) r) = Some (Inr rest)" and all: "read = prepend_value r rest"
      using Suc.prems(4) read by (auto simp del: map_option_eq_Some simp: map_batch_iff)
    have "rest = scan_value (scan_bytes parse (input_scan (next_input (fi_snapshot_end_offset input) r))
        (drop (unat (fi_start_offset (next_input (fi_snapshot_end_offset input) r))) file))"
      using step(2) False Suc.prems(3) by (intro Suc.IH rest) (simp_all add: next_input_def)
    then show ?thesis
      using step(2) False all by (simp add: next_input_def)
  qed
qed simp

lemma extend_line_succeeds:
  assumes "\<forall>n. alloc n"
  shows "\<exists>big f'. extend_line alloc newline len available f = Inr (big, f')"
proof -
  have "reserve_line alloc line n = Inr ()" for line n
    using assms by (simp add: reserve_line_def)
  then show ?thesis
    by (auto simp: extend_line_def Let_def)
qed

lemma frame_loop_succeeds:
  assumes "\<forall>t. \<not> should_cancel t" "\<forall>n. alloc n" "\<forall>d \<in> set source. \<not> isl d"
  shows "\<exists>result. frame_loop memchr alloc parse should_cancel limit snapshot_end turn source f = Inr result"
  using assms(3)
proof (induction "source_size source" arbitrary: source turn f rule: less_induct)
  case less
  obtain available where fill: "fill_buf source = Inr available"
    using less.prems by (cases "fill_buf source"; cases source) auto
  define newline where "newline = memchr 10 available"
  obtain big f1 where ext: "extend_line alloc newline (case newline of Some n \<Rightarrow> n | None \<Rightarrow> length available)
      available f = Inr (big, f1)"
    using extend_line_succeeds [OF assms(2)] by blast
  have kept: "\<forall>d \<in> set (consume n source). \<not> isl d" for n
    using less.prems by (cases "(n, source)" rule: consume.cases) auto
  show ?case
  proof (cases "available = []")
    case False
    have "\<exists>result. frame_loop memchr alloc parse should_cancel limit snapshot_end (Suc turn)
        (consume (consumed_len newline available) source) g = Inr result" for g
      by (rule less.hyps [OF consume_smaller [OF fill False] kept])
    then show ?thesis
      using assms(1) fill ext False
      by (auto simp: frame_loop.simps [of memchr alloc parse should_cancel limit snapshot_end turn source f]
          Let_def newline_def [symmetric])
  qed (use assms(1) fill in \<open>auto simp: frame_loop.simps [of memchr alloc parse should_cancel limit snapshot_end turn source f]\<close>)
qed

lemma read_lines_succeeds:
  assumes "\<forall>t. \<not> should_cancel t" "\<forall>n. alloc n" "\<forall>d \<in> set source. \<not> isl d"
  shows "\<exists>r. read_lines sha256 memchr alloc parse should_cancel source input = Inr r"
proof -
  define limit where "limit = (if fi_discarding_oversized_line input then MAX_BATCH_COMPLETE_BYTES
    else u64_of_usize (MAX_LINE_BYTES + READ_BUFFER_BYTES))"
  obtain result where "frame_loop memchr alloc parse should_cancel limit (fi_snapshot_end_offset input) 0 source
      (framing_start input) = Inr result"
    using frame_loop_succeeds [OF assms] by blast
  then show ?thesis
    by (cases result) (simp add: read_lines_def Let_def limit_def)
qed

lemma read_file_total:
  assumes "finds_first memchr" "delivers deliver file" "length file < 2 ^ 64" "input_ok input"
    "unat (fi_start_offset input) \<le> length file" "fi_snapshot_end_offset input = word_of_nat (length file)"
    "length file - unat (fi_start_offset input) < batches"
    "\<forall>b t. \<not> should_cancel b t" "\<forall>n. alloc n" "\<forall>b offset. \<forall>d \<in> set (deliver b offset). \<not> isl d"
  shows "\<exists>result. read_file sha256 memchr alloc parse should_cancel deliver batches input = Some (Inr result)"
  using assms(4-7)
proof (induction batches arbitrary: input)
  case (Suc batches)
  obtain r where read: "read_lines sha256 memchr alloc parse (should_cancel batches)
      (deliver batches (fi_start_offset input)) input = Inr r"
    using read_lines_succeeds [of "should_cancel batches" alloc "deliver batches (fi_start_offset input)"]
      assms(8-10) by blast
  note step = batch_step(2) [OF assms(1-3) Suc.prems(1-3) read]
  show ?case
  proof (cases "fx_reached_snapshot_end r")
    case False
    with step Suc.prems(3,4) have "\<exists>result. read_file sha256 memchr alloc parse should_cancel deliver batches
        (next_input (fi_snapshot_end_offset input) r) = Some (Inr result)"
      by (intro Suc.IH) (auto simp: next_input_def)
    then obtain rest where "read_file sha256 memchr alloc parse should_cancel deliver batches
        (next_input (fi_snapshot_end_offset input) r) = Some (Inr rest)"
      by blast
    with False read show ?thesis
      by (simp del: split_paired_Ex)
  qed (use read in \<open>simp del: split_paired_Ex\<close>)
qed simp

text \<open>
  C27. Reading a file ends: without a cancellation, a failed read or a failed allocation, every batch
  succeeds and either reaches the end of the file or moves on, so that no more batches than the file has
  bytes left, and one, are needed.
\<close>

theorem read_file_ends:
  assumes "finds_first memchr" "delivers deliver file" "length file < 2 ^ 64" "input_ok input"
    "unat (fi_start_offset input) \<le> length file" "fi_snapshot_end_offset input = word_of_nat (length file)"
    "length file - unat (fi_start_offset input) < batches"
    "\<forall>b t. \<not> should_cancel b t" "\<forall>n. alloc n" "\<forall>b offset. \<forall>d \<in> set (deliver b offset). \<not> isl d"
  shows "\<exists>result. read_file sha256 memchr alloc parse should_cancel deliver batches input = Some (Inr result)"
  by (rule read_file_total [OF assms])

section \<open>An example\<close>

definition first_index :: byte_search where
  "first_index b xs = (if b \<in> set xs then Some (length (takeWhile (\<lambda>x. x \<noteq> b) xs)) else None)"

definition byte_by_byte :: "u8 list \<Rightarrow> nat \<Rightarrow> u64 \<Rightarrow> buf_source" where
  "byte_by_byte file batch offset = map (\<lambda>b. Inr [b]) (drop (unat offset) file)"

text \<open>A parser that remembers every line it is given, with its offset.\<close>

definition noting_parser :: "(u64 \<times> u8 list) list line_parser" where
  "noting_parser state offset line = (Parse_Skipped, state @ [(offset, line)], id)"

definition sample_file :: "u8 list" where
  "sample_file = [104, 105, 13, 10, 10, 111, 107, 10, 116]"

definition sample_input :: "(u64 \<times> u8 list) list framing_input" where
  "sample_input = \<lparr> fi_start_offset = 0, fi_committed_offset = 0, fi_state = [], fi_snapshot_end_offset = 9,
     fi_discarding_oversized_line = False \<rparr>"

lemma finds_first_index: "finds_first first_index"
  by (simp add: finds_first_def first_index_def)

lemma source_bytes_single: "source_bytes (map (\<lambda>b. Inr [b]) xs) = xs"
  by (induction xs) simp_all

lemma delivers_byte_by_byte: "delivers (byte_by_byte file) file"
  by (simp add: delivers_def byte_by_byte_def source_bytes_single)

lemma sample_scan:
  "scan_value (scan_bytes noting_parser (input_scan sample_input) sample_file)
   = ([(0, [104, 105]), (5, [111, 107])], 8, [], [])"
  by (simp add: scan_bytes_def split_lines_def split_step_def sample_file_def scan_line_def noting_parser_def
      sample_input_def input_scan_def line_text_def MAX_LINE_BYTES_def outcome_events_def outcome_relations_def
      scan_value_def)

lemma sample_read:
  "\<exists>read. read_file sha256 first_index (\<lambda>_. True) parse (\<lambda>_ _. False) (byte_by_byte sample_file) 10 sample_input
     = Some (Inr read)"
  by (rule read_file_total [OF finds_first_index delivers_byte_by_byte])
    (simp_all add: sample_file_def sample_input_def input_ok_def byte_by_byte_def)

theorem batches_equal_whole_witness:
  "read_file id first_index (\<lambda>_. True) noting_parser (\<lambda>_ _. False) (byte_by_byte sample_file) 10 sample_input
     = Some (Inr ([(0, [104, 105]), (5, [111, 107])], 8, [], []))"
proof -
  obtain read where read: "read_file id first_index (\<lambda>_. True) noting_parser (\<lambda>_ _. False)
      (byte_by_byte sample_file) 10 sample_input = Some (Inr read)"
    using sample_read by blast
  have "read = scan_value (scan_bytes noting_parser (input_scan sample_input)
      (drop (unat (fi_start_offset sample_input)) sample_file))"
    by (rule batches_equal_whole [OF finds_first_index delivers_byte_by_byte _ _ _ _ read])
      (simp_all add: sample_file_def sample_input_def input_ok_def)
  with read sample_scan show ?thesis
    by (simp add: sample_input_def)
qed

theorem read_file_ends_witness:
  "\<exists>result. read_file id first_index (\<lambda>_. True) noting_parser (\<lambda>_ _. False) (byte_by_byte sample_file) 10
     sample_input = Some (Inr result)"
  by (rule read_file_ends [OF finds_first_index delivers_byte_by_byte])
    (simp_all add: sample_file_def sample_input_def input_ok_def byte_by_byte_def)

theorem read_lines_exact_witness:
  "\<exists>r u v. read_lines id first_index (\<lambda>_. True) noting_parser (\<lambda>_. False) (byte_by_byte sample_file 0 0) sample_input = Inr r
     \<and> sample_file = u @ v \<and> fx_consumed_sha256 r = u
     \<and> result_value r = scan_value (scan_bytes noting_parser (input_scan sample_input) u)"
proof -
  have plain: "\<forall>d \<in> set (byte_by_byte sample_file 0 0). \<not> isl d"
    by (simp add: byte_by_byte_def)
  obtain r where r: "read_lines id first_index (\<lambda>_. True) noting_parser (\<lambda>_. False)
      (byte_by_byte sample_file 0 0) sample_input = Inr r"
    using read_lines_succeeds [of "\<lambda>_. False" "\<lambda>_. True", OF _ _ plain] by blast
  have bytes: "source_bytes (byte_by_byte sample_file 0 0) = sample_file"
    by (simp add: byte_by_byte_def source_bytes_single)
  have "\<exists>u v. source_bytes (byte_by_byte sample_file 0 0) = u @ v \<and> fx_consumed_sha256 r = id u
    \<and> unat (fx_bytes_read r) = length u
    \<and> result_value r = scan_value (scan_bytes noting_parser (input_scan sample_input) u)
    \<and> unat (rd_max_line_bytes_retained (fx_diagnostics r)) \<le> MAX_LINE_BYTES
    \<and> (v \<noteq> [] \<longrightarrow> u \<noteq> [] \<and> unat (fx_scan_offset r) = unat (fi_start_offset sample_input) + length u)"
    by (rule read_lines_exact [OF finds_first_index _ r]) (simp add: bytes, simp add: sample_file_def sample_input_def)
  then obtain u v where "sample_file = u @ v" "fx_consumed_sha256 r = u"
    "result_value r = scan_value (scan_bytes noting_parser (input_scan sample_input) u)"
    unfolding bytes by (metis id_apply)
  with r show ?thesis
    by blast
qed

end
