(* ===== verification/FramingResume.thy ===== *)
theory FramingResume
  imports FramingBatches
begin

text \<open>
  Reading a file in batches with the parser's state stored between them, as \<open>read_source_batch_with_cache\<close> of
  \<open>crates/codex/src/reader/mod.rs\<close> does: the checkpoint keeps a snapshot of the state, the next batch resumes
  from it.  The locale says what a parser must promise for that not to show.
\<close>

text \<open>
  The caller's loop over an unchanging file, with what resuming makes of the state after each batch.
\<close>

fun read_resumed :: "(u8 list \<Rightarrow> u8 list) \<Rightarrow> byte_search \<Rightarrow> (nat \<Rightarrow> bool) \<Rightarrow> 'st line_parser \<Rightarrow> ('st \<Rightarrow> 'e + 'st)
    \<Rightarrow> (nat \<Rightarrow> nat \<Rightarrow> bool) \<Rightarrow> (nat \<Rightarrow> u64 \<Rightarrow> buf_source) \<Rightarrow> nat \<Rightarrow> 'st framing_input
    \<Rightarrow> (reader_error + ('st \<times> u64 \<times> observation_draft list \<times> session_relation_draft list)) option" where
  "read_resumed sha256 memchr alloc parse resume should_cancel deliver 0 input = None"
| "read_resumed sha256 memchr alloc parse resume should_cancel deliver (Suc batches) input =
     (case read_lines sha256 memchr alloc parse (should_cancel batches)
             (deliver batches (fi_start_offset input)) input of
        Inl error \<Rightarrow> Some (Inl error)
      | Inr r \<Rightarrow>
          if fx_reached_snapshot_end r then Some (Inr (result_value r))
          else case resume (fx_state r) of
            Inl _ \<Rightarrow> Some (Inl (reader_error_new Reader_ResumeInvalid))
          | Inr state \<Rightarrow> map_option (map_sum id (prepend_value r))
              (read_resumed sha256 memchr alloc parse resume should_cancel deliver batches
                 (next_input (fi_snapshot_end_offset input) r \<lparr> fi_state := state \<rparr>)))"

lemma batch_state:
  assumes memchr: "finds_first memchr" and contents: "delivers deliver file" "length file < 2 ^ 64"
    and start: "unat (fi_start_offset input) \<le> length file"
    and read: "read_lines sha256 memchr alloc parse cancel (deliver n (fi_start_offset input)) input = Inr r"
    and more: "\<not> fx_reached_snapshot_end r"
  shows "\<exists>u. fx_state r = sc_state (scan_bytes parse (input_scan input) u)
    \<and> unat (fx_scan_offset r) = unat (fi_start_offset input) + length u"
proof -
  let ?start = "unat (fi_start_offset input)"
  have bytes: "source_bytes (deliver n (fi_start_offset input)) = drop ?start file"
    using contents(1) by (simp add: delivers_def)
  have room: "?start + length (source_bytes (deliver n (fi_start_offset input))) < 2 ^ 64"
    using contents(2) start by (simp add: bytes)
  obtain u v f where "source_bytes (deliver n (fi_start_offset input)) = u @ v"
    "framing_inv parse (input_scan input) u f" "r = framing_end sha256 (fx_reached_snapshot_end r) f"
    "v = [] \<and> fx_reached_snapshot_end r
      \<or> u \<noteq> [] \<and> (fx_reached_snapshot_end r \<longleftrightarrow> fi_snapshot_end_offset input \<le> fr_absolute_offset f)
        \<and> fx_scan_offset r = fr_absolute_offset f"
    by (rule read_lines_cases [OF memchr room read])
  with more show ?thesis
    using read_lines_value(1) [of parse input u f r sha256]
    by (intro exI [of _ u]) (auto simp: framing_inv_def Let_def input_scan_def result_value_def scan_value_def)
qed

text \<open>Scans and values that differ only in what is forgotten of the state.\<close>

definition alike :: "('st \<Rightarrow> 'st) \<Rightarrow> 'st scan \<Rightarrow> 'st scan \<Rightarrow> bool" where
  "alike forget a b \<longleftrightarrow> b = a \<lparr> sc_state := sc_state b \<rparr> \<and> forget (sc_state a) = forget (sc_state b)"

definition forget_value :: "('st \<Rightarrow> 'st) \<Rightarrow> 'st \<times> 'b \<Rightarrow> 'st \<times> 'b" where
  "forget_value forget v = (forget (fst v), snd v)"

locale resumable_parser =
  fixes parse :: "'st line_parser"
    and resume :: "'st \<Rightarrow> 'e + 'st"
    and forget :: "'st \<Rightarrow> 'st"
    and ok :: "nat \<Rightarrow> 'st \<Rightarrow> bool"
  assumes ok_weaken: "ok n s \<Longrightarrow> m \<le> n \<Longrightarrow> ok m s"
    and parse_ok: "ok (Suc n) s \<Longrightarrow> ok n (fst (snd (parse s offset line)))"
    and parse_forget: "forget s = forget t \<Longrightarrow> fst (parse s offset line) = fst (parse t offset line)
      \<and> forget (fst (snd (parse s offset line))) = forget (fst (snd (parse t offset line)))"
    and resume_ok: "ok n s \<Longrightarrow> resume s = Inr (forget s)"
    and forget_ok: "ok n s \<Longrightarrow> ok n (forget s)"
    and forget_forget: "forget (forget s) = forget s"
begin

lemma scan_line_alike:
  assumes "alike forget a b"
  shows "alike forget (scan_line parse a l) (scan_line parse b l)"
proof -
  obtain t where b: "b = a \<lparr> sc_state := t \<rparr>" and t: "forget (sc_state a) = forget t"
    using assms by (auto simp: alike_def)
  from parse_forget [OF t, of "sc_committed a" "line_text l"] t show ?thesis
    by (cases a) (simp add: alike_def b scan_line_def Let_def split_def)
qed

lemma scan_bytes_alike: "alike forget a b \<Longrightarrow> alike forget (scan_bytes parse a w) (scan_bytes parse b w)"
proof -
  have "alike forget a b \<Longrightarrow> alike forget (foldl (scan_line parse) a ls) (foldl (scan_line parse) b ls)" for ls
    by (induction ls arbitrary: a b) (simp_all add: scan_line_alike)
  then show "alike forget a b \<Longrightarrow> alike forget (scan_bytes parse a w) (scan_bytes parse b w)"
    by (simp add: scan_bytes_def)
qed

lemma scan_line_ok: "ok (Suc n) (sc_state s) \<Longrightarrow> ok n (sc_state (scan_line parse s l))"
  using parse_ok ok_weaken [of "Suc n" _ n] by (auto simp: scan_line_def Let_def split_def)

lemma scan_bytes_ok:
  assumes "ok (length w + n) (sc_state s)"
  shows "ok n (sc_state (scan_bytes parse s w))"
proof -
  obtain ls tail where split: "split_lines w = (ls, tail)"
    by fastforce
  have "length ls \<le> (\<Sum>l \<leftarrow> ls. length l + 1)"
    by (induction ls) simp_all
  then have "length ls + n \<le> length w + n"
    using split_lines_length [OF split] by simp
  then have "ok (length ls + n) (sc_state s)"
    using assms ok_weaken by blast
  then have "ok n (sc_state (foldl (scan_line parse) s ls))"
  proof (induction ls arbitrary: s)
    case (Cons l ls)
    then show ?case
      using scan_line_ok [of "length ls + n" s l] by simp
  qed simp
  then show ?thesis
    by (simp add: scan_bytes_def split)
qed

lemma alike_value: "alike forget a b \<Longrightarrow> forget_value forget (scan_value a) = forget_value forget (scan_value b)"
  by (cases a; cases b) (auto simp: alike_def forget_value_def scan_value_def)

lemma forget_value_prepend: "forget_value forget v = forget_value forget w \<Longrightarrow>
    forget_value forget (prepend_value r v) = forget_value forget (prepend_value r w)"
  by (auto simp: forget_value_def prepend_value_def split_def)

text \<open>Resuming does not show: the file is read to its end, and as if at once.\<close>

lemma read_resumed_whole:
  assumes memchr: "finds_first memchr" and contents: "delivers deliver file" "length file < 2 ^ 64"
    and input: "input_ok input" "unat (fi_start_offset input) \<le> length file"
      "fi_snapshot_end_offset input = word_of_nat (length file)"
      "ok (length file - unat (fi_start_offset input)) (fi_state input)"
      "length file - unat (fi_start_offset input) < batches"
    and calm: "\<forall>b t. \<not> should_cancel b t" "\<forall>n. alloc n" "\<forall>b offset. \<forall>d \<in> set (deliver b offset). \<not> isl d"
  shows "\<exists>v. read_resumed sha256 memchr alloc parse resume should_cancel deliver batches input = Some (Inr v)
    \<and> forget_value forget v
      = forget_value forget (scan_value (scan_bytes parse (input_scan input) (drop (unat (fi_start_offset input)) file)))"
  using input
proof (induction batches arbitrary: input)
  case (Suc batches)
  obtain r where read: "read_lines sha256 memchr alloc parse (should_cancel batches)
      (deliver batches (fi_start_offset input)) input = Inr r"
    using read_lines_succeeds [of "should_cancel batches" alloc "deliver batches (fi_start_offset input)"] calm by blast
  note step = batch_step [OF memchr contents Suc.prems(1-3) read]
  show ?case
  proof (cases "fx_reached_snapshot_end r")
    case True
    with read step(1) show ?thesis
      by (intro exI [of _ "result_value r"]) simp
  next
    case False
    let ?next = "next_input (fi_snapshot_end_offset input) r"
    let ?resumed = "?next \<lparr> fi_state := forget (fx_state r) \<rparr>"
    obtain u where u: "fx_state r = sc_state (scan_bytes parse (input_scan input) u)"
      "unat (fx_scan_offset r) = unat (fi_start_offset input) + length u"
      using batch_state [OF memchr contents Suc.prems(2) read False] by blast
    have left: "length file - unat (fi_start_offset input) = length u + (length file - unat (fx_scan_offset r))"
      using u(2) step(2) [OF False] by simp
    have ok: "ok (length file - unat (fx_scan_offset r)) (fx_state r)"
      unfolding u(1) using Suc.prems(4) by (intro scan_bytes_ok) (simp add: left input_scan_def)
    have "\<exists>v. read_resumed sha256 memchr alloc parse resume should_cancel deliver batches ?resumed = Some (Inr v)
      \<and> forget_value forget v = forget_value forget (scan_value (scan_bytes parse (input_scan ?resumed)
          (drop (unat (fi_start_offset ?resumed)) file)))"
      using step(2) [OF False] Suc.prems(3,5) forget_ok [OF ok] left
      by (intro Suc.IH) (auto simp: next_input_def input_ok_def)
    then obtain v where v: "read_resumed sha256 memchr alloc parse resume should_cancel deliver batches ?resumed = Some (Inr v)"
      and vv: "forget_value forget v = forget_value forget (scan_value (scan_bytes parse (input_scan ?resumed) (drop (unat (fx_scan_offset r)) file)))"
      by (auto simp: next_input_def)
    have "alike forget (input_scan ?resumed) (input_scan ?next)"
      by (simp add: alike_def input_scan_def next_input_def forget_forget)
    from alike_value [OF scan_bytes_alike [OF this]] vv
    have "forget_value forget v = forget_value forget (scan_value (scan_bytes parse (input_scan ?next) (drop (unat (fx_scan_offset r)) file)))"
      by simp
    from forget_value_prepend [OF this, of r] step(2) [OF False]
    have "forget_value forget (prepend_value r v)
        = forget_value forget (scan_value (scan_bytes parse (input_scan input) (drop (unat (fi_start_offset input)) file)))"
      by simp
    with read False v resume_ok [OF ok] show ?thesis
      by (intro exI [of _ "prepend_value r v"]) simp
  qed
qed simp

end

end
