(* ===== verification/Accounting.thy ===== *)
theory Accounting
  imports Encoding Usage
begin

text \<open>
  The accounting crate without its replay classifier: \<open>crates/accounting/src/event.rs\<close>,
  \<open>hash.rs\<close> and \<open>lib.rs\<close>.  An observation draft becomes a canonical usage event with a
  content-derived fingerprint and a replay signature.

  SHA-256 comes from the \<open>sha2\<close> crate and is the parameter \<open>sha256\<close>.  A hasher is the
  list of the bytes it has received, so \<open>hasher.update\<close> appends and \<open>finalize\<close> applies
  the parameter.
\<close>

section \<open>Versions and identities\<close>

definition CANONICALIZER_VERSION :: u16 where "CANONICALIZER_VERSION = 1"
definition EVENT_FINGERPRINT_VERSION :: u16 where "EVENT_FINGERPRINT_VERSION = 2"
definition REPLAY_SIGNATURE_VERSION :: u16 where "REPLAY_SIGNATURE_VERSION = 1"

type_synonym hash_fun = "u8 list \<Rightarrow> u8 list"

datatype replay_evidence = StrongCumulative | WeakUsageOnly

record usage_lineage =
  lin_parent_session_id :: "usage_session_id option"
  lin_session_ordinal :: u64
  lin_signature :: digest
  lin_evidence :: replay_evidence
  lin_declared_conflict :: bool

record canonical_usage_event =
  ev_draft :: observation_draft
  ev_fingerprint :: digest
  ev_id :: string
  ev_lineage :: usage_lineage

section \<open>Hexadecimal rendering\<close>

definition HEX :: string where "HEX = ''0123456789abcdef''"

definition append_hex :: "string \<Rightarrow> u8 list \<Rightarrow> string" where
  "append_hex out bytes =
     foldl (\<lambda>out b. (out @ [HEX ! (unat b div 16)]) @ [HEX ! (unat b mod 16)]) out bytes"

definition bytes_to_hex :: "u8 list \<Rightarrow> string" where
  "bytes_to_hex bytes = append_hex [] bytes"

definition event_id_from_fingerprint :: "digest \<Rightarrow> string" where
  "event_id_from_fingerprint f = append_hex ''event_'' (take 10 f)"

section \<open>Hashing\<close>

definition EVENT_FINGERPRINT_DOMAIN :: "u8 list" where
  "EVENT_FINGERPRINT_DOMAIN = bytes_of ''tokenmaster.event-fingerprint.v2'' @ [0]"

definition REPLAY_SIGNATURE_DOMAIN :: "u8 list" where
  "REPLAY_SIGNATURE_DOMAIN = bytes_of ''tokenmaster.replay-signature.v1'' @ [0]"

definition update_count :: "u8 list \<Rightarrow> token_count \<Rightarrow> u8 list" where
  "update_count hasher c =
     (case c of Available v \<Rightarrow> (hasher @ [1]) @ be_bytes v | Unavailable \<Rightarrow> hasher @ [0])"

definition update_usage :: "u8 list \<Rightarrow> token_usage \<Rightarrow> u8 list" where
  "update_usage hasher usage =
     foldl update_count hasher
       [tu_input usage, tu_cached usage, tu_output usage, tu_reasoning usage, tu_total usage]"

definition update_text :: "u8 list \<Rightarrow> string \<Rightarrow> u8 list" where
  "update_text hasher v =
     (let len = (if length v < 2 ^ 32 then word_of_nat (length v) else - 1 :: u32)
      in (hasher @ be_bytes len) @ bytes_of v)"

definition event_fingerprint_message :: "observation_draft \<Rightarrow> u8 list" where
  "event_fingerprint_message draft =
     (let hasher = EVENT_FINGERPRINT_DOMAIN;
          hasher = update_text hasher (obs_provider_id draft);
          hasher = update_text hasher (obs_profile_id draft);
          hasher = update_text hasher (obs_session_id draft);
          hasher = hasher @ be_bytes (obs_session_ordinal draft);
          hasher = update_text hasher (obs_model draft)
      in update_usage hasher (obs_delta_usage draft))"

definition event_fingerprint :: "hash_fun \<Rightarrow> observation_draft \<Rightarrow> digest" where
  "event_fingerprint sha256 draft = sha256 (event_fingerprint_message draft)"

definition replay_signature_message :: "observation_draft \<Rightarrow> u8 list" where
  "replay_signature_message draft =
     (let hasher = REPLAY_SIGNATURE_DOMAIN;
          hasher = update_text hasher (obs_model draft);
          hasher = update_usage hasher (obs_delta_usage draft)
      in case obs_cumulative_usage draft of
           Some cumulative \<Rightarrow> update_usage (hasher @ [1]) cumulative
         | None \<Rightarrow> hasher @ [0])"

definition replay_signature :: "hash_fun \<Rightarrow> observation_draft \<Rightarrow> digest" where
  "replay_signature sha256 draft = sha256 (replay_signature_message draft)"

section \<open>Canonicalisation\<close>

datatype canonicalization_error = EmptyUsage | InconsistentCumulative | ValueOutOfRange

definition usage_counts :: "token_usage \<Rightarrow> token_count list" where
  "usage_counts u = [tu_input u, tu_cached u, tu_output u, tu_reasoning u, tu_total u]"

definition usage_is_positive :: "token_usage \<Rightarrow> bool" where
  "usage_is_positive u =
     list_ex (\<lambda>c. case c of Available v \<Rightarrow> 0 < v | Unavailable \<Rightarrow> False) (usage_counts u)"

definition cumulative_covers_delta :: "token_usage \<Rightarrow> token_usage \<Rightarrow> bool" where
  "cumulative_covers_delta delta cumulative =
     list_all (\<lambda>(d, c). case (d, c) of (Available d, Available c) \<Rightarrow> d \<le> c | _ \<Rightarrow> True)
       (zip (usage_counts delta) (usage_counts cumulative))"

definition canonical_usage_event_from_draft ::
  "observation_draft \<Rightarrow> digest \<Rightarrow> digest \<Rightarrow> replay_evidence
    \<Rightarrow> canonical_usage_event" where
  "canonical_usage_event_from_draft draft fingerprint signature evidence =
     \<lparr>ev_draft = draft, ev_fingerprint = fingerprint,
      ev_id = event_id_from_fingerprint fingerprint,
      ev_lineage =
        \<lparr>lin_parent_session_id = obs_parent_session_id draft,
         lin_session_ordinal = obs_session_ordinal draft,
         lin_signature = signature, lin_evidence = evidence,
         lin_declared_conflict = obs_lineage_conflict draft\<rparr>\<rparr>"

definition canonicalize ::
  "hash_fun \<Rightarrow> observation_draft \<Rightarrow> canonicalization_error + canonical_usage_event" where
  "canonicalize sha256 draft =
     (if i64_max_u64 < obs_session_ordinal draft \<or> i64_max_u64 < obs_source_offset draft
      then Inl ValueOutOfRange
      else if \<not> usage_is_positive (obs_delta_usage draft) then Inl EmptyUsage
      else if is_some_and (\<lambda>cumulative. \<not> cumulative_covers_delta (obs_delta_usage draft) cumulative)
                (obs_cumulative_usage draft)
      then Inl InconsistentCumulative
      else Inr (canonical_usage_event_from_draft draft
                  (event_fingerprint sha256 draft) (replay_signature sha256 draft)
                  (case map_option tu_total (obs_cumulative_usage draft) of
                     Some (Available _) \<Rightarrow> StrongCumulative
                   | Some Unavailable \<Rightarrow> WeakUsageOnly
                   | None \<Rightarrow> WeakUsageOnly)))"

section \<open>The hashed messages are self-delimiting\<close>

lemma update_count_append: "update_count h c = h @ update_count [] c"
  by (cases c) (simp_all add: update_count_def)

lemma foldl_update_count: "foldl update_count h cs = h @ concat (map (update_count []) cs)"
  by (induction cs arbitrary: h) (simp, metis append_assoc concat.simps(2) foldl_Cons list.simps(9) update_count_append)

lemma update_usage_append:
  "update_usage h u = h @ concat (map (update_count []) (usage_counts u))"
  by (simp add: update_usage_def usage_counts_def foldl_update_count del: foldl_Cons)

lemma update_text_append: "update_text h s = h @ update_text [] s"
  by (simp add: update_text_def Let_def)

definition text_ok :: "string \<Rightarrow> bool" where
  "text_ok s \<longleftrightarrow> length s < 2 ^ 32"

lemma update_count_cut:
  assumes "update_count [] c @ r = update_count [] d @ s"
  shows "c = d \<and> r = s"
proof (cases "c = Unavailable \<or> d = Unavailable")
  case True
  with assms show ?thesis by (cases c; cases d) (simp_all add: update_count_def)
next
  case False
  then obtain v w where cd: "c = Available v" "d = Available w" by (cases c; cases d) simp_all
  with assms have "be_bytes v @ r = be_bytes w @ s" by (simp add: update_count_def)
  from be64.cut [OF TrueI TrueI this] show ?thesis by (simp add: cd)
qed

lemma update_text_cut:
  assumes "text_ok x" "text_ok y" "update_text [] x @ r = update_text [] y @ s"
  shows "x = y \<and> r = s"
proof -
  have eq: "be_bytes (word_of_nat (length x) :: u32) @ (bytes_of x @ r) =
            be_bytes (word_of_nat (length y) :: u32) @ (bytes_of y @ s)"
    using assms by (simp add: update_text_def text_ok_def)
  then have "(word_of_nat (length x) :: u32) = word_of_nat (length y)" and
    rest: "bytes_of x @ r = bytes_of y @ s"
    using be32.cut [OF TrueI TrueI eq] by simp_all
  then have "unat (word_of_nat (length x) :: u32) = unat (word_of_nat (length y) :: u32)" by simp
  then have "length (bytes_of x) = length (bytes_of y)"
    using assms(1,2) by (simp add: text_ok_def unat_of_nat take_bit_nat_eq_self_iff)
  with rest show ?thesis by simp
qed

interpretation count_code: prefix_code "update_count []" "\<lambda>_. True"
  by unfold_locales (rule update_count_cut)

interpretation text_code: prefix_code "update_text []" text_ok
  by unfold_locales (rule update_text_cut)

interpretation counts_code:
  prefix_code "\<lambda>cs. concat (map (update_count []) cs)" "\<lambda>cs. length cs = 5"
  by unfold_locales (rule count_code.cut_list, simp_all add: list_all_iff)

text \<open>Provider and profile, session and ordinal, model and counts: then the pairs of these.\<close>

interpretation owner_code: prefix_code_pair "update_text []" text_ok "update_text []" text_ok ..

interpretation position_code:
  prefix_code_pair "update_text []" text_ok "be_bytes :: u64 \<Rightarrow> u8 list" "\<lambda>_. True" ..

interpretation content_code:
  prefix_code_pair "update_text []" text_ok
    "\<lambda>cs. concat (map (update_count []) cs)" "\<lambda>cs. length cs = 5" ..

lemma usage_counts_length [simp]: "length (usage_counts u) = 5"
  by (simp add: usage_counts_def)

lemma draft_text_okD:
  "draft_text_ok d \<Longrightarrow> text_ok (obs_provider_id d) \<and> text_ok (obs_profile_id d) \<and>
     text_ok (obs_session_id d) \<and> text_ok (obs_model d)"
  by (simp add: draft_text_ok_def text_ok_def)

lemma event_fingerprint_message_split:
  "event_fingerprint_message d =
     EVENT_FINGERPRINT_DOMAIN @ update_text [] (obs_provider_id d) @
     update_text [] (obs_profile_id d) @ update_text [] (obs_session_id d) @
     be_bytes (obs_session_ordinal d) @ update_text [] (obs_model d) @
     concat (map (update_count []) (usage_counts (obs_delta_usage d)))"
  unfolding event_fingerprint_message_def Let_def update_usage_append
  by (simp add: update_text_append [of "_ @ _"] update_text_append [of EVENT_FINGERPRINT_DOMAIN])

lemma event_fingerprint_message_eqD:
  assumes "draft_text_ok d" "draft_text_ok d'"
    and eq: "event_fingerprint_message d = event_fingerprint_message d'"
  shows "obs_provider_id d = obs_provider_id d' \<and> obs_profile_id d = obs_profile_id d' \<and>
     obs_session_id d = obs_session_id d' \<and> obs_session_ordinal d = obs_session_ordinal d' \<and>
     obs_model d = obs_model d' \<and>
     usage_counts (obs_delta_usage d) = usage_counts (obs_delta_usage d')"
proof -
  note ok = draft_text_okD [OF assms(1)] draft_text_okD [OF assms(2)]
  note m = eq [unfolded event_fingerprint_message_split same_append_eq]
  note owner = owner_code.cut_pair [OF _ _ _ _ m] 
  from owner ok have o1: "obs_provider_id d = obs_provider_id d'" and
    o2: "obs_profile_id d = obs_profile_id d'" and
    m2: "update_text [] (obs_session_id d) @ be_bytes (obs_session_ordinal d) @
        update_text [] (obs_model d) @ concat (map (update_count []) (usage_counts (obs_delta_usage d))) =
      update_text [] (obs_session_id d') @ be_bytes (obs_session_ordinal d') @
        update_text [] (obs_model d') @ concat (map (update_count []) (usage_counts (obs_delta_usage d')))"
    by blast+
  from position_code.cut_pair [OF _ _ _ _ m2] ok
  have p: "obs_session_id d = obs_session_id d'" "obs_session_ordinal d = obs_session_ordinal d'" and
    m3: "update_text [] (obs_model d) @ concat (map (update_count []) (usage_counts (obs_delta_usage d))) @ [] =
      update_text [] (obs_model d') @ concat (map (update_count []) (usage_counts (obs_delta_usage d'))) @ []"
    by simp_all
  from content_code.cut_pair [OF _ _ _ _ m3] ok o1 o2 p show ?thesis by simp
qed

lemma replay_signature_message_split:
  "replay_signature_message d =
     REPLAY_SIGNATURE_DOMAIN @ update_text [] (obs_model d) @
     concat (map (update_count []) (usage_counts (obs_delta_usage d))) @
     (case obs_cumulative_usage d of
        Some c \<Rightarrow> 1 # concat (map (update_count []) (usage_counts c)) | None \<Rightarrow> [0])"
  unfolding replay_signature_message_def Let_def update_usage_append
  by (simp add: update_text_append [of REPLAY_SIGNATURE_DOMAIN] split: option.split)

lemma replay_signature_message_eqD:
  assumes "draft_text_ok d" "draft_text_ok d'"
    and eq: "replay_signature_message d = replay_signature_message d'"
  shows "obs_model d = obs_model d' \<and>
     usage_counts (obs_delta_usage d) = usage_counts (obs_delta_usage d') \<and>
     map_option usage_counts (obs_cumulative_usage d) =
       map_option usage_counts (obs_cumulative_usage d')"
proof -
  note ok = draft_text_okD [OF assms(1)] draft_text_okD [OF assms(2)]
  note m = eq [unfolded replay_signature_message_split same_append_eq]
  from content_code.cut_pair [OF _ _ _ _ m] ok
  have c: "obs_model d = obs_model d'"
    "usage_counts (obs_delta_usage d) = usage_counts (obs_delta_usage d')" and
    tail: "(case obs_cumulative_usage d of
        Some c \<Rightarrow> 1 # concat (map (update_count []) (usage_counts c)) | None \<Rightarrow> [0]) =
      (case obs_cumulative_usage d' of
        Some c \<Rightarrow> 1 # concat (map (update_count []) (usage_counts c)) | None \<Rightarrow> [0])"
    by simp_all
  from tail have "map_option usage_counts (obs_cumulative_usage d) =
      map_option usage_counts (obs_cumulative_usage d')"
    by (cases "obs_cumulative_usage d"; cases "obs_cumulative_usage d'")
      (simp_all add: counts_code.enc_eqD)
  with c show ?thesis by simp
qed

lemma event_fingerprint_message_cong:
  assumes "obs_provider_id d = obs_provider_id d'" "obs_profile_id d = obs_profile_id d'"
    "obs_session_id d = obs_session_id d'" "obs_session_ordinal d = obs_session_ordinal d'"
    "obs_model d = obs_model d'"
    "usage_counts (obs_delta_usage d) = usage_counts (obs_delta_usage d')"
  shows "event_fingerprint_message d = event_fingerprint_message d'"
  unfolding event_fingerprint_message_split by (simp only: assms)

lemma replay_signature_message_cong:
  assumes "obs_model d = obs_model d'"
    "usage_counts (obs_delta_usage d) = usage_counts (obs_delta_usage d')"
    "map_option usage_counts (obs_cumulative_usage d) =
       map_option usage_counts (obs_cumulative_usage d')"
  shows "replay_signature_message d = replay_signature_message d'"
  using assms(3) unfolding replay_signature_message_split
  by (cases "obs_cumulative_usage d"; cases "obs_cumulative_usage d'") (simp_all add: assms(1,2))

section \<open>Hexadecimal identities\<close>

definition hex_pair :: "u8 \<Rightarrow> string" where
  "hex_pair b = [HEX ! (unat b div 16), HEX ! (unat b mod 16)]"

lemma append_hex_append: "append_hex out bytes = out @ concat (map hex_pair bytes)"
  by (induction bytes arbitrary: out) (simp_all add: append_hex_def hex_pair_def)

lemma HEX_distinct: "distinct HEX" and HEX_length: "length HEX = 16"
  by (simp_all add: HEX_def)

lemma hex_pair_inj: "hex_pair a = hex_pair b \<Longrightarrow> a = b"
proof -
  assume eq: "hex_pair a = hex_pair b"
  have "unat a < 256" "unat b < 256" using unat_less_pow [of a] unat_less_pow [of b] by simp_all
  then have "unat a div 16 < 16" "unat b div 16 < 16" by simp_all
  with eq have "unat a div 16 = unat b div 16" "unat a mod 16 = unat b mod 16"
    by (simp_all add: hex_pair_def nth_eq_iff_index_eq [OF HEX_distinct] HEX_length)
  then have "unat a = unat b" by (metis div_mult_mod_eq)
  then show "a = b" by (simp add: word_unat_eq_iff)
qed

lemma hex_pairs_inj: "concat (map hex_pair as) = concat (map hex_pair bs) \<Longrightarrow> as = bs"
proof (induction as arbitrary: bs)
  case Nil
  then show ?case by (cases bs) (simp_all add: hex_pair_def)
next
  case (Cons a as)
  then obtain b bs' where bs: "bs = b # bs'" by (cases bs) (simp_all add: hex_pair_def)
  with Cons.prems have "hex_pair a @ concat (map hex_pair as) = hex_pair b @ concat (map hex_pair bs')"
    by simp
  then have *: "hex_pair a = hex_pair b \<and> concat (map hex_pair as) = concat (map hex_pair bs')"
    by (rule fixed_length_cut [where n = 2, rotated 2]) (simp_all add: hex_pair_def)
  from hex_pair_inj [of a b] Cons.IH [of bs'] * bs show ?case by simp
qed

lemma hex_pairs_length: "length (concat (map hex_pair bs)) = 2 * length bs"
  by (induction bs) (simp_all add: hex_pair_def)

section \<open>Canonicalisation lemmas\<close>

lemma i64_max_u64_less: "i64_max_u64 < w \<longleftrightarrow> 2 ^ 63 \<le> unat w"
  by (simp add: i64_max_u64_def word_less_nat_alt) arith

lemma usage_is_positive_iff:
  "usage_is_positive u \<longleftrightarrow> (\<exists>v. Available v \<in> set (usage_counts u) \<and> 0 < unat v)"
  unfolding usage_is_positive_def list_ex_iff word_less_nat_alt
proof safe
  fix c assume "c \<in> set (usage_counts u)" "case c of Available v \<Rightarrow> unat 0 < unat v | Unavailable \<Rightarrow> False"
  then show "\<exists>v. Available v \<in> set (usage_counts u) \<and> 0 < unat v"
    by (simp split: token_count.splits) blast
next
  fix v assume "Available v \<in> set (usage_counts u)" "0 < unat v"
  then show "\<exists>c\<in>set (usage_counts u). case c of Available v \<Rightarrow> unat 0 < unat v | Unavailable \<Rightarrow> False"
    by (intro bexI [of _ "Available v"]) simp_all
qed

lemma cumulative_covers_delta_iff:
  "cumulative_covers_delta d c \<longleftrightarrow>
     (\<forall>i < 5. \<forall>v w. usage_counts d ! i = Available v \<longrightarrow> usage_counts c ! i = Available w \<longrightarrow>
        unat v \<le> unat w)"
proof -
  have pointwise: "(case d' of Available v \<Rightarrow> (case c' of Available w \<Rightarrow> v \<le> w | Unavailable \<Rightarrow> True)
        | Unavailable \<Rightarrow> True) \<longleftrightarrow>
      (\<forall>v w. d' = Available v \<longrightarrow> c' = Available w \<longrightarrow> unat v \<le> unat w)" for d' c'
    by (cases d'; cases c') (simp_all add: word_le_nat_alt)
  show ?thesis
    unfolding cumulative_covers_delta_def list_all_length
    by (simp add: pointwise)
qed

section \<open>Properties\<close>

text \<open>
  C11. Two drafts get the same event fingerprint exactly when they agree on provider, profile,
  session, ordinal, model and the five counts of the delta.  The length prefixes and tags make
  the hashed message unambiguous, so the only other way to a common fingerprint is a SHA-256
  collision between the two messages, which the hypothesis on the hash excludes.
\<close>

theorem event_fingerprint_identity:
  assumes "draft_text_ok d" and "draft_text_ok d'"
    and collision_free: "inj_on sha256 {event_fingerprint_message d, event_fingerprint_message d'}"
  shows "event_fingerprint sha256 d = event_fingerprint sha256 d' \<longleftrightarrow>
    obs_provider_id d = obs_provider_id d' \<and> obs_profile_id d = obs_profile_id d' \<and>
    obs_session_id d = obs_session_id d' \<and> obs_session_ordinal d = obs_session_ordinal d' \<and>
    obs_model d = obs_model d' \<and>
    usage_counts (obs_delta_usage d) = usage_counts (obs_delta_usage d')" (is "_ \<longleftrightarrow> ?same")
proof
  assume "event_fingerprint sha256 d = event_fingerprint sha256 d'"
  then have "event_fingerprint_message d = event_fingerprint_message d'"
    using collision_free by (simp add: event_fingerprint_def inj_on_eq_iff)
  then show ?same by (rule event_fingerprint_message_eqD [OF assms(1,2)])
next
  assume ?same
  then have "event_fingerprint_message d = event_fingerprint_message d'"
    by (intro event_fingerprint_message_cong) simp_all
  then show "event_fingerprint sha256 d = event_fingerprint sha256 d'"
    by (simp add: event_fingerprint_def)
qed

definition sample_draft :: "string \<Rightarrow> u64 \<Rightarrow> token_usage option \<Rightarrow> observation_draft" where
  "sample_draft session ordinal cumulative =
     \<lparr>obs_provider_id = ''codex'', obs_profile_id = ''default'', obs_session_id = session,
      obs_parent_session_id = None, obs_session_ordinal = ordinal, obs_lineage_conflict = False,
      obs_source_id = ''log'', obs_source_offset = 10,
      obs_source_verification = Verification_Incremental,
      obs_timestamp = \<lparr>unix_seconds = 1000, subsec_nanos = 0\<rparr>, obs_model = ''gpt-5'',
      obs_raw_model = None,
      obs_delta_usage = token_usage_new (Available 5) (Available 2) (Available 3) Unavailable (Available 8),
      obs_cumulative_usage = cumulative, obs_fallback_model = False,
      obs_long_context = LongContext_No, obs_service_tier = None, obs_reported_cost = None,
      obs_project = None, obs_originator = None, obs_activity = activity_default\<rparr>"

lemma sample_draft_text_ok: "length s \<le> 512 \<Longrightarrow> draft_text_ok (sample_draft s n c)"
  by (simp add: sample_draft_def draft_text_ok_def)

theorem event_fingerprint_identity_witness:
  "draft_text_ok (sample_draft ''a'' 1 None) \<and> draft_text_ok (sample_draft ''a'' 2 None) \<and>
   event_fingerprint id (sample_draft ''a'' 1 None) \<noteq>
     event_fingerprint id (sample_draft ''a'' 2 None)"
proof -
  have ok: "draft_text_ok (sample_draft ''a'' 1 None)" "draft_text_ok (sample_draft ''a'' 2 None)"
    by (simp_all add: sample_draft_text_ok)
  have "inj_on id {event_fingerprint_message (sample_draft ''a'' 1 None),
      event_fingerprint_message (sample_draft ''a'' 2 None)}"
    by simp
  from event_fingerprint_identity [OF ok this] ok show ?thesis by (simp add: sample_draft_def)
qed

text \<open>
  Two drafts get the same replay signature exactly when they agree on the model, on the five
  delta counts and on the cumulative counts, present or absent alike, again up to a collision
  of the hash.  Provider, profile, session and ordinal do not enter: this is what lets a forked
  session be compared with its parent.
\<close>

theorem replay_signature_identity:
  assumes "draft_text_ok d" and "draft_text_ok d'"
    and collision_free: "inj_on sha256 {replay_signature_message d, replay_signature_message d'}"
  shows "replay_signature sha256 d = replay_signature sha256 d' \<longleftrightarrow>
    obs_model d = obs_model d' \<and>
    usage_counts (obs_delta_usage d) = usage_counts (obs_delta_usage d') \<and>
    map_option usage_counts (obs_cumulative_usage d) =
      map_option usage_counts (obs_cumulative_usage d')" (is "_ \<longleftrightarrow> ?same")
proof
  assume "replay_signature sha256 d = replay_signature sha256 d'"
  then have "replay_signature_message d = replay_signature_message d'"
    using collision_free by (simp add: replay_signature_def inj_on_eq_iff)
  then show ?same by (rule replay_signature_message_eqD [OF assms(1,2)])
next
  assume ?same
  then have "replay_signature_message d = replay_signature_message d'"
    by (intro replay_signature_message_cong) simp_all
  then show "replay_signature sha256 d = replay_signature sha256 d'"
    by (simp add: replay_signature_def)
qed

theorem replay_signature_identity_witness:
  "draft_text_ok (sample_draft ''a'' 1 None) \<and> draft_text_ok (sample_draft ''b'' 2 None) \<and>
   replay_signature id (sample_draft ''a'' 1 None) = replay_signature id (sample_draft ''b'' 2 None)"
proof -
  have ok: "draft_text_ok (sample_draft ''a'' 1 None)" "draft_text_ok (sample_draft ''b'' 2 None)"
    by (simp_all add: sample_draft_text_ok)
  have "inj_on id {replay_signature_message (sample_draft ''a'' 1 None),
      replay_signature_message (sample_draft ''b'' 2 None)}"
    by simp
  from replay_signature_identity [OF ok this] ok show ?thesis by (simp add: sample_draft_def)
qed

text \<open>
  C31. Canonicalisation succeeds exactly on drafts whose ordinal and offset fit a signed 64-bit
  column, whose delta has a positive count and whose cumulative counts, where known, are not
  below the delta.  The event then carries the draft unchanged, both digests of that draft, an
  identifier that is \<open>event_\<close> followed by two hexadecimal digits for each of the first ten
  fingerprint bytes, and strong evidence exactly when the cumulative total is known.
\<close>

theorem canonicalize_ok_iff:
  "canonicalize sha256 d = Inr ev \<longleftrightarrow>
     unat (obs_session_ordinal d) < 2 ^ 63 \<and> unat (obs_source_offset d) < 2 ^ 63 \<and>
     (\<exists>v. Available v \<in> set (usage_counts (obs_delta_usage d)) \<and> 0 < unat v) \<and>
     (\<forall>c. obs_cumulative_usage d = Some c \<longrightarrow>
        (\<forall>i < 5. \<forall>v w. usage_counts (obs_delta_usage d) ! i = Available v \<longrightarrow>
           usage_counts c ! i = Available w \<longrightarrow> unat v \<le> unat w)) \<and>
     ev_draft ev = d \<and> ev_fingerprint ev = event_fingerprint sha256 d \<and>
     ev_id ev = ''event_'' @ concat (map hex_pair (take 10 (event_fingerprint sha256 d))) \<and>
     ev_lineage ev =
       \<lparr>lin_parent_session_id = obs_parent_session_id d,
        lin_session_ordinal = obs_session_ordinal d,
        lin_signature = replay_signature sha256 d,
        lin_evidence =
          (if \<exists>c v. obs_cumulative_usage d = Some c \<and> tu_total c = Available v
           then StrongCumulative else WeakUsageOnly),
        lin_declared_conflict = obs_lineage_conflict d\<rparr>"
proof -
  have evidence: "(case map_option tu_total (obs_cumulative_usage d) of
        Some (Available _) \<Rightarrow> StrongCumulative | Some Unavailable \<Rightarrow> WeakUsageOnly
      | None \<Rightarrow> WeakUsageOnly) =
      (if \<exists>c v. obs_cumulative_usage d = Some c \<and> tu_total c = Available v
       then StrongCumulative else WeakUsageOnly)"
    by (auto split: option.splits token_count.splits)
  have event: "canonical_usage_event_from_draft d f s e = ev \<longleftrightarrow>
      ev_draft ev = d \<and> ev_fingerprint ev = f \<and>
      ev_id ev = ''event_'' @ concat (map hex_pair (take 10 f)) \<and>
      ev_lineage ev = \<lparr>lin_parent_session_id = obs_parent_session_id d,
        lin_session_ordinal = obs_session_ordinal d, lin_signature = s, lin_evidence = e,
        lin_declared_conflict = obs_lineage_conflict d\<rparr>" for f s e
    by (cases ev) (auto simp: canonical_usage_event_from_draft_def event_id_from_fingerprint_def
        append_hex_append)
  show ?thesis
    unfolding canonicalize_def evidence if_Inr_iff sum.inject event i64_max_u64_less
      usage_is_positive_iff is_some_and_iff cumulative_covers_delta_iff de_Morgan_disj not_le
    by blast
qed

theorem canonicalize_ok_iff_witness:
  "\<exists>ev. canonicalize id (sample_draft ''a'' 1 None) = Inr ev \<and>
     lin_evidence (ev_lineage ev) = WeakUsageOnly"
proof -
  have "\<exists>ev. canonicalize id (sample_draft ''a'' 1 None) = Inr ev"
    by (simp add: canonicalize_def sample_draft_def i64_max_u64_def usage_is_positive_def
        usage_counts_def token_usage_new_def)
  then obtain ev where ev: "canonicalize id (sample_draft ''a'' 1 None) = Inr ev" ..
  moreover from ev [unfolded canonicalize_ok_iff]
  have "lin_evidence (ev_lineage ev) = WeakUsageOnly" by (simp add: sample_draft_def)
  ultimately show ?thesis by blast
qed

end
