(* ===== verification/CodexValues.thy ===== *)
theory CodexValues
  imports Framing Accounting
begin

text \<open>
  The scalar values and wire records of the Codex line parser: \<open>crates/codex/src/parser/value.rs\<close> and
  \<open>wire.rs\<close>, with \<open>push_hex\<close> of \<open>identity.rs\<close>.

  JSON text is decoded by \<open>serde_json\<close> into the records by derived code, which is a parameter of the parser: it
  gives, for every field that is present, what the field's visitor is handed.  The visitors are the
  definitions of this theory.  Calendar arithmetic is the parameter record \<open>chrono\<close>.
  A function that takes the diagnostics returns the codes it records.
\<close>

section \<open>What a visitor is handed\<close>

text \<open>
  A visitor sees a scalar, a sequence or a map.  Of the elements of a map only
  \<open>subagent.thread_spawn.parent_thread_id\<close> is ever looked at.
\<close>

datatype visit =
    Visit_None
  | Visit_Unit
  | Visit_Bool bool
  | Visit_I64 i64
  | Visit_U64 u64
  | Visit_F64
  | Visit_Str unicode
  | Visit_Seq
  | Visit_Map "visit option"

section \<open>Lenient numbers\<close>

datatype lenient_u64 = Lenient_Missing | Lenient_Valid u64 | Lenient_Invalid

definition parse_decimal :: "unicode \<Rightarrow> lenient_u64" where
  "parse_decimal value =
     (let value = str_trim value;
          number = foldl (\<lambda>n c. n * 10 + (c - 48)) 0 value
      in if value = [] \<or> length (utf8 value) > 20 \<or> \<not> list_all (\<lambda>c. 48 \<le> c \<and> c \<le> 57) value then Lenient_Invalid
         else if number < 2 ^ 64 then Lenient_Valid (word_of_nat number)
         else Lenient_Invalid)"

fun visit_lenient_u64 :: "visit \<Rightarrow> lenient_u64" where
  "visit_lenient_u64 (Visit_U64 value) = Lenient_Valid value"
| "visit_lenient_u64 (Visit_I64 value) =
     (if 0 \<le> value \<and> value < 2 ^ 64 then Lenient_Valid (word_of_int value) else Lenient_Invalid)"
| "visit_lenient_u64 (Visit_Str value) = parse_decimal value"
| "visit_lenient_u64 _ = Lenient_Invalid"

fun first_token :: "lenient_u64 list \<Rightarrow> token_count \<times> parser_diagnostic_code list" where
  "first_token [] = (Unavailable, [])"
| "first_token (value # values) = (case value of
     Lenient_Missing \<Rightarrow> first_token values
   | Lenient_Valid value \<Rightarrow> (Available value, [])
   | Lenient_Invalid \<Rightarrow> let (tokens, codes) = first_token values in (tokens, Parser_InvalidToken # codes))"

section \<open>Bounded text\<close>

datatype bounded_text = Text_Missing | Text_Valid unicode | Text_Invalid

fun text_value :: "bounded_text \<Rightarrow> unicode option" where
  "text_value (Text_Valid value) = Some value"
| "text_value _ = None"

definition text_is_invalid :: "bounded_text \<Rightarrow> bool" where
  "text_is_invalid t \<longleftrightarrow> t = Text_Invalid"

definition text_is_missing :: "bounded_text \<Rightarrow> bool" where
  "text_is_missing t \<longleftrightarrow> t = Text_Missing"

definition valid_bounded_text :: "nat \<Rightarrow> unicode \<Rightarrow> bool" where
  "valid_bounded_text max_bytes value \<longleftrightarrow> length (utf8 value) \<le> max_bytes \<and> \<not> list_ex char_is_control value"

definition classify_text :: "nat \<Rightarrow> unicode \<Rightarrow> bounded_text" where
  "classify_text max_bytes value = (if valid_bounded_text max_bytes value then Text_Valid value else Text_Invalid)"

fun visit_bounded_text :: "nat \<Rightarrow> visit \<Rightarrow> bounded_text" where
  "visit_bounded_text max_bytes (Visit_Str value) = classify_text max_bytes value"
| "visit_bounded_text max_bytes _ = Text_Invalid"

definition MAX_RAW_MODEL_BYTES :: nat where "MAX_RAW_MODEL_BYTES = 512"

definition MAX_DISPLAY_BYTES :: nat where "MAX_DISPLAY_BYTES = 4096"

section \<open>Timestamps\<close>

definition MAX_TIMESTAMP_BYTES :: nat where "MAX_TIMESTAMP_BYTES = 64"

datatype timestamp_scalar =
    Stamp_Missing
  | Stamp_Text unicode
  | Stamp_Signed i64
  | Stamp_Unsigned u64
  | Stamp_Invalid

definition valid_timestamp_text :: "unicode \<Rightarrow> bool" where
  "valid_timestamp_text value \<longleftrightarrow>
     value \<noteq> [] \<and> length (utf8 value) \<le> MAX_TIMESTAMP_BYTES \<and> \<not> list_ex char_is_control value"

fun visit_timestamp :: "visit \<Rightarrow> timestamp_scalar" where
  "visit_timestamp (Visit_Str value) = (if valid_timestamp_text value then Stamp_Text value else Stamp_Invalid)"
| "visit_timestamp (Visit_I64 value) = Stamp_Signed value"
| "visit_timestamp (Visit_U64 value) = Stamp_Unsigned value"
| "visit_timestamp _ = Stamp_Invalid"

text \<open>An instant of \<open>chrono\<close> is its Unix seconds and the nanoseconds within the second.\<close>

record chrono =
  ch_parse_from_rfc3339 :: "unicode \<Rightarrow> (i64 \<times> u32) option"
  ch_from_timestamp :: "i64 \<Rightarrow> u32 \<Rightarrow> (i64 \<times> u32) option"
  ch_year :: "i64 \<times> u32 \<Rightarrow> int"

definition normalized_timestamp :: "chrono \<Rightarrow> i64 \<times> u32 \<Rightarrow> utc_timestamp option" where
  "normalized_timestamp chrono value =
     (if ch_year chrono value < 0 \<or> ch_year chrono value > 9999 then None
      else case utc_timestamp_new (fst value) (snd value) of Inr t \<Rightarrow> Some t | Inl _ \<Rightarrow> None)"

definition numeric_timestamp :: "chrono \<Rightarrow> i64 \<Rightarrow> utc_timestamp option" where
  "numeric_timestamp chrono number =
     (let (seconds, nanos) = (if number > 1000000000000
            then (number div 1000, word_of_int (number mod 1000) * 1000000) else (number, 0))
      in Option.bind (ch_from_timestamp chrono seconds nanos) (normalized_timestamp chrono))"

fun timestamp_value :: "chrono \<Rightarrow> timestamp_scalar \<Rightarrow> utc_timestamp option" where
  "timestamp_value chrono (Stamp_Text text) =
     Option.bind (ch_parse_from_rfc3339 chrono text) (normalized_timestamp chrono)"
| "timestamp_value chrono (Stamp_Signed number) = numeric_timestamp chrono number"
| "timestamp_value chrono (Stamp_Unsigned number) =
     (if number \<le> i64_max_u64 then numeric_timestamp chrono (uint number) else None)"
| "timestamp_value chrono _ = None"

section \<open>Models\<close>

text \<open>The raw name is kept as scalar values, since resuming trims and validates it again.\<close>

record resolved_model =
  rm_key :: model_key
  rm_raw :: "unicode option"
  rm_fallback :: bool

definition push_hex :: "string \<Rightarrow> u8 list \<Rightarrow> string" where
  "push_hex output bytes =
     foldl (\<lambda>output b. (output @ [HEX ! unat (drop_bit 4 b)]) @ [HEX ! unat (and b 0x0f)]) output bytes"

definition normalize_explicit_model :: "hash_fun \<Rightarrow> unicode \<Rightarrow> resolved_model option" where
  "normalize_explicit_model sha256 value = (case metadata_value_new value of
     Inl _ \<Rightarrow> None
   | Inr raw \<Rightarrow>
       if length raw > MAX_RAW_MODEL_BYTES then None
       else case model_key_new raw of
         Inr key \<Rightarrow> Some \<lparr> rm_key = key, rm_raw = Some (str_trim value), rm_fallback = False \<rparr>
       | Inl _ \<Rightarrow>
           let digest = sha256 (bytes_of raw); key = push_hex ''unknown_'' (take 16 digest)
           in case model_key_new key of
                Inr key \<Rightarrow> Some \<lparr> rm_key = key, rm_raw = Some (str_trim value), rm_fallback = False \<rparr>
              | Inl _ \<Rightarrow> None)"

definition resolve_model :: "hash_fun \<Rightarrow> unicode option \<Rightarrow> resolved_model option \<Rightarrow> nat
    \<Rightarrow> resolved_model option \<times> parser_diagnostic_code list" where
  "resolve_model sha256 explicit current invalid_aliases =
     (let codes = replicate invalid_aliases Parser_InvalidModel;
          current_or_unknown = (\<lambda>codes. case current of
              Some value \<Rightarrow> (Some value, codes @ (if rm_fallback value then [Parser_ModelFallback] else []))
            | None \<Rightarrow>
                ((case model_key_new ''unknown'' of
                    Inr key \<Rightarrow> Some \<lparr> rm_key = key, rm_raw = None, rm_fallback = True \<rparr>
                  | Inl _ \<Rightarrow> None), codes @ [Parser_ModelFallback]))
      in case explicit of
           Some value \<Rightarrow> (case normalize_explicit_model sha256 value of
               Some resolved \<Rightarrow> (Some resolved, codes)
             | None \<Rightarrow> current_or_unknown (codes @ [Parser_InvalidModel]))
         | None \<Rightarrow> current_or_unknown codes)"

section \<open>Wire records\<close>

text \<open>
  The records of \<open>wire.rs\<close> over the types of their fields: the decoder fills them with what it hands the
  visitors, the visitors make the values the parser reads.
\<close>

record 'n raw_usage =
  ru_input_tokens :: 'n
  ru_prompt_tokens :: 'n
  ru_input :: 'n
  ru_cached_input_tokens :: 'n
  ru_cache_read_input_tokens :: 'n
  ru_cached_tokens :: 'n
  ru_output_tokens :: 'n
  ru_completion_tokens :: 'n
  ru_output :: 'n
  ru_reasoning_output_tokens :: 'n
  ru_reasoning_tokens :: 'n
  ru_total_tokens :: 'n

record ('t, 'n) raw_info =
  ri_last_token_usage :: "'n raw_usage option"
  ri_total_token_usage :: "'n raw_usage option"
  ri_model :: 't
  ri_model_name :: 't

record raw_source =
  rs_display :: bounded_text
  rs_structured_parent_thread_id :: bounded_text

record ('t, 'n, 's) raw_payload =
  ry_kind :: 't
  ry_model :: 't
  ry_model_name :: 't
  ry_model_slug :: 't
  ry_model_id :: 't
  ry_requested_model :: 't
  ry_default_model :: 't
  ry_service_tier :: 't
  ry_model_context_window :: 'n
  ry_name :: 't
  ry_cwd :: 't
  ry_originator :: 't
  ry_source :: 's
  ry_session_id :: 't
  ry_id :: 't
  ry_forked_from_id :: 't
  ry_parent_thread_id :: 't
  ry_git_branch :: 't
  ry_info :: "('t, 'n) raw_info option"

record ('t, 'n, 'i) raw_result =
  rx_timestamp :: 'i
  rx_created_at :: 'i
  rx_created_at_v2 :: 'i
  rx_usage :: "'n raw_usage option"
  rx_model :: 't
  rx_model_name :: 't

record ('t, 'n, 'i, 's) raw_line =
  rl_kind :: 't
  rl_timestamp :: 'i
  rl_created_at :: 'i
  rl_created_at_v2 :: 'i
  rl_payload :: "('t, 'n, 's) raw_payload option"
  rl_usage :: "'n raw_usage option"
  rl_model :: 't
  rl_model_name :: 't
  rl_forked_from_id :: 't
  rl_parent_thread_id :: 't
  rl_data :: "('t, 'n, 'i) raw_result option"
  rl_result :: "('t, 'n, 'i) raw_result option"
  rl_response :: "('t, 'n, 'i) raw_result option"

type_synonym wire = "visit option"
type_synonym wire_line = "(wire, wire, wire, wire) raw_line"
type_synonym codex_usage = "lenient_u64 raw_usage"
type_synonym codex_info = "(bounded_text, lenient_u64) raw_info"
type_synonym codex_payload = "(bounded_text, lenient_u64, raw_source) raw_payload"
type_synonym codex_result = "(bounded_text, lenient_u64, timestamp_scalar) raw_result"
type_synonym codex_line = "(bounded_text, lenient_u64, timestamp_scalar, raw_source) raw_line"

definition raw_number :: "wire \<Rightarrow> lenient_u64" where
  "raw_number w = (case w of None \<Rightarrow> Lenient_Missing | Some v \<Rightarrow> visit_lenient_u64 v)"

definition raw_text :: "wire \<Rightarrow> bounded_text" where
  "raw_text w = (case w of None \<Rightarrow> Text_Missing | Some v \<Rightarrow> visit_bounded_text MAX_RAW_MODEL_BYTES v)"

definition raw_display_text :: "wire \<Rightarrow> bounded_text" where
  "raw_display_text w = (case w of None \<Rightarrow> Text_Missing | Some v \<Rightarrow> visit_bounded_text MAX_DISPLAY_BYTES v)"

definition raw_stamp :: "wire \<Rightarrow> timestamp_scalar" where
  "raw_stamp w = (case w of None \<Rightarrow> Stamp_Missing | Some v \<Rightarrow> visit_timestamp v)"

definition invalid_source :: raw_source where
  "invalid_source = \<lparr> rs_display = Text_Invalid, rs_structured_parent_thread_id = Text_Missing \<rparr>"

fun visit_source :: "visit \<Rightarrow> raw_source" where
  "visit_source (Visit_Str value) =
     \<lparr> rs_display = classify_text MAX_DISPLAY_BYTES value, rs_structured_parent_thread_id = Text_Missing \<rparr>"
| "visit_source (Visit_Map parent_thread_id) =
     \<lparr> rs_display = Text_Missing, rs_structured_parent_thread_id = raw_text parent_thread_id \<rparr>"
| "visit_source _ = invalid_source"

definition raw_source_of :: "wire \<Rightarrow> raw_source" where
  "raw_source_of w = (case w of
     None \<Rightarrow> \<lparr> rs_display = Text_Missing, rs_structured_parent_thread_id = Text_Missing \<rparr>
   | Some v \<Rightarrow> visit_source v)"

definition raw_usage_of :: "wire raw_usage \<Rightarrow> codex_usage" where
  "raw_usage_of w = \<lparr>
     ru_input_tokens = raw_number (ru_input_tokens w),
     ru_prompt_tokens = raw_number (ru_prompt_tokens w),
     ru_input = raw_number (ru_input w),
     ru_cached_input_tokens = raw_number (ru_cached_input_tokens w),
     ru_cache_read_input_tokens = raw_number (ru_cache_read_input_tokens w),
     ru_cached_tokens = raw_number (ru_cached_tokens w),
     ru_output_tokens = raw_number (ru_output_tokens w),
     ru_completion_tokens = raw_number (ru_completion_tokens w),
     ru_output = raw_number (ru_output w),
     ru_reasoning_output_tokens = raw_number (ru_reasoning_output_tokens w),
     ru_reasoning_tokens = raw_number (ru_reasoning_tokens w),
     ru_total_tokens = raw_number (ru_total_tokens w) \<rparr>"

definition raw_info_of :: "(wire, wire) raw_info \<Rightarrow> codex_info" where
  "raw_info_of w = \<lparr>
     ri_last_token_usage = map_option raw_usage_of (ri_last_token_usage w),
     ri_total_token_usage = map_option raw_usage_of (ri_total_token_usage w),
     ri_model = raw_text (ri_model w),
     ri_model_name = raw_text (ri_model_name w) \<rparr>"

definition raw_payload_of :: "(wire, wire, wire) raw_payload \<Rightarrow> codex_payload" where
  "raw_payload_of w = \<lparr>
     ry_kind = raw_text (ry_kind w),
     ry_model = raw_text (ry_model w),
     ry_model_name = raw_text (ry_model_name w),
     ry_model_slug = raw_text (ry_model_slug w),
     ry_model_id = raw_text (ry_model_id w),
     ry_requested_model = raw_text (ry_requested_model w),
     ry_default_model = raw_text (ry_default_model w),
     ry_service_tier = raw_display_text (ry_service_tier w),
     ry_model_context_window = raw_number (ry_model_context_window w),
     ry_name = raw_display_text (ry_name w),
     ry_cwd = raw_display_text (ry_cwd w),
     ry_originator = raw_display_text (ry_originator w),
     ry_source = raw_source_of (ry_source w),
     ry_session_id = raw_text (ry_session_id w),
     ry_id = raw_text (ry_id w),
     ry_forked_from_id = raw_text (ry_forked_from_id w),
     ry_parent_thread_id = raw_text (ry_parent_thread_id w),
     ry_git_branch = raw_display_text (ry_git_branch w),
     ry_info = map_option raw_info_of (ry_info w) \<rparr>"

definition raw_result_of :: "(wire, wire, wire) raw_result \<Rightarrow> codex_result" where
  "raw_result_of w = \<lparr>
     rx_timestamp = raw_stamp (rx_timestamp w),
     rx_created_at = raw_stamp (rx_created_at w),
     rx_created_at_v2 = raw_stamp (rx_created_at_v2 w),
     rx_usage = map_option raw_usage_of (rx_usage w),
     rx_model = raw_text (rx_model w),
     rx_model_name = raw_text (rx_model_name w) \<rparr>"

definition raw_line_of :: "wire_line \<Rightarrow> codex_line" where
  "raw_line_of w = \<lparr>
     rl_kind = raw_text (rl_kind w),
     rl_timestamp = raw_stamp (rl_timestamp w),
     rl_created_at = raw_stamp (rl_created_at w),
     rl_created_at_v2 = raw_stamp (rl_created_at_v2 w),
     rl_payload = map_option raw_payload_of (rl_payload w),
     rl_usage = map_option raw_usage_of (rl_usage w),
     rl_model = raw_text (rl_model w),
     rl_model_name = raw_text (rl_model_name w),
     rl_forked_from_id = raw_text (rl_forked_from_id w),
     rl_parent_thread_id = raw_text (rl_parent_thread_id w),
     rl_data = map_option raw_result_of (rl_data w),
     rl_result = map_option raw_result_of (rl_result w),
     rl_response = map_option raw_result_of (rl_response w) \<rparr>"

end
