(* ===== verification/Binary_Search.thy ===== *)
theory Binary_Search
  imports Prelude
begin

text \<open>
  \<open>slice::binary_search_by\<close> of the standard library, loop and all, and what the components use
  of it: on a list in strictly ascending key order it finds exactly the element with the key.
\<close>

datatype ordering = Lesser | Equal | Greater

definition cmp :: "'a::linorder \<Rightarrow> 'a \<Rightarrow> ordering" where
  "cmp a b = (if a < b then Lesser else if a = b then Equal else Greater)"

lemma cmp_Equal_iff: "cmp a b = Equal \<longleftrightarrow> a = b"
  by (simp add: cmp_def)

text \<open>The loop halves the window \<open>[base, base + size)\<close> until one element is left.\<close>

function search_loop :: "('a \<Rightarrow> ordering) \<Rightarrow> 'a list \<Rightarrow> nat \<Rightarrow> nat \<Rightarrow> nat" where
  "search_loop f xs base size' =
     (if size' \<le> 1 then base
      else let half = size' div 2; mid = base + half
           in search_loop f xs (if f (xs ! mid) = Greater then base else mid) (size' - half))"
  by pat_completeness auto

termination
  by (relation "measure (\<lambda>(f, xs, base, size'). size')") auto

declare search_loop.simps [simp del]

definition binary_search_by :: "('a \<Rightarrow> ordering) \<Rightarrow> 'a list \<Rightarrow> nat + nat" where
  "binary_search_by f xs =
     (if xs = [] then Inl 0
      else let base = search_loop f xs 0 (length xs)
           in if f (xs ! base) = Equal then Inr base
              else Inl (base + (if f (xs ! base) = Lesser then 1 else 0)))"

lemma search_loop_bound: "0 < n \<Longrightarrow> b + n \<le> length xs \<Longrightarrow> search_loop f xs b n < length xs"
proof (induction n arbitrary: b rule: less_induct)
  case (less n)
  show ?case
  proof (cases "n \<le> 1")
    case True
    with less.prems show ?thesis by (simp add: search_loop.simps)
  next
    case False
    let ?b = "if f (xs ! (b + n div 2)) = Greater then b else b + n div 2"
    have "search_loop f xs b n = search_loop f xs ?b (n - n div 2)"
      using False by (subst search_loop.simps) (simp add: Let_def)
    with less.IH [of "n - n div 2" ?b] False less.prems show ?thesis by auto
  qed
qed

lemma binary_search_bound: "binary_search_by f xs = Inr i \<Longrightarrow> i < length xs"
  using search_loop_bound [of "length xs" 0 xs f]
  by (auto simp: binary_search_by_def Let_def split: if_splits)

lemma search_loop_window:
  assumes "0 < n" "b + n \<le> length xs" "sorted_wrt (<) (map key xs)"
    and "b = 0 \<or> key (xs ! b) \<le> k" "\<forall>i. b + n \<le> i \<and> i < length xs \<longrightarrow> k < key (xs ! i)"
  defines "r \<equiv> search_loop (\<lambda>x. cmp (key x) k) xs b n"
  shows "r < length xs \<and> (r = 0 \<or> key (xs ! r) \<le> k) \<and>
         (\<forall>i. r < i \<and> i < length xs \<longrightarrow> k < key (xs ! i))"
  using assms(1,2,4,5) unfolding r_def
proof (induction n arbitrary: b rule: less_induct)
  case (less n)
  show ?case
  proof (cases "n \<le> 1")
    case True
    with less.prems have "n = 1" by simp
    then have "search_loop (\<lambda>x. cmp (key x) k) xs b n = b" by (simp add: search_loop.simps)
    with less.prems \<open>n = 1\<close> show ?thesis by auto
  next
    case False
    let ?h = "n div 2"
    let ?b = "if cmp (key (xs ! (b + ?h))) k = Greater then b else b + ?h"
    have h: "0 < n - ?h" "n - ?h < n" "b + ?h < length xs" using False less.prems by auto
    have asc: "i < j \<Longrightarrow> j < length xs \<Longrightarrow> key (xs ! i) < key (xs ! j)" for i j
      using assms(3) by (auto simp: sorted_wrt_iff_nth_less)
    have w: "?b + (n - ?h) \<le> length xs" using less.prems by auto
    have lo: "?b = 0 \<or> key (xs ! ?b) \<le> k"
      using less.prems by (auto simp: cmp_def split: if_splits)
    have hi: "\<forall>i. ?b + (n - ?h) \<le> i \<and> i < length xs \<longrightarrow> k < key (xs ! i)"
    proof (intro allI impI)
      fix i
      assume i: "?b + (n - ?h) \<le> i \<and> i < length xs"
      show "k < key (xs ! i)"
      proof (cases "cmp (key (xs ! (b + ?h))) k = Greater")
        case True
        then have gt: "k < key (xs ! (b + ?h))" by (auto simp: cmp_def split: if_splits)
        have "b + ?h \<le> i" using i True by auto
        then show ?thesis using gt asc [of "b + ?h" i] i by (cases "i = b + ?h") auto
      next
        case False
        with i less.prems show ?thesis by auto
      qed
    qed
    have "search_loop (\<lambda>x. cmp (key x) k) xs b n = search_loop (\<lambda>x. cmp (key x) k) xs ?b (n - ?h)"
      using False by (subst search_loop.simps) (simp add: Let_def)
    with less.IH [OF h(2,1) w lo hi] show ?thesis by simp
  qed
qed

lemma binary_search_Inr_iff:
  assumes "sorted_wrt (<) (map key xs)"
  shows "binary_search_by (\<lambda>x. cmp (key x) k) xs = Inr i \<longleftrightarrow> i < length xs \<and> key (xs ! i) = k"
proof (cases "xs = []")
  case True
  then show ?thesis by (simp add: binary_search_by_def)
next
  case False
  define r where "r = search_loop (\<lambda>x. cmp (key x) k) xs 0 (length xs)"
  have "\<forall>i. 0 + length xs \<le> i \<and> i < length xs \<longrightarrow> k < key (xs ! i)" by auto
  from search_loop_window [OF _ _ assms _ this] False
  have r: "r < length xs" "r = 0 \<or> key (xs ! r) \<le> k"
    "\<And>i. r < i \<Longrightarrow> i < length xs \<Longrightarrow> k < key (xs ! i)"
    unfolding r_def by simp_all
  have asc: "i < j \<Longrightarrow> j < length xs \<Longrightarrow> key (xs ! i) < key (xs ! j)" for i j
    using assms by (auto simp: sorted_wrt_iff_nth_less)
  have "i = r" if "i < length xs" "key (xs ! i) = k" for i
  proof (rule ccontr)
    assume "i \<noteq> r"
    then consider "i < r" | "r < i" by linarith
    then show False
    proof cases
      case 1
      with r(1,2) asc [of i r] that show False by auto
    next
      case 2
      with r(3) [of i] that show False by simp
    qed
  qed
  moreover have "binary_search_by (\<lambda>x. cmp (key x) k) xs = Inr i \<longleftrightarrow> i = r \<and> key (xs ! r) = k"
    using False
    by (auto simp: binary_search_by_def Let_def r_def [symmetric] cmp_Equal_iff split: if_splits)
  ultimately show ?thesis using r(1) by blast
qed

text \<open>Looking up the element: the search agrees with a scan of the list, in any order.\<close>

lemma binary_search_find:
  assumes sorted: "sorted_wrt (<) (map key xs)"
  shows "(case binary_search_by (\<lambda>x. cmp (key x) k) xs of Inr i \<Rightarrow> Some (xs ! i) | Inl _ \<Rightarrow> None) =
         find (\<lambda>x. key x = k) xs"
proof (cases "binary_search_by (\<lambda>x. cmp (key x) k) xs")
  case (Inr i)
  then have i: "i < length xs" "key (xs ! i) = k"
    by (simp_all add: binary_search_Inr_iff [OF sorted])
  have "find (\<lambda>x. key x = k) xs = Some (xs ! i)"
    using i sorted by (fastforce simp: find_Some_iff sorted_wrt_iff_nth_less intro!: exI [of _ i])
  with Inr show ?thesis by simp
next
  case (Inl j)
  then have "\<not> (i < length xs \<and> key (xs ! i) = k)" for i
    using binary_search_Inr_iff [OF sorted, of k i] by simp
  then have "find (\<lambda>x. key x = k) xs = None"
    by (auto simp: find_None_iff in_set_conv_nth)
  with Inl show ?thesis by simp
qed

lemma find_distinct_perm:
  assumes "set xs = set ys" "distinct (map key ys)" "distinct (map key xs)"
  shows "find (\<lambda>x. key x = k) xs = find (\<lambda>x. key x = k) ys"
proof (cases "find (\<lambda>x. key x = k) xs")
  case None
  then show ?thesis using assms(1) by (metis find_None_iff)
next
  case (Some x)
  then have x: "x \<in> set ys" "key x = k" using assms(1) by (auto simp: find_Some_iff)
  then obtain y where y: "find (\<lambda>x. key x = k) ys = Some y"
    by (cases "find (\<lambda>x. key x = k) ys") (auto simp: find_None_iff)
  then have "y \<in> set ys" "key y = k" by (auto simp: find_Some_iff)
  with x assms(2) have "y = x" by (auto simp: distinct_map dest: inj_onD)
  with Some y show ?thesis by simp
qed

text \<open>Where the search ends without a hit is where the key belongs.\<close>

lemma cmp_Lesser_iff: "cmp a b = Lesser \<longleftrightarrow> a < b"
  by (simp add: cmp_def)

lemma binary_search_Inl:
  assumes sorted: "sorted_wrt (<) (map key xs)" and search: "binary_search_by (\<lambda>x. cmp (key x) k) xs = Inl i"
  shows "i \<le> length xs" "\<And>j. j < i \<Longrightarrow> key (xs ! j) < k" "\<And>j. i \<le> j \<Longrightarrow> j < length xs \<Longrightarrow> k < key (xs ! j)"
proof -
  define r where "r = search_loop (\<lambda>x. cmp (key x) k) xs 0 (length xs)"
  have asc: "i < j \<Longrightarrow> j < length xs \<Longrightarrow> key (xs ! i) < key (xs ! j)" for i j
    using sorted by (auto simp: sorted_wrt_iff_nth_less)
  have all: "i \<le> length xs \<and> (\<forall>j < i. key (xs ! j) < k) \<and> (\<forall>j. i \<le> j \<and> j < length xs \<longrightarrow> k < key (xs ! j))"
  proof (cases "xs = []")
    case True
    with search show ?thesis by (simp add: binary_search_by_def)
  next
    case False
    have "\<forall>i. 0 + length xs \<le> i \<and> i < length xs \<longrightarrow> k < key (xs ! i)" by auto
    from search_loop_window [OF _ _ sorted _ this] False
    have r: "r < length xs" "r = 0 \<or> key (xs ! r) \<le> k" "\<forall>i. r < i \<and> i < length xs \<longrightarrow> k < key (xs ! i)"
      unfolding r_def by simp_all
    have i: "key (xs ! r) \<noteq> k" "i = r + (if key (xs ! r) < k then 1 else 0)"
      using search False
      by (auto simp: binary_search_by_def Let_def r_def [symmetric] cmp_Equal_iff cmp_Lesser_iff split: if_splits)
    show ?thesis
    proof (cases "key (xs ! r) < k")
      case True
      with i r(1) asc r(3) show ?thesis
        by (auto simp: less_Suc_eq) (metis less_trans)
    next
      case False
      with i r(2) have "i = 0" "r = 0" "k < key (xs ! 0)" by auto
      with asc [of 0] show ?thesis
        by (auto simp: neq0_conv) (metis less_trans neq0_conv)
    qed
  qed
  then show "i \<le> length xs" "\<And>j. j < i \<Longrightarrow> key (xs ! j) < k" "\<And>j. i \<le> j \<Longrightarrow> j < length xs \<Longrightarrow> k < key (xs ! j)"
    by auto
qed

lemma insert_ascending:
  assumes "sorted_wrt (<) (map key xs)" "binary_search_by (\<lambda>x. cmp (key x) k) xs = Inl i" "key e = k"
  shows "sorted_wrt (<) (map key (take i xs @ e # drop i xs))"
proof -
  note at = binary_search_Inl [OF assms(1,2)]
  have "\<forall>x \<in> set (take i xs). key x < k"
    using at(1,2) by (auto simp: in_set_conv_nth)
  moreover have "\<forall>x \<in> set (drop i xs). k < key x"
    using at(1,3) by (auto simp: in_set_conv_nth)
  moreover have "sorted_wrt (<) (map key (take i xs))" "sorted_wrt (<) (map key (drop i xs))"
    using assms(1) by (simp_all add: take_map [symmetric] drop_map [symmetric] sorted_wrt_take sorted_wrt_drop)
  ultimately show ?thesis
    using assms(3) by (fastforce simp: sorted_wrt_append)
qed

end
