(* ===== verification/CodexParser.thy ===== *)
theory CodexParser
  imports CodexValues Binary_Search
begin

text \<open>
  The Codex line parser: \<open>crates/codex/src/parser/mod.rs\<close>, \<open>state.rs\<close> and \<open>effects.rs\<close>, with
  \<open>path_policy.rs\<close> and the repository hint of \<open>crates/provider/src/repository.rs\<close>; paths are those of the builds
  that are not for Windows.

  Parameters, in \<open>parse_env\<close>, are the JSON decoder, the calendar, SHA-256, and the canonical path of a local
  directory, which the file system knows.  Text that is looked at by character is a list of scalar
  values, text that is stored is its UTF-8 form.
\<close>

section \<open>Paths\<close>

definition MAX_PATH_BYTES :: nat where "MAX_PATH_BYTES = 4096"

definition path_is_absolute :: "unicode \<Rightarrow> bool" where
  "path_is_absolute path \<longleftrightarrow> path \<noteq> [] \<and> hd path = 47"

fun split_slash :: "unicode \<Rightarrow> unicode list" where
  "split_slash [] = [[]]"
| "split_slash (c # cs) =
     (if c = 47 then [] # split_slash cs else (c # hd (split_slash cs)) # tl (split_slash cs))"

text \<open>The components of an absolute path after its root: empty ones and single dots are not among them.\<close>

definition path_components :: "unicode \<Rightarrow> unicode list" where
  "path_components path = filter (\<lambda>part. part \<noteq> [] \<and> part \<noteq> [46]) (split_slash path)"

definition path_file_name :: "unicode \<Rightarrow> unicode option" where
  "path_file_name path =
     (let parts = path_components path
      in if parts = [] \<or> last parts = [46, 46] then None else Some (last parts))"

datatype path_policy_code = Path_InvalidPath | Path_UnsupportedRootNamespace

definition validate_local_root_namespace :: "unicode \<Rightarrow> path_policy_code + unit" where
  "validate_local_root_namespace path =
     (if \<not> path_is_absolute path \<or> length (utf8 path) > MAX_PATH_BYTES then Inl Path_InvalidPath else Inr ())"

definition local_path_rejected :: "unicode \<Rightarrow> bool" where
  "local_path_rejected path \<longleftrightarrow> path = [] \<or> isl (validate_local_root_namespace path)
     \<or> [46, 46] \<in> set (path_components path)"

record repository_candidate_path =
  rc_directory :: string
  rc_byte_len :: nat

definition repository_candidate_path_new ::
    "(string \<Rightarrow> string option) \<Rightarrow> string \<Rightarrow> repository_candidate_path option" where
  "repository_candidate_path_new validated_directory path =
     (if length path > MAX_PATH_BYTES \<or> CHR 0x00 \<in> set path then None
      else case validated_directory path of
        None \<Rightarrow> None
      | Some directory \<Rightarrow>
          if length directory > MAX_PATH_BYTES then None
          else Some \<lparr> rc_directory = directory, rc_byte_len = length directory \<rparr>)"

record repository_activity_hint =
  rh_provider_id :: usage_provider_id
  rh_profile_id :: usage_profile_id
  rh_source_id :: usage_source_id
  rh_session_id :: usage_session_id
  rh_observed_at :: utc_timestamp
  rh_project :: "project_alias option"
  rh_candidate :: repository_candidate_path

section \<open>Context and state\<close>

record parse_env =
  pe_from_slice :: "u8 list \<Rightarrow> wire_line option"
  pe_chrono :: chrono
  pe_sha256 :: hash_fun
  pe_validated_directory :: "string \<Rightarrow> string option"

record parse_context =
  pc_provider_id :: usage_provider_id
  pc_profile_id :: usage_profile_id
  pc_source_id :: usage_source_id
  pc_filename_session_hint :: "usage_session_id option"
  pc_hashed_session_hint :: usage_session_id
  pc_source_verification :: observation_verification

definition parse_context_new :: "usage_profile_id \<Rightarrow> usage_source_id \<Rightarrow> usage_session_id option
    \<Rightarrow> usage_session_id \<Rightarrow> parse_context" where
  "parse_context_new profile_id source_id filename_session_hint hashed_session_hint =
     \<lparr> pc_provider_id = ''codex'', pc_profile_id = profile_id, pc_source_id = source_id,
       pc_filename_session_hint = filename_session_hint, pc_hashed_session_hint = hashed_session_hint,
       pc_source_verification = Verification_Incremental \<rparr>"

definition with_source_verification :: "observation_verification \<Rightarrow> parse_context \<Rightarrow> parse_context" where
  "with_source_verification verification context = context \<lparr> pc_source_verification := verification \<rparr>"

record tool_count_entry =
  tc_name :: unicode
  tc_count :: u64

record parser_state =
  ps_current_model :: "resolved_model option"
  ps_previous_totals :: "token_usage option"
  ps_service_tier :: "metadata_value option"
  ps_session_id :: "usage_session_id option"
  ps_parent_session_id :: "usage_session_id option"
  ps_lineage_conflict :: bool
  ps_next_usage_ordinal :: u64
  ps_project :: "project_alias option"
  ps_repository_candidate :: "repository_candidate_path option"
  ps_repository_project :: "project_alias option"
  ps_latest_repository_activity_hint :: "repository_activity_hint option"
  ps_originator :: "metadata_value option"
  ps_source_alias :: "metadata_value option"
  ps_git_branch :: "metadata_value option"
  ps_context_window :: "u64 option"
  ps_pending_activity :: activity_counts
  ps_aggregate_activity :: activity_counts
  ps_tool_counts :: "tool_count_entry list"
  ps_other_tools :: u64

definition PARSER_SCHEMA_VERSION :: u16 where "PARSER_SCHEMA_VERSION = 2"
definition MAX_TOOL_NAMES :: nat where "MAX_TOOL_NAMES = 64"
definition MAX_TOOL_NAME_BYTES :: nat where "MAX_TOOL_NAME_BYTES = 80"
definition MAX_CONTEXT_WINDOW_TOKENS :: u64 where "MAX_CONTEXT_WINDOW_TOKENS = 10000000"
definition MAX_RETAINED_TEXT_BYTES :: nat where "MAX_RETAINED_TEXT_BYTES = 15232"
definition MAX_METADATA_BYTES :: nat where "MAX_METADATA_BYTES = 512"
definition LONG_CONTEXT_THRESHOLD :: u64 where "LONG_CONTEXT_THRESHOLD = 272000"

definition parser_state_new :: parser_state where
  "parser_state_new = \<lparr> ps_current_model = None, ps_previous_totals = None, ps_service_tier = None,
     ps_session_id = None, ps_parent_session_id = None, ps_lineage_conflict = False,
     ps_next_usage_ordinal = 0, ps_project = None, ps_repository_candidate = None,
     ps_repository_project = None, ps_latest_repository_activity_hint = None, ps_originator = None,
     ps_source_alias = None, ps_git_branch = None, ps_context_window = None,
     ps_pending_activity = activity_default, ps_aggregate_activity = activity_default,
     ps_tool_counts = [], ps_other_tools = 0 \<rparr>"

text \<open>Names are compared by their bytes, as \<open>str\<close> is.\<close>

definition record_tool :: "unicode \<Rightarrow> activity_kind \<Rightarrow> parser_state \<Rightarrow> parser_state \<times> parser_diagnostic_code list" where
  "record_tool name activity state =
     (let state = state \<lparr> ps_pending_activity := activity_increment (ps_pending_activity state) activity,
                          ps_aggregate_activity := activity_increment (ps_aggregate_activity state) activity \<rparr>;
          tools = ps_tool_counts state
      in case binary_search_by (\<lambda>entry. cmp (utf8 (tc_name entry)) (utf8 name)) tools of
           Inr index \<Rightarrow>
             (state \<lparr> ps_tool_counts :=
                tools[index := (tools ! index) \<lparr> tc_count := saturating_add (tc_count (tools ! index)) 1 \<rparr>] \<rparr>, [])
         | Inl index \<Rightarrow>
             if length tools < MAX_TOOL_NAMES
             then (state \<lparr> ps_tool_counts :=
                take index tools @ \<lparr> tc_name = name, tc_count = 1 \<rparr> # drop index tools \<rparr>, [])
             else (state \<lparr> ps_other_tools := saturating_add (ps_other_tools state) 1 \<rparr>, [Parser_ToolCapacity]))"

definition take_latest_repository_activity_hint :: "parser_state \<Rightarrow> repository_activity_hint option \<times> parser_state" where
  "take_latest_repository_activity_hint state =
     (ps_latest_repository_activity_hint state, state \<lparr> ps_latest_repository_activity_hint := None \<rparr>)"

section \<open>Resuming\<close>

record parser_resume_state =
  pr_version :: u16
  pr_current_model :: "resolved_model option"
  pr_previous_totals :: "token_usage option"
  pr_service_tier :: "metadata_value option"
  pr_session_id :: "usage_session_id option"
  pr_parent_session_id :: "usage_session_id option"
  pr_lineage_conflict :: bool
  pr_next_usage_ordinal :: u64
  pr_project :: "project_alias option"
  pr_originator :: "metadata_value option"
  pr_source_alias :: "metadata_value option"
  pr_git_branch :: "metadata_value option"
  pr_context_window :: "u64 option"
  pr_pending_activity :: activity_counts
  pr_aggregate_activity :: activity_counts
  pr_tool_counts :: "tool_count_entry list"
  pr_other_tools :: u64

definition parser_snapshot :: "parser_state \<Rightarrow> parser_resume_state" where
  "parser_snapshot s = \<lparr> pr_version = PARSER_SCHEMA_VERSION, pr_current_model = ps_current_model s,
     pr_previous_totals = ps_previous_totals s, pr_service_tier = ps_service_tier s,
     pr_session_id = ps_session_id s, pr_parent_session_id = ps_parent_session_id s,
     pr_lineage_conflict = ps_lineage_conflict s, pr_next_usage_ordinal = ps_next_usage_ordinal s,
     pr_project = ps_project s, pr_originator = ps_originator s, pr_source_alias = ps_source_alias s,
     pr_git_branch = ps_git_branch s, pr_context_window = ps_context_window s,
     pr_pending_activity = ps_pending_activity s, pr_aggregate_activity = ps_aggregate_activity s,
     pr_tool_counts = ps_tool_counts s, pr_other_tools = ps_other_tools s \<rparr>"

datatype parser_resume_error = Resume_UnsupportedVersion | Resume_InvalidState

definition valid_tool_name :: "unicode \<Rightarrow> bool" where
  "valid_tool_name value \<longleftrightarrow> value \<noteq> [] \<and> length (utf8 value) \<le> MAX_TOOL_NAME_BYTES \<and> \<not> list_ex char_is_control value"

fun strictly_ascending :: "string list \<Rightarrow> bool" where
  "strictly_ascending (x # y # ys) \<longleftrightarrow> x < y \<and> strictly_ascending (y # ys)"
| "strictly_ascending _ \<longleftrightarrow> True"

definition valid_tool_entries :: "tool_count_entry list \<Rightarrow> bool" where
  "valid_tool_entries entries \<longleftrightarrow> length entries \<le> MAX_TOOL_NAMES
     \<and> list_all (\<lambda>entry. valid_tool_name (tc_name entry) \<and> tc_count entry > 0) entries
     \<and> strictly_ascending (map (\<lambda>entry. utf8 (tc_name entry)) entries)"

definition valid_previous_totals :: "token_usage \<Rightarrow> bool" where
  "valid_previous_totals usage \<longleftrightarrow> (case tu_cached usage of
     Unavailable \<Rightarrow> True
   | Available cached \<Rightarrow> (case tu_input usage of Available input \<Rightarrow> cached \<le> input | Unavailable \<Rightarrow> False))"

definition valid_activity_relation :: "activity_counts \<Rightarrow> activity_counts \<Rightarrow> bool" where
  "valid_activity_relation pending aggregate \<longleftrightarrow> list_all (\<lambda>(p, a). p \<le> a) (zip pending aggregate)"

definition resolved_model_from_resume :: "hash_fun \<Rightarrow> resolved_model \<Rightarrow> parser_resume_error + resolved_model" where
  "resolved_model_from_resume sha256 value =
     (if rm_fallback value then
        if rm_key value = ''unknown'' \<and> rm_raw value = None then Inr value else Inl Resume_InvalidState
      else case rm_raw value of
        None \<Rightarrow> Inl Resume_InvalidState
      | Some raw \<Rightarrow> (case normalize_explicit_model sha256 raw of
            None \<Rightarrow> Inl Resume_InvalidState
          | Some normalized \<Rightarrow>
              if rm_key normalized \<noteq> rm_key value \<or> rm_fallback normalized then Inl Resume_InvalidState
              else Inr value))"

definition text_len :: "string option \<Rightarrow> nat" where
  "text_len value = (case value of None \<Rightarrow> 0 | Some value \<Rightarrow> length value)"

definition retained_text_bytes :: "parser_state \<Rightarrow> nat" where
  "retained_text_bytes s =
     (case ps_current_model s of None \<Rightarrow> 0
      | Some model \<Rightarrow> length (rm_key model) + text_len (map_option utf8 (rm_raw model)))
     + text_len (ps_service_tier s) + text_len (ps_session_id s) + text_len (ps_parent_session_id s)
     + text_len (ps_project s)
     + (case ps_repository_candidate s of None \<Rightarrow> 0 | Some candidate \<Rightarrow> rc_byte_len candidate)
     + text_len (ps_repository_project s)
     + (case ps_latest_repository_activity_hint s of None \<Rightarrow> 0
        | Some hint \<Rightarrow> length (rh_provider_id hint) + length (rh_profile_id hint) + length (rh_source_id hint)
            + length (rh_session_id hint) + text_len (rh_project hint))
     + text_len (ps_originator s) + text_len (ps_source_alias s) + text_len (ps_git_branch s)
     + sum_list (map (\<lambda>entry. length (utf8 (tc_name entry))) (ps_tool_counts s))"

definition resume_rejected :: "parser_resume_state \<Rightarrow> bool" where
  "resume_rejected value \<longleftrightarrow>
     is_some_and (\<lambda>window. \<not> (1 \<le> window \<and> window \<le> MAX_CONTEXT_WINDOW_TOKENS)) (pr_context_window value)
     \<or> is_some_and (\<lambda>usage. \<not> valid_previous_totals usage) (pr_previous_totals value)
     \<or> \<not> valid_tool_entries (pr_tool_counts value)
     \<or> (pr_other_tools value > 0 \<and> length (pr_tool_counts value) < MAX_TOOL_NAMES)
     \<or> \<not> valid_activity_relation (pr_pending_activity value) (pr_aggregate_activity value)
     \<or> pr_next_usage_ordinal value > i64_max_u64
     \<or> (\<not> pr_lineage_conflict value \<and> pr_parent_session_id value \<noteq> None
        \<and> pr_parent_session_id value = pr_session_id value)"

definition from_resume :: "hash_fun \<Rightarrow> parser_resume_state \<Rightarrow> parser_resume_error + parser_state" where
  "from_resume sha256 value =
     (if pr_version value \<noteq> PARSER_SCHEMA_VERSION then Inl Resume_UnsupportedVersion
      else if resume_rejected value then Inl Resume_InvalidState
      else and_then (case pr_current_model value of
          None \<Rightarrow> Inr None
        | Some model \<Rightarrow> map_sum id Some (resolved_model_from_resume sha256 model)) (\<lambda>current_model.
        let state = \<lparr> ps_current_model = current_model, ps_previous_totals = pr_previous_totals value,
              ps_service_tier = pr_service_tier value, ps_session_id = pr_session_id value,
              ps_parent_session_id = pr_parent_session_id value,
              ps_lineage_conflict = pr_lineage_conflict value,
              ps_next_usage_ordinal = pr_next_usage_ordinal value, ps_project = pr_project value,
              ps_repository_candidate = None, ps_repository_project = None,
              ps_latest_repository_activity_hint = None, ps_originator = pr_originator value,
              ps_source_alias = pr_source_alias value, ps_git_branch = pr_git_branch value,
              ps_context_window = pr_context_window value, ps_pending_activity = pr_pending_activity value,
              ps_aggregate_activity = pr_aggregate_activity value, ps_tool_counts = pr_tool_counts value,
              ps_other_tools = pr_other_tools value \<rparr>
        in if retained_text_bytes state > MAX_RETAINED_TEXT_BYTES then Inl Resume_InvalidState else Inr state))"

section \<open>What a line says of the session\<close>

record model_candidate =
  mc_value :: "unicode option"
  mc_invalid_aliases :: nat

fun first_model_from :: "nat \<Rightarrow> bounded_text list \<Rightarrow> model_candidate" where
  "first_model_from invalid_aliases [] = \<lparr> mc_value = None, mc_invalid_aliases = invalid_aliases \<rparr>"
| "first_model_from invalid_aliases (value # values) = (case text_value value of
     Some value \<Rightarrow> \<lparr> mc_value = Some value, mc_invalid_aliases = invalid_aliases \<rparr>
   | None \<Rightarrow> first_model_from (invalid_aliases + (if text_is_invalid value then 1 else 0)) values)"

definition first_model :: "bounded_text list \<Rightarrow> model_candidate" where
  "first_model values = first_model_from 0 values"

fun first_timestamp :: "chrono \<Rightarrow> timestamp_scalar list \<Rightarrow> utc_timestamp option" where
  "first_timestamp chrono [] = None"
| "first_timestamp chrono (value # values) = (case timestamp_value chrono value of
     Some t \<Rightarrow> Some t | None \<Rightarrow> first_timestamp chrono values)"

datatype repository_candidate_update = Candidate_Missing | Candidate_Set repository_candidate_path | Candidate_Clear

record metadata_update =
  mu_current_model :: "resolved_model option"
  mu_service_tier :: "metadata_value option"
  mu_session_id :: "usage_session_id option"
  mu_project :: "project_alias option"
  mu_repository_candidate :: repository_candidate_update
  mu_originator :: "metadata_value option"
  mu_source_alias :: "metadata_value option"
  mu_git_branch :: "metadata_value option"
  mu_context_window :: "u64 option"
  mu_parent_session_id :: "usage_session_id option"
  mu_lineage_conflict :: bool

definition metadata_update_default :: metadata_update where
  "metadata_update_default = \<lparr> mu_current_model = None, mu_service_tier = None, mu_session_id = None,
     mu_project = None, mu_repository_candidate = Candidate_Missing, mu_originator = None,
     mu_source_alias = None, mu_git_branch = None, mu_context_window = None,
     mu_parent_session_id = None, mu_lineage_conflict = False \<rparr>"

definition has_updates :: "metadata_update \<Rightarrow> bool" where
  "has_updates u \<longleftrightarrow> mu_current_model u \<noteq> None \<or> mu_service_tier u \<noteq> None \<or> mu_session_id u \<noteq> None
     \<or> mu_project u \<noteq> None \<or> mu_repository_candidate u \<noteq> Candidate_Missing \<or> mu_originator u \<noteq> None
     \<or> mu_source_alias u \<noteq> None \<or> mu_git_branch u \<noteq> None \<or> mu_context_window u \<noteq> None
     \<or> mu_parent_session_id u \<noteq> None \<or> mu_lineage_conflict u"

text \<open>
  \<open>truncate_utf8\<close> walks back from the byte limit to a character boundary; slicing there keeps the scalar
  values whose bytes lie before it.
\<close>

definition is_char_boundary :: "unicode \<Rightarrow> nat \<Rightarrow> bool" where
  "is_char_boundary value index \<longleftrightarrow>
     list_ex (\<lambda>k. length (utf8 (take k value)) = index) [0 ..< Suc (length value)]"

fun boundary_before :: "unicode \<Rightarrow> nat \<Rightarrow> nat" where
  "boundary_before value 0 = 0"
| "boundary_before value (Suc n) = (if is_char_boundary value (Suc n) then Suc n else boundary_before value n)"

fun str_slice_to :: "unicode \<Rightarrow> nat \<Rightarrow> unicode" where
  "str_slice_to [] n = []"
| "str_slice_to (c # cs) n =
     (if length (utf8_char c) \<le> n then c # str_slice_to cs (n - length (utf8_char c)) else [])"

definition truncate_utf8 :: "unicode \<Rightarrow> nat \<Rightarrow> unicode \<times> bool" where
  "truncate_utf8 value max_bytes =
     (if length (utf8 value) \<le> max_bytes then (value, False)
      else (str_slice_to value (boundary_before value max_bytes), True))"

definition normalize_metadata_model :: "hash_fun \<Rightarrow> model_candidate
    \<Rightarrow> resolved_model option \<times> parser_diagnostic_code list" where
  "normalize_metadata_model sha256 candidate =
     (let codes = replicate (mc_invalid_aliases candidate) Parser_InvalidModel
      in case mc_value candidate of
           None \<Rightarrow> (None, codes)
         | Some value \<Rightarrow> (case normalize_explicit_model sha256 value of
               None \<Rightarrow> (None, codes @ [Parser_InvalidModel])
             | Some resolved \<Rightarrow> (Some resolved, codes)))"

definition display_metadata :: "bounded_text \<Rightarrow> metadata_value option \<times> parser_diagnostic_code list" where
  "display_metadata raw =
     (if text_is_invalid raw then (None, [Parser_InvalidMetadata])
      else case text_value raw of
        None \<Rightarrow> (None, [])
      | Some value \<Rightarrow>
          let value = str_trim value
          in if value = [] then (None, [Parser_InvalidMetadata])
             else let (value, truncated) = truncate_utf8 value MAX_METADATA_BYTES;
                      codes = (if truncated then [Parser_MetadataTruncated] else [])
                  in case metadata_value_new value of
                       Inl _ \<Rightarrow> (None, codes @ [Parser_InvalidMetadata])
                     | Inr value \<Rightarrow> (Some value, codes))"

definition session_identity :: "bounded_text \<Rightarrow> usage_session_id option \<times> parser_diagnostic_code list" where
  "session_identity raw =
     (if text_is_invalid raw then (None, [Parser_InvalidMetadata])
      else case text_value raw of
        None \<Rightarrow> (None, [])
      | Some value \<Rightarrow> (case usage_session_id_new value of
            Inl _ \<Rightarrow> (None, [Parser_InvalidMetadata])
          | Inr session \<Rightarrow> (Some session, [])))"

definition text_is :: "string \<Rightarrow> unicode option \<Rightarrow> bool" where
  "text_is literal value \<longleftrightarrow> value = Some (map of_char literal)"

definition session_metadata :: "unicode option \<Rightarrow> codex_payload
    \<Rightarrow> usage_session_id option \<times> parser_diagnostic_code list" where
  "session_metadata line_kind payload =
     (if text_is ''session_meta'' line_kind \<or> text_is ''sessionMeta'' line_kind
      then case session_identity (ry_id payload) of
          (Some session, codes) \<Rightarrow> (Some session, codes)
        | (None, codes) \<Rightarrow>
            let (session, more) = session_identity (ry_session_id payload) in (session, codes @ more)
      else session_identity (ry_session_id payload))"

definition codex_project_alias :: "bounded_text \<Rightarrow> project_alias option \<times> parser_diagnostic_code list" where
  "codex_project_alias raw =
     (if text_is_invalid raw then (None, [Parser_InvalidPath])
      else case text_value raw of
        None \<Rightarrow> (None, [])
      | Some value \<Rightarrow>
          let path = str_trim value
          in if local_path_rejected path then (None, [Parser_InvalidPath])
             else case path_file_name path of
               None \<Rightarrow> (None, [Parser_InvalidPath])
             | Some name \<Rightarrow>
                 let (name, truncated) = truncate_utf8 name MAX_METADATA_BYTES;
                     codes = (if truncated then [Parser_MetadataTruncated] else [])
                 in case project_alias_new name of
                      Inl _ \<Rightarrow> (None, codes @ [Parser_InvalidPath])
                    | Inr alias \<Rightarrow> (Some alias, codes))"

definition repository_candidate :: "(string \<Rightarrow> string option) \<Rightarrow> bounded_text \<Rightarrow> repository_candidate_update" where
  "repository_candidate validated_directory raw =
     (if text_is_missing raw then Candidate_Missing
      else if text_is_invalid raw then Candidate_Clear
      else case text_value raw of
        None \<Rightarrow> Candidate_Clear
      | Some value \<Rightarrow>
          let path = str_trim value
          in if local_path_rejected path then Candidate_Clear
             else case repository_candidate_path_new validated_directory (utf8 path) of
               None \<Rightarrow> Candidate_Clear
             | Some candidate \<Rightarrow> Candidate_Set candidate)"

definition codex_context_window :: "lenient_u64 \<Rightarrow> u64 option \<times> parser_diagnostic_code list" where
  "codex_context_window raw = (case raw of
     Lenient_Missing \<Rightarrow> (None, [])
   | Lenient_Invalid \<Rightarrow> (None, [Parser_InvalidMetadata])
   | Lenient_Valid value \<Rightarrow>
       if 1 \<le> value \<and> value \<le> MAX_CONTEXT_WINDOW_TOKENS then (Some value, []) else (None, [Parser_InvalidMetadata]))"

definition lineage_step :: "usage_session_id option \<times> bool \<times> parser_diagnostic_code list \<Rightarrow> bounded_text
    \<Rightarrow> usage_session_id option \<times> bool \<times> parser_diagnostic_code list" where
  "lineage_step = (\<lambda>(parent, conflict, codes) candidate.
     if text_is_invalid candidate then (parent, conflict, codes @ [Parser_InvalidMetadata])
     else case text_value candidate of
       None \<Rightarrow> (parent, conflict, codes)
     | Some value \<Rightarrow> (case usage_session_id_new value of
           Inl _ \<Rightarrow> (parent, conflict, codes @ [Parser_InvalidMetadata])
         | Inr candidate \<Rightarrow> (case parent of
               None \<Rightarrow> (Some candidate, conflict, codes)
             | Some existing \<Rightarrow> (parent, conflict \<or> existing \<noteq> candidate, codes))))"

definition lineage_metadata :: "codex_line \<Rightarrow> codex_payload
    \<Rightarrow> usage_session_id option \<times> bool \<times> parser_diagnostic_code list" where
  "lineage_metadata raw payload = foldl lineage_step (None, False, [])
     [rl_forked_from_id raw, rl_parent_thread_id raw, ry_forked_from_id payload,
      ry_parent_thread_id payload, rs_structured_parent_thread_id (ry_source payload)]"

definition metadata_update_of :: "parse_env \<Rightarrow> codex_line \<Rightarrow> bool \<Rightarrow> metadata_update \<times> parser_diagnostic_code list" where
  "metadata_update_of env raw include_model = (case rl_payload raw of
     None \<Rightarrow> (metadata_update_default, [])
   | Some payload \<Rightarrow>
       let (current_model, codes_model) =
             (if include_model
              then normalize_metadata_model (pe_sha256 env) (first_model
                     [ry_model payload, ry_model_name payload, ry_model_slug payload, ry_model_id payload,
                      ry_requested_model payload, ry_default_model payload])
              else (None, []));
           (parent_session_id, lineage_conflict, codes_lineage) = lineage_metadata raw payload;
           (service_tier, codes_tier) = display_metadata (ry_service_tier payload);
           (session_id, codes_session) = session_metadata (text_value (rl_kind raw)) payload;
           (project, codes_project) = codex_project_alias (ry_cwd payload);
           (originator, codes_originator) = display_metadata (ry_originator payload);
           (source_alias, codes_source) = display_metadata (rs_display (ry_source payload));
           (git_branch, codes_branch) = display_metadata (ry_git_branch payload);
           (context_window, codes_window) = codex_context_window (ry_model_context_window payload)
       in (\<lparr> mu_current_model = current_model, mu_service_tier = service_tier, mu_session_id = session_id,
             mu_project = project,
             mu_repository_candidate = repository_candidate (pe_validated_directory env) (ry_cwd payload),
             mu_originator = originator, mu_source_alias = source_alias, mu_git_branch = git_branch,
             mu_context_window = context_window, mu_parent_session_id = parent_session_id,
             mu_lineage_conflict = lineage_conflict \<rparr>,
           codes_model @ codes_lineage @ codes_tier @ codes_session @ codes_project @ codes_originator
             @ codes_source @ codes_branch @ codes_window))"

text \<open>\<open>a.or(b)\<close>, and \<open>if let Some(value) = a { b = Some(value) }\<close>.\<close>

definition option_or :: "'a option \<Rightarrow> 'a option \<Rightarrow> 'a option" where
  "option_or a b = (case a of Some value \<Rightarrow> Some value | None \<Rightarrow> b)"

definition apply_metadata :: "metadata_update \<Rightarrow> parser_state \<Rightarrow> parser_state" where
  "apply_metadata update state = state \<lparr>
     ps_parent_session_id := option_or (ps_parent_session_id state) (mu_parent_session_id update),
     ps_lineage_conflict := (ps_lineage_conflict state
       \<or> is_some_and (\<lambda>parent. is_some_and (\<lambda>existing. existing \<noteq> parent) (ps_parent_session_id state))
           (mu_parent_session_id update)
       \<or> mu_lineage_conflict update),
     ps_current_model := option_or (mu_current_model update) (ps_current_model state),
     ps_service_tier := option_or (mu_service_tier update) (ps_service_tier state),
     ps_session_id := option_or (mu_session_id update) (ps_session_id state),
     ps_project := option_or (mu_project update) (ps_project state),
     ps_repository_candidate := (case mu_repository_candidate update of
         Candidate_Missing \<Rightarrow> ps_repository_candidate state
       | Candidate_Set value \<Rightarrow> Some value
       | Candidate_Clear \<Rightarrow> None),
     ps_repository_project := (case mu_repository_candidate update of
         Candidate_Missing \<Rightarrow> ps_repository_project state
       | Candidate_Set _ \<Rightarrow> mu_project update
       | Candidate_Clear \<Rightarrow> None),
     ps_originator := option_or (mu_originator update) (ps_originator state),
     ps_source_alias := option_or (mu_source_alias update) (ps_source_alias state),
     ps_git_branch := option_or (mu_git_branch update) (ps_git_branch state),
     ps_context_window := option_or (mu_context_window update) (ps_context_window state) \<rparr>"

section \<open>Tools\<close>

definition windows :: "nat \<Rightarrow> 'a list \<Rightarrow> 'a list list" where
  "windows n xs = map (\<lambda>i. take n (drop i xs)) [0 ..< Suc (length xs) - n]"

definition to_ascii_lowercase :: "char \<Rightarrow> char" where
  "to_ascii_lowercase c = (let n = of_char c :: nat in if 65 \<le> n \<and> n \<le> 90 then char_of (n + 32) else c)"

definition eq_ignore_ascii_case :: "string \<Rightarrow> string \<Rightarrow> bool" where
  "eq_ignore_ascii_case a b \<longleftrightarrow> map to_ascii_lowercase a = map to_ascii_lowercase b"

definition contains_ascii_case_insensitive :: "string \<Rightarrow> string \<Rightarrow> bool" where
  "contains_ascii_case_insensitive value needle \<longleftrightarrow>
     list_ex (\<lambda>window. eq_ignore_ascii_case window needle) (windows (length needle) value)"

definition classify_tool :: "string \<Rightarrow> activity_kind" where
  "classify_tool name =
     (let matches_any = (\<lambda>markers. list_ex (contains_ascii_case_insensitive name) markers)
      in if matches_any [''read'', ''cat'', ''view''] then Activity_Read
         else if matches_any [''write'', ''edit'', ''patch'', ''create''] then EditWrite
         else if matches_any [''search'', ''grep'', ''find''] then Activity_Search
         else if matches_any [''git''] then Activity_Git
         else if matches_any [''test'', ''build'', ''compile''] then BuildTest
         else if matches_any [''web'', ''browser'', ''http''] then Activity_Web
         else if matches_any [''agent'', ''delegate'', ''spawn''] then Subagents
         else Terminal)"

record tool_update =
  tl_name :: unicode
  tl_activity :: activity_kind

text \<open>The tool's name before it is cut to size: the payload's name, or else its kind.\<close>

definition safe_tool_name :: "codex_payload \<Rightarrow> unicode" where
  "safe_tool_name payload =
     (let unknown = map of_char ''unknown'';
          raw_name = (case filter_option (\<lambda>name. name \<noteq> []) (text_value (ry_name payload)) of
              Some name \<Rightarrow> name
            | None \<Rightarrow> (case text_value (ry_kind payload) of Some kind \<Rightarrow> kind | None \<Rightarrow> unknown));
          trimmed = str_trim raw_name
      in if trimmed = [] then unknown else trimmed)"

definition tool_update_of :: "codex_line \<Rightarrow> tool_update option \<times> parser_diagnostic_code list" where
  "tool_update_of raw = (case rl_payload raw of
     None \<Rightarrow> (None, [])
   | Some payload \<Rightarrow>
       let payload_kind = text_value (ry_kind payload);
           line_kind = text_value (rl_kind raw)
       in case option_or payload_kind line_kind of
            None \<Rightarrow> (None, [])
          | Some discriminator \<Rightarrow>
              let recognized_kind = list_ex (contains_ascii_case_insensitive (utf8 discriminator))
                    [''function_call'', ''tool_call'', ''exec_command'', ''mcp''];
                  response_item_with_name = (text_is ''response_item'' line_kind
                    \<and> is_some_and (\<lambda>name. name \<noteq> []) (text_value (ry_name payload)))
              in if \<not> recognized_kind \<and> \<not> response_item_with_name then (None, [])
                 else
                   let codes = (if text_is_invalid (ry_name payload) then [Parser_InvalidMetadata] else []);
                       (safe_name, truncated) = truncate_utf8 (safe_tool_name payload) MAX_TOOL_NAME_BYTES
                   in (Some \<lparr> tl_name = safe_name, tl_activity = classify_tool (utf8 safe_name) \<rparr>,
                       codes @ (if truncated then [Parser_MetadataTruncated] else [])))"

section \<open>Usage\<close>

definition normalize_usage :: "codex_usage \<Rightarrow> token_usage \<times> parser_diagnostic_code list" where
  "normalize_usage raw =
     (let (input, codes_input) = first_token [ru_input_tokens raw, ru_prompt_tokens raw, ru_input raw];
          (cached, codes_cached) =
            first_token [ru_cached_input_tokens raw, ru_cache_read_input_tokens raw, ru_cached_tokens raw];
          (output, codes_output) = first_token [ru_output_tokens raw, ru_completion_tokens raw, ru_output raw];
          (reasoning, codes_reasoning) = first_token [ru_reasoning_output_tokens raw, ru_reasoning_tokens raw];
          (provider_total, codes_total) = first_token [ru_total_tokens raw];
          cached = (case (input, cached) of
              (Available input, Available cached) \<Rightarrow> Available (min cached input)
            | _ \<Rightarrow> Unavailable);
          from_parts = (case (input, output, reasoning) of
              (Available input, Available output, Available reasoning) \<Rightarrow>
                Available (saturating_add (saturating_add input output) reasoning)
            | _ \<Rightarrow> Unavailable);
          total_count = (case provider_total of
              Available value \<Rightarrow> if value > 0 then Available value else from_parts
            | Unavailable \<Rightarrow> from_parts)
      in (token_usage_new input cached output reasoning total_count,
          codes_input @ codes_cached @ codes_output @ codes_reasoning @ codes_total))"

definition codex_usage_is_positive :: "token_usage \<Rightarrow> bool" where
  "codex_usage_is_positive usage \<longleftrightarrow>
     list_ex (\<lambda>value. case value of Available n \<Rightarrow> n > 0 | Unavailable \<Rightarrow> False)
       [tu_input usage, tu_cached usage, tu_output usage, tu_reasoning usage, tu_total usage]"

definition subtract_count :: "token_count \<Rightarrow> token_count \<Rightarrow> token_count" where
  "subtract_count current previous = (case current of
     Unavailable \<Rightarrow> Unavailable
   | Available current \<Rightarrow> (case previous of
         Available previous \<Rightarrow>
           if current \<ge> previous then Available (saturating_sub current previous) else Available current
       | Unavailable \<Rightarrow> Available current))"

definition subtract_usage :: "token_usage \<Rightarrow> token_usage option \<Rightarrow> token_usage" where
  "subtract_usage current previous = (case previous of
     None \<Rightarrow> current
   | Some previous \<Rightarrow> token_usage_new
       (subtract_count (tu_input current) (tu_input previous))
       (subtract_count (tu_cached current) (tu_cached previous))
       (subtract_count (tu_output current) (tu_output previous))
       (subtract_count (tu_reasoning current) (tu_reasoning previous))
       (subtract_count (tu_total current) (tu_total previous)))"

record line_effect =
  le_timestamp :: "utc_timestamp option"
  le_model :: model_candidate
  le_usage :: token_usage
  le_baseline_update :: "token_usage option"
  le_model_includes_payload :: bool

definition effect_from_result :: "chrono \<Rightarrow> codex_line \<Rightarrow> codex_result \<Rightarrow> codex_usage
    \<Rightarrow> line_effect \<times> parser_diagnostic_code list" where
  "effect_from_result chrono raw result usage =
     (let (usage, codes) = normalize_usage usage
      in (\<lparr> le_timestamp = first_timestamp chrono
               [rx_timestamp result, rx_created_at result, rx_created_at_v2 result,
                rl_timestamp raw, rl_created_at raw, rl_created_at_v2 raw],
             le_model = first_model [rx_model result, rx_model_name result, rl_model raw, rl_model_name raw],
             le_usage = usage, le_baseline_update = None, le_model_includes_payload = False \<rparr>, codes))"

definition token_count_effect :: "chrono \<Rightarrow> codex_line \<Rightarrow> codex_payload \<Rightarrow> token_usage option
    \<Rightarrow> line_effect option \<times> parser_diagnostic_code list" where
  "token_count_effect chrono raw payload previous_totals = (case ry_info payload of
     None \<Rightarrow> (None, [])
   | Some info \<Rightarrow>
       let (baseline_update, codes) = (case ri_total_token_usage info of
               None \<Rightarrow> (None, [])
             | Some usage \<Rightarrow> let (usage, codes) = normalize_usage usage in (Some usage, codes));
           (usage, more) = (case ri_last_token_usage info of
               Some usage \<Rightarrow> let (usage, codes) = normalize_usage usage in (Some usage, codes)
             | None \<Rightarrow> (map_option (\<lambda>current. subtract_usage current previous_totals) baseline_update, []))
       in (case usage of
             None \<Rightarrow> None
           | Some usage \<Rightarrow> Some \<lparr>
               le_timestamp = first_timestamp chrono [rl_timestamp raw, rl_created_at raw, rl_created_at_v2 raw],
               le_model = first_model [ry_model payload, ry_model_name payload, ry_model_slug payload,
                 ry_model_id payload, ri_model info, ri_model_name info, ry_requested_model payload,
                 ry_default_model payload],
               le_usage = usage, le_baseline_update = baseline_update, le_model_includes_payload = True \<rparr>,
           codes @ more))"

definition line_effect_of :: "chrono \<Rightarrow> codex_line \<Rightarrow> token_usage option
    \<Rightarrow> line_effect option \<times> parser_diagnostic_code list" where
  "line_effect_of chrono raw previous_totals =
     (let token_count = (case rl_payload raw of
            Some payload \<Rightarrow>
              if text_is ''event_msg'' (text_value (rl_kind raw)) \<and> text_is ''token_count'' (text_value (ry_kind payload))
              then Some payload else None
          | None \<Rightarrow> None);
          result = option_or (option_or (rl_data raw) (rl_result raw)) (rl_response raw);
          result_usage = Option.bind result (\<lambda>r. map_option (Pair r) (rx_usage r))
      in case token_count of
           Some payload \<Rightarrow> token_count_effect chrono raw payload previous_totals
         | None \<Rightarrow> (case result_usage of
             Some (result, usage) \<Rightarrow> let (effect, codes) = effect_from_result chrono raw result usage in (Some effect, codes)
           | None \<Rightarrow> (case rl_usage raw of
               None \<Rightarrow> (None, [])
             | Some usage \<Rightarrow>
                 let (usage, codes) = normalize_usage usage
                 in (Some \<lparr> le_timestamp =
                        first_timestamp chrono [rl_timestamp raw, rl_created_at raw, rl_created_at_v2 raw],
                      le_model = first_model [rl_model raw, rl_model_name raw], le_usage = usage,
                      le_baseline_update = None, le_model_includes_payload = False \<rparr>, codes))))"

section \<open>One line\<close>

definition RELEVANCE_MARKERS :: "string list" where
  "RELEVANCE_MARKERS = [''token_count'', ''turn_context'', ''session_meta'', ''sessionMeta'',
     [CHR 0x22] @ ''usage'' @ [CHR 0x22], ''function_call'', ''tool_call'', ''exec_command'', ''mcp'']"

definition looks_relevant :: "u8 list \<Rightarrow> bool" where
  "looks_relevant line \<longleftrightarrow> 92 \<in> set line
     \<or> list_ex (\<lambda>marker. bytes_of marker \<in> set (windows (length marker) line)) RELEVANCE_MARKERS"

definition resolved_session_id :: "parse_context \<Rightarrow> parser_state \<Rightarrow> metadata_update \<Rightarrow> usage_session_id" where
  "resolved_session_id context state metadata = (case mu_session_id metadata of
     Some session \<Rightarrow> session
   | None \<Rightarrow> (case ps_session_id state of
       Some session \<Rightarrow> session
     | None \<Rightarrow> (case pc_filename_session_hint context of
         Some session \<Rightarrow> session
       | None \<Rightarrow> pc_hashed_session_hint context)))"

definition normalize_lineage_conflict :: "parser_state \<Rightarrow> usage_session_id \<Rightarrow> metadata_update \<Rightarrow> metadata_update" where
  "normalize_lineage_conflict state session_id metadata =
     (let incoming_parent = mu_parent_session_id metadata;
          effective_parent = option_or incoming_parent (ps_parent_session_id state)
      in metadata \<lparr> mu_lineage_conflict := mu_lineage_conflict metadata \<or> ps_lineage_conflict state
           \<or> effective_parent = Some session_id
           \<or> is_some_and (\<lambda>parent. is_some_and (\<lambda>existing. existing \<noteq> parent) (ps_parent_session_id state))
               incoming_parent \<rparr>)"

definition relation_draft :: "parse_context \<Rightarrow> metadata_update \<Rightarrow> usage_session_id \<Rightarrow> u64
    \<Rightarrow> session_relation_draft option" where
  "relation_draft context metadata session_id source_offset = (case mu_parent_session_id metadata of
     None \<Rightarrow> None
   | Some parent_session_id \<Rightarrow> (case session_relation_draft_new
         \<lparr> rel_provider_id = pc_provider_id context, rel_profile_id = pc_profile_id context,
           rel_session_id = session_id, rel_parent_session_id = parent_session_id,
           rel_declared_conflict = mu_lineage_conflict metadata, rel_source_id = pc_source_id context,
           rel_source_offset = source_offset \<rparr> of
       Inl _ \<Rightarrow> None | Inr relation \<Rightarrow> Some relation))"

definition record_repository_activity_hint :: "parse_context \<Rightarrow> metadata_update \<Rightarrow> usage_session_id
    \<Rightarrow> utc_timestamp option \<Rightarrow> parser_state \<Rightarrow> parser_state" where
  "record_repository_activity_hint context metadata session_id observed_at state = (case observed_at of
     None \<Rightarrow> state
   | Some observed_at \<Rightarrow>
       (case (case mu_repository_candidate metadata of
                Candidate_Missing \<Rightarrow>
                  map_option (\<lambda>candidate. (candidate, ps_repository_project state)) (ps_repository_candidate state)
              | Candidate_Set candidate \<Rightarrow> Some (candidate, mu_project metadata)
              | Candidate_Clear \<Rightarrow> None) of
          None \<Rightarrow> state
        | Some (candidate, project) \<Rightarrow> state \<lparr> ps_latest_repository_activity_hint := Some
            \<lparr> rh_provider_id = pc_provider_id context, rh_profile_id = pc_profile_id context,
              rh_source_id = pc_source_id context, rh_session_id = session_id, rh_observed_at = observed_at,
              rh_project = project, rh_candidate = candidate \<rparr> \<rparr>))"

text \<open>What the parser adds to the diagnostics.\<close>

definition record_codes :: "parser_diagnostic_code list \<Rightarrow> parser_diagnostics \<Rightarrow> parser_diagnostics" where
  "record_codes codes d = fold parser_record codes d"

definition record_emitted_event :: "parser_diagnostics \<Rightarrow> parser_diagnostics" where
  "record_emitted_event d = d \<lparr> pd_emitted_events := saturating_add (pd_emitted_events d) 1 \<rparr>"

definition record_metadata_line :: "parser_diagnostics \<Rightarrow> parser_diagnostics" where
  "record_metadata_line d = d \<lparr> pd_metadata_lines := saturating_add (pd_metadata_lines d) 1 \<rparr>"

definition record_tool_event :: "parser_diagnostics \<Rightarrow> parser_diagnostics" where
  "record_tool_event d = d \<lparr> pd_tool_events := saturating_add (pd_tool_events d) 1 \<rparr>"

type_synonym parsed = "parse_outcome \<times> parser_state \<times> (parser_diagnostics \<Rightarrow> parser_diagnostics)"

text \<open>Metadata and tool of a line, applied to the state: the tail the three ways through a line share.\<close>

definition apply_line :: "metadata_update \<Rightarrow> bool \<Rightarrow> tool_update option \<Rightarrow> parser_state
    \<Rightarrow> parser_state \<times> (parser_diagnostics \<Rightarrow> parser_diagnostics)" where
  "apply_line metadata metadata_line tool state =
     (let state = apply_metadata metadata state;
          note_metadata = (if metadata_line then record_metadata_line else id)
      in case tool of
           None \<Rightarrow> (state, note_metadata)
         | Some tool \<Rightarrow>
             let (state, codes) = record_tool (tl_name tool) (tl_activity tool) state
             in (state, record_tool_event \<circ> record_codes codes \<circ> note_metadata))"

definition parse_metadata_line :: "parse_env \<Rightarrow> parse_context \<Rightarrow> parser_state \<Rightarrow> u64 \<Rightarrow> codex_line \<Rightarrow> parsed" where
  "parse_metadata_line env context state source_offset raw =
     (let (metadata, codes_metadata) = metadata_update_of env raw True;
          session_id = resolved_session_id context state metadata;
          metadata = normalize_lineage_conflict state session_id metadata;
          relation = relation_draft context metadata session_id source_offset;
          metadata_only = has_updates metadata;
          (tool, codes_tool) = tool_update_of raw;
          state = record_repository_activity_hint context metadata session_id
            (first_timestamp (pe_chrono env) [rl_timestamp raw, rl_created_at raw, rl_created_at_v2 raw]) state;
          (state, notes) = apply_line metadata metadata_only tool state
      in (case relation of
            Some relation \<Rightarrow> Parse_SessionRelation relation
          | None \<Rightarrow> if tool \<noteq> None then Parse_ToolOnly else if metadata_only then Parse_MetadataOnly else Parse_Skipped,
          state, notes \<circ> record_codes (codes_metadata @ codes_tool)))"

definition update_baseline :: "token_usage option \<Rightarrow> parser_state \<Rightarrow> parser_state" where
  "update_baseline baseline_update state = (case baseline_update of
     None \<Rightarrow> state | Some usage \<Rightarrow> state \<lparr> ps_previous_totals := Some usage \<rparr>)"

definition long_context_of :: "token_usage \<Rightarrow> long_context_state" where
  "long_context_of usage = (case tu_input usage of
     Available value \<Rightarrow> if value > LONG_CONTEXT_THRESHOLD then LongContext_Yes else LongContext_No
   | Unavailable \<Rightarrow> LongContext_Unavailable)"

definition usage_draft :: "parse_context \<Rightarrow> parser_state \<Rightarrow> u64 \<Rightarrow> metadata_update \<Rightarrow> tool_update option
    \<Rightarrow> usage_session_id \<Rightarrow> utc_timestamp \<Rightarrow> resolved_model \<Rightarrow> line_effect \<Rightarrow> observation_draft" where
  "usage_draft context state source_offset metadata tool session_id timestamp model effect =
     \<lparr> obs_provider_id = pc_provider_id context, obs_profile_id = pc_profile_id context,
      obs_session_id = session_id,
      obs_parent_session_id = option_or (mu_parent_session_id metadata) (ps_parent_session_id state),
      obs_session_ordinal = ps_next_usage_ordinal state,
      obs_lineage_conflict = (mu_lineage_conflict metadata \<or> ps_lineage_conflict state),
      obs_source_id = pc_source_id context, obs_source_offset = source_offset,
      obs_source_verification = pc_source_verification context, obs_timestamp = timestamp,
      obs_model = rm_key model, obs_raw_model = map_option utf8 (rm_raw model),
      obs_delta_usage = le_usage effect, obs_cumulative_usage = le_baseline_update effect,
      obs_fallback_model = rm_fallback model, obs_long_context = long_context_of (le_usage effect),
      obs_service_tier = option_or (mu_service_tier metadata) (ps_service_tier state),
      obs_reported_cost = None, obs_project = option_or (mu_project metadata) (ps_project state),
      obs_originator = option_or (mu_originator metadata) (ps_originator state),
      obs_activity = (case tool of
          None \<Rightarrow> ps_pending_activity state
        | Some tool \<Rightarrow> activity_increment (ps_pending_activity state) (tl_activity tool)) \<rparr>"

text \<open>The state after an event was emitted.\<close>

definition emitted_state :: "parse_context \<Rightarrow> metadata_update \<Rightarrow> bool \<Rightarrow> tool_update option \<Rightarrow> usage_session_id
    \<Rightarrow> utc_timestamp \<Rightarrow> resolved_model \<Rightarrow> token_usage option \<Rightarrow> parser_state
    \<Rightarrow> parser_state \<times> (parser_diagnostics \<Rightarrow> parser_diagnostics)" where
  "emitted_state context metadata metadata_line tool session_id timestamp model baseline_update state =
     (let state = record_repository_activity_hint context metadata session_id (Some timestamp) state;
          (state, notes) = apply_line metadata metadata_line tool state;
          state = update_baseline baseline_update state
      in (state \<lparr> ps_current_model := Some model,
            ps_session_id := option_or (ps_session_id state) (Some session_id),
            ps_next_usage_ordinal := saturating_add (ps_next_usage_ordinal state) 1,
            ps_pending_activity := activity_default \<rparr>, notes))"

definition parse_usage_line :: "parse_env \<Rightarrow> parse_context \<Rightarrow> parser_state \<Rightarrow> u64 \<Rightarrow> codex_line
    \<Rightarrow> line_effect \<Rightarrow> parsed" where
  "parse_usage_line env context state source_offset raw effect = (case le_timestamp effect of
     None \<Rightarrow> (Parse_Rejected Parser_InvalidTimestamp, state, parser_record Parser_InvalidTimestamp)
   | Some timestamp \<Rightarrow>
       let usage_positive = codex_usage_is_positive (le_usage effect);
           include_metadata_model = (\<not> usage_positive
             \<or> (\<not> le_model_includes_payload effect \<and> mc_value (le_model effect) = None));
           (metadata, codes_metadata) = metadata_update_of env raw include_metadata_model;
           metadata_line = has_updates metadata;
           (tool, codes_tool) = tool_update_of raw;
           codes = codes_metadata @ codes_tool;
           session_id = resolved_session_id context state metadata
       in if \<not> usage_positive then
            let metadata = normalize_lineage_conflict state session_id metadata;
                (state, notes) = apply_line metadata metadata_line tool state;
                state = update_baseline (le_baseline_update effect) state
            in (Parse_Skipped, state, parser_record Parser_ZeroUsage \<circ> notes \<circ> record_codes codes)
          else
            let (model, codes_model) = resolve_model (pe_sha256 env) (mc_value (le_model effect))
                  (option_or (mu_current_model metadata) (ps_current_model state))
                  (mc_invalid_aliases (le_model effect));
                codes = codes @ codes_model
            in case model of
              None \<Rightarrow> (Parse_Rejected Parser_InvalidModel, state,
                parser_record Parser_InvalidModel \<circ> record_codes codes)
            | Some model \<Rightarrow>
                let metadata = normalize_lineage_conflict state session_id metadata
                in case observation_draft_new
                     (usage_draft context state source_offset metadata tool session_id timestamp model effect) of
                  Inl _ \<Rightarrow> (Parse_Rejected Parser_InvalidMetadata, state,
                    parser_record Parser_InvalidMetadata \<circ> record_codes codes)
                | Inr event \<Rightarrow>
                    let (state, notes) = emitted_state context metadata metadata_line tool session_id timestamp model
                          (le_baseline_update effect) state
                    in (Parse_Emitted event, state, record_emitted_event \<circ> notes \<circ> record_codes codes))"

definition parse_line :: "parse_env \<Rightarrow> parse_context \<Rightarrow> parser_state \<Rightarrow> u64 \<Rightarrow> u8 list \<Rightarrow> parsed" where
  "parse_line env context state source_offset complete_line =
     (if length complete_line > MAX_LINE_BYTES
      then (Parse_Rejected Parser_LineTooLarge, state, parser_record Parser_LineTooLarge \<circ> record_line)
      else if \<not> looks_relevant complete_line
      then (Parse_Skipped, state, parser_record Parser_Irrelevant \<circ> record_line)
      else case pe_from_slice env complete_line of
        None \<Rightarrow> (Parse_Rejected Parser_MalformedJson, state, parser_record Parser_MalformedJson \<circ> record_line)
      | Some wire \<Rightarrow>
          let raw = raw_line_of wire;
              (effect, codes) = line_effect_of (pe_chrono env) raw (ps_previous_totals state);
              (outcome, state, notes) = (case effect of
                  None \<Rightarrow> parse_metadata_line env context state source_offset raw
                | Some effect \<Rightarrow> parse_usage_line env context state source_offset raw effect)
          in (outcome, state, notes \<circ> record_codes codes \<circ> record_line))"

end
