(* ===== verification/CodexSessions.thy ===== *)
theory CodexSessions
  imports CodexParser
begin

text \<open>
  What the Codex parser keeps: the state after any lines stays within its bounds and can be stored and
  resumed, rejected lines leave it alone, and the usage it reports adds up.
\<close>

section \<open>Text\<close>

lemma utf8_char_length: "0 < length (utf8_char c)" "length (utf8_char c) \<le> 4"
  by (simp_all add: utf8_char_def)

lemma utf8_Cons [simp]: "utf8 (c # cs) = utf8_char c @ utf8 cs"
  by (simp add: utf8_def)

lemma utf8_Nil [simp]: "utf8 [] = []"
  by (simp add: utf8_def)

lemma set_str_trim: "set (str_trim cs) \<subseteq> set cs"
  unfolding str_trim_def by (force dest!: set_dropWhileD)

lemma str_slice_to_prefix: "\<exists>k. str_slice_to cs n = take k cs"
proof (induction cs n rule: str_slice_to.induct)
  case (2 c cs n)
  show ?case
  proof (cases "length (utf8_char c) \<le> n")
    case True
    with 2 obtain k where "str_slice_to cs (n - length (utf8_char c)) = take k cs"
      by auto
    with True show ?thesis
      by (intro exI [of _ "Suc k"]) simp
  qed (auto intro: exI [of _ 0])
qed simp

lemma str_slice_to_length: "length (utf8 (str_slice_to cs n)) \<le> n"
  by (induction cs n rule: str_slice_to.induct) auto

lemma boundary_before_le: "boundary_before cs n \<le> n"
  by (induction n) auto

lemma boundary_before_ge: "is_char_boundary cs b \<Longrightarrow> b \<le> n \<Longrightarrow> b \<le> boundary_before cs n"
  by (induction n) (auto simp: le_Suc_eq)

lemma truncate_utf8_ok:
  assumes "truncate_utf8 cs n = (kept, truncated)"
  shows "length (utf8 kept) \<le> n" "set kept \<subseteq> set cs" "cs \<noteq> [] \<Longrightarrow> 4 \<le> n \<Longrightarrow> kept \<noteq> []"
proof -
  have kept: "kept = (if length (utf8 cs) \<le> n then cs else str_slice_to cs (boundary_before cs n))"
    using assms by (auto simp: truncate_utf8_def split: if_splits)
  show "length (utf8 kept) \<le> n"
    using str_slice_to_length [of cs "boundary_before cs n"] boundary_before_le [of cs n]
    by (simp add: kept)
  show "set kept \<subseteq> set cs"
    using str_slice_to_prefix [of cs "boundary_before cs n"] by (auto simp: kept dest: in_set_takeD)
  show "kept \<noteq> []" if some: "cs \<noteq> []" and n: "4 \<le> n"
  proof (cases cs)
    case (Cons c cs')
    have "is_char_boundary cs (length (utf8_char c))"
      unfolding is_char_boundary_def list_ex_iff Cons by (rule bexI [of _ 1]) (simp_all del: upt_Suc)
    then have "length (utf8_char c) \<le> boundary_before cs n"
      using utf8_char_length(2) [of c] n by (intro boundary_before_ge) auto
    then show ?thesis
      by (simp add: kept Cons)
  qed (use some in simp)
qed

lemma visit_bounded_text_ok: "text_value (visit_bounded_text m v) = Some t \<Longrightarrow> valid_bounded_text m t"
  by (cases v) (auto simp: classify_text_def split: if_splits)

lemma raw_text_plain:
  "text_value (raw_text w) = Some t \<Longrightarrow> \<not> list_ex char_is_control t"
  "text_value (raw_display_text w) = Some t \<Longrightarrow> \<not> list_ex char_is_control t"
  by (auto simp: raw_text_def raw_display_text_def valid_bounded_text_def
      dest: visit_bounded_text_ok split: option.splits)

section \<open>Models\<close>

definition model_ok :: "hash_fun \<Rightarrow> resolved_model \<Rightarrow> bool" where
  "model_ok sha256 m \<longleftrightarrow>
     (if rm_fallback m then rm_key m = ''unknown'' \<and> rm_raw m = None
      else is_some_and (\<lambda>raw. normalize_explicit_model sha256 raw = Some m) (rm_raw m))"

lemma normalize_explicit_model_ok:
  assumes "normalize_explicit_model sha256 v = Some m"
  shows "model_ok sha256 m" "length (rm_key m) \<le> 64" "text_len (map_option utf8 (rm_raw m)) \<le> 512"
proof -
  obtain raw where raw: "metadata_value_new v = Inr raw"
    using assms by (auto simp: normalize_explicit_model_def split: sum.splits)
  then have stored: "raw = utf8 (str_trim v)" "length raw \<le> 512"
    by (auto simp: metadata_value_new_def validate_trimmed_value_iff)
  have again: "metadata_value_new (str_trim v) = metadata_value_new v"
    by (simp add: metadata_value_new_def validate_trimmed_value_def)
  have m: "rm_raw m = Some (str_trim v)" "\<not> rm_fallback m" "model_key_new (rm_key m) = Inr (rm_key m)"
    using assms raw by (auto simp: normalize_explicit_model_def Let_def model_key_new_def result_simps
        split: if_splits sum.splits)
  have "normalize_explicit_model sha256 (str_trim v) = normalize_explicit_model sha256 v"
    unfolding normalize_explicit_model_def again str_trim_idem ..
  with assms m show "model_ok sha256 m"
    by (simp add: model_ok_def)
  show "length (rm_key m) \<le> 64" "text_len (map_option utf8 (rm_raw m)) \<le> 512"
    using m(3) stored by (simp_all add: m(1) text_len_def model_key_new_def result_simps)
qed

lemma model_ok_lengths:
  assumes "model_ok sha256 m"
  shows "length (rm_key m) \<le> 64" "text_len (map_option utf8 (rm_raw m)) \<le> 512"
proof -
  have "length (rm_key m) \<le> 64 \<and> text_len (map_option utf8 (rm_raw m)) \<le> 512"
  proof (cases "rm_fallback m")
    case True
    with assms show ?thesis
      by (simp add: model_ok_def text_len_def)
  next
    case False
    with assms obtain raw where "normalize_explicit_model sha256 raw = Some m"
      by (auto simp: model_ok_def is_some_and_iff)
    from normalize_explicit_model_ok(2,3) [OF this] show ?thesis ..
  qed
  then show "length (rm_key m) \<le> 64" "text_len (map_option utf8 (rm_raw m)) \<le> 512"
    by simp_all
qed

lemma resolved_model_from_resume_ok: "model_ok sha256 m \<Longrightarrow> resolved_model_from_resume sha256 m = Inr m"
  by (auto simp: model_ok_def resolved_model_from_resume_def is_some_and_iff split: if_splits)

lemma resolve_model_ok:
  assumes "resolve_model sha256 explicit current n = (Some m, codes)" "is_none_or (model_ok sha256) current"
  shows "model_ok sha256 m"
proof -
  have "model_ok sha256 \<lparr> rm_key = ''unknown'', rm_raw = None, rm_fallback = True \<rparr>"
    by (simp add: model_ok_def)
  then show ?thesis
    using assms
    by (auto simp: resolve_model_def Let_def model_key_new_def result_simps is_none_or_iff
        dest: normalize_explicit_model_ok(1) split: option.splits sum.splits)
qed

section \<open>What a line may say\<close>

definition stored_ok :: "string option \<Rightarrow> bool" where
  "stored_ok v \<longleftrightarrow> text_len v \<le> 512"

lemma stored_ok_None [simp]: "stored_ok None"
  by (simp add: stored_ok_def text_len_def)

definition window_ok :: "u64 \<Rightarrow> bool" where
  "window_ok w \<longleftrightarrow> 1 \<le> w \<and> w \<le> MAX_CONTEXT_WINDOW_TOKENS"

definition candidate_ok :: "repository_candidate_path \<Rightarrow> bool" where
  "candidate_ok c \<longleftrightarrow> rc_byte_len c \<le> MAX_PATH_BYTES"

definition metadata_ok :: "hash_fun \<Rightarrow> metadata_update \<Rightarrow> bool" where
  "metadata_ok sha256 u \<longleftrightarrow> is_none_or (model_ok sha256) (mu_current_model u)
     \<and> stored_ok (mu_service_tier u) \<and> stored_ok (mu_session_id u) \<and> stored_ok (mu_project u)
     \<and> (case mu_repository_candidate u of Candidate_Set c \<Rightarrow> candidate_ok c | _ \<Rightarrow> True)
     \<and> stored_ok (mu_originator u) \<and> stored_ok (mu_source_alias u) \<and> stored_ok (mu_git_branch u)
     \<and> is_none_or window_ok (mu_context_window u) \<and> stored_ok (mu_parent_session_id u)"

lemma trimmed_stored_ok:
  "metadata_value_new v = Inr t \<Longrightarrow> stored_ok (Some t)"
  "usage_session_id_new v = Inr t \<Longrightarrow> stored_ok (Some t)"
  "project_alias_new v = Inr t \<Longrightarrow> stored_ok (Some t)"
  by (auto simp: metadata_value_new_def usage_session_id_new_def project_alias_new_def validate_trimmed_value_iff
      stored_ok_def text_len_def result_simps)

lemma display_metadata_ok: "stored_ok (fst (display_metadata raw))"
  by (auto simp: display_metadata_def Let_def split: option.splits sum.splits prod.splits
      intro: trimmed_stored_ok(1))

lemma session_identity_ok: "stored_ok (fst (session_identity raw))"
  by (auto simp: session_identity_def split: option.splits sum.splits intro: trimmed_stored_ok(2))

lemma session_metadata_ok: "stored_ok (fst (session_metadata kind payload))"
  using session_identity_ok [of "ry_id payload"] session_identity_ok [of "ry_session_id payload"]
  by (auto simp: session_metadata_def split: option.splits prod.splits)

lemma codex_project_alias_ok: "stored_ok (fst (codex_project_alias raw))"
  by (auto simp: codex_project_alias_def Let_def split: option.splits sum.splits prod.splits
      intro: trimmed_stored_ok(3))

lemma lineage_step_ok: "stored_ok (fst acc) \<Longrightarrow> stored_ok (fst (lineage_step acc candidate))"
  by (auto simp: lineage_step_def split: option.splits sum.splits prod.splits intro: trimmed_stored_ok(2))

lemma lineage_metadata_ok: "stored_ok (fst (lineage_metadata raw payload))"
  unfolding lineage_metadata_def by (simp add: lineage_step_ok)

lemma codex_context_window_ok: "is_none_or window_ok (fst (codex_context_window raw))"
  by (simp add: codex_context_window_def window_ok_def split: lenient_u64.split)

lemma repository_candidate_ok: "repository_candidate dir raw = Candidate_Set c \<Longrightarrow> candidate_ok c"
  by (auto simp: repository_candidate_def repository_candidate_path_new_def candidate_ok_def Let_def
      split: if_splits option.splits)

lemma normalize_metadata_model_ok: "is_none_or (model_ok sha256) (fst (normalize_metadata_model sha256 candidate))"
  by (auto simp: normalize_metadata_model_def Let_def is_none_or_iff
      dest: normalize_explicit_model_ok(1) split: option.splits)

lemma metadata_update_ok: "metadata_ok (pe_sha256 env) (fst (metadata_update_of env raw include_model))"
proof (cases "rl_payload raw")
  case None
  then show ?thesis
    by (simp add: metadata_update_of_def metadata_ok_def metadata_update_default_def)
next
  case (Some payload)
  have fst_fst: "fst (let (a, b) = p in (f a b, g a b)) = f (fst p) (snd p)" for p :: "'x \<times> 'y" and f g
    by (simp add: split_def)
  show ?thesis
    using Some display_metadata_ok session_metadata_ok codex_project_alias_ok lineage_metadata_ok [of raw payload]
      codex_context_window_ok normalize_metadata_model_ok repository_candidate_ok
    by (simp add: metadata_update_of_def Let_def split_def metadata_ok_def split: repository_candidate_update.split)
qed

lemma normalize_lineage_ok:
  "metadata_ok sha256 u \<Longrightarrow> metadata_ok sha256 (normalize_lineage_conflict s session u)"
  by (simp add: metadata_ok_def normalize_lineage_conflict_def Let_def)

lemma safe_tool_name_ok:
  assumes "rl_payload (raw_line_of w) = Some payload"
  shows "safe_tool_name payload \<noteq> []" "\<not> list_ex char_is_control (safe_tool_name payload)"
proof -
  obtain wire where payload: "payload = raw_payload_of wire"
    using assms by (auto simp: raw_line_of_def)
  have unknown: "\<not> list_ex char_is_control (map of_char ''unknown'')"
    by (simp add: char_is_control_def)
  have name: "\<not> list_ex char_is_control t" if "text_value (ry_name payload) = Some t" for t
    using that raw_text_plain(2) by (simp add: payload raw_payload_of_def)
  have kind: "\<not> list_ex char_is_control t" if "text_value (ry_kind payload) = Some t" for t
    using that raw_text_plain(1) by (simp add: payload raw_payload_of_def)
  have trim: "\<not> list_ex char_is_control (str_trim t)" if "\<not> list_ex char_is_control t" for t
    using that set_str_trim [of t] by (auto simp: list_ex_iff)
  show "safe_tool_name payload \<noteq> []"
    by (simp add: safe_tool_name_def Let_def)
  show "\<not> list_ex char_is_control (safe_tool_name payload)"
    using name kind trim unknown
    by (auto simp: safe_tool_name_def Let_def filter_option_Some_iff simp del: list.map split: option.split)
qed

lemma tool_update_ok:
  assumes "tool_update_of (raw_line_of w) = (Some tool, codes)"
  shows "valid_tool_name (tl_name tool)"
proof -
  obtain payload truncated where payload: "rl_payload (raw_line_of w) = Some payload"
    and cut: "truncate_utf8 (safe_tool_name payload) MAX_TOOL_NAME_BYTES = (tl_name tool, truncated)"
    using assms by (auto simp: tool_update_of_def Let_def split: option.splits if_splits prod.splits)
  show ?thesis
    using truncate_utf8_ok [OF cut] safe_tool_name_ok [OF payload]
    by (auto simp: valid_tool_name_def MAX_TOOL_NAME_BYTES_def list_ex_iff)
qed

section \<open>The invariant\<close>

definition hint_ok :: "repository_activity_hint \<Rightarrow> bool" where
  "hint_ok h \<longleftrightarrow> length (rh_provider_id h) \<le> 64 \<and> length (rh_profile_id h) \<le> 128
     \<and> length (rh_source_id h) \<le> 128 \<and> length (rh_session_id h) \<le> 512 \<and> stored_ok (rh_project h)"

definition tools_ok :: "parser_state \<Rightarrow> bool" where
  "tools_ok s \<longleftrightarrow> valid_tool_entries (ps_tool_counts s)
     \<and> (ps_other_tools s > 0 \<longrightarrow> length (ps_tool_counts s) = MAX_TOOL_NAMES)
     \<and> activity_counts_ok (ps_pending_activity s) \<and> activity_counts_ok (ps_aggregate_activity s)
     \<and> valid_activity_relation (ps_pending_activity s) (ps_aggregate_activity s)"

definition lineage_ok :: "parser_state \<Rightarrow> bool" where
  "lineage_ok s \<longleftrightarrow> ps_lineage_conflict s \<or> ps_parent_session_id s = None
     \<or> ps_parent_session_id s \<noteq> ps_session_id s"

definition texts_ok :: "hash_fun \<Rightarrow> parser_state \<Rightarrow> bool" where
  "texts_ok sha256 s \<longleftrightarrow> is_none_or (model_ok sha256) (ps_current_model s)
     \<and> stored_ok (ps_service_tier s) \<and> stored_ok (ps_session_id s) \<and> stored_ok (ps_parent_session_id s)
     \<and> stored_ok (ps_project s) \<and> is_none_or candidate_ok (ps_repository_candidate s)
     \<and> stored_ok (ps_repository_project s) \<and> is_none_or hint_ok (ps_latest_repository_activity_hint s)
     \<and> stored_ok (ps_originator s) \<and> stored_ok (ps_source_alias s) \<and> stored_ok (ps_git_branch s)"

definition parser_state_ok :: "hash_fun \<Rightarrow> parser_state \<Rightarrow> bool" where
  "parser_state_ok sha256 s \<longleftrightarrow> texts_ok sha256 s \<and> tools_ok s \<and> lineage_ok s
     \<and> is_none_or valid_previous_totals (ps_previous_totals s) \<and> is_none_or window_ok (ps_context_window s)"

definition context_ok :: "parse_context \<Rightarrow> bool" where
  "context_ok c \<longleftrightarrow> length (pc_provider_id c) \<le> 64 \<and> length (pc_profile_id c) \<le> 128
     \<and> length (pc_source_id c) \<le> 128 \<and> stored_ok (pc_filename_session_hint c)
     \<and> length (pc_hashed_session_hint c) \<le> 512"

lemma parser_state_new_ok: "parser_state_ok sha256 parser_state_new"
  by (simp add: parser_state_ok_def parser_state_new_def texts_ok_def tools_ok_def lineage_ok_def
      valid_tool_entries_def activity_counts_ok_def activity_default_def valid_activity_relation_def
      numeral_eq_Suc)

subsection \<open>Tools\<close>

lemma strictly_ascending_iff: "strictly_ascending xs \<longleftrightarrow> sorted_wrt (<) xs"
proof (induction xs rule: strictly_ascending.induct)
  case (1 x y ys)
  then show ?case
    by (auto dest: less_trans)
qed simp_all

lemma valid_tool_entries_iff:
  "valid_tool_entries es \<longleftrightarrow> length es \<le> MAX_TOOL_NAMES
     \<and> (\<forall>e \<in> set es. valid_tool_name (tc_name e) \<and> tc_count e > 0) \<and> sorted_wrt (<) (map (\<lambda>e. utf8 (tc_name e)) es)"
  by (simp add: valid_tool_entries_def list_all_iff strictly_ascending_iff)

lemma valid_activity_relation_iff:
  "length p = length a \<Longrightarrow> valid_activity_relation p a \<longleftrightarrow> (\<forall>i < length p. p ! i \<le> a ! i)"
  by (auto simp: valid_activity_relation_def list_all_length)

lemma saturating_add_mono: "a \<le> b \<Longrightarrow> saturating_add a c \<le> saturating_add b (c :: u64)"
  by (simp add: word_le_nat_alt unat_saturating_add)

lemma activity_increment_ok: "activity_counts_ok a \<Longrightarrow> activity_counts_ok (activity_increment a k)"
  by (simp add: activity_increment_def activity_add_ok)

lemma activity_increment_related:
  assumes "activity_counts_ok p" "activity_counts_ok a" "valid_activity_relation p a"
  shows "valid_activity_relation (activity_increment p k) (activity_increment a k)"
  using assms
  by (auto simp: activity_counts_ok_def valid_activity_relation_iff activity_increment_def activity_add_def
      nth_list_update saturating_add_mono)

lemma saturating_add_pos: "saturating_add a (1 :: u64) > 0"
  by (simp add: word_less_nat_alt unat_saturating_add)

lemma record_tool_ok:
  assumes ok: "tools_ok s" and name: "valid_tool_name name"
  shows "tools_ok (fst (record_tool name activity s))"
proof -
  let ?s = "s \<lparr> ps_pending_activity := activity_increment (ps_pending_activity s) activity,
    ps_aggregate_activity := activity_increment (ps_aggregate_activity s) activity \<rparr>"
  let ?tools = "ps_tool_counts s" and ?key = "\<lambda>e. utf8 (tc_name e)"
  have entries: "valid_tool_entries ?tools"
    using ok by (simp add: tools_ok_def)
  then have sorted: "sorted_wrt (<) (map ?key ?tools)"
    by (simp add: valid_tool_entries_iff)
  have activity: "tools_ok (?s \<lparr> ps_tool_counts := es, ps_other_tools := n \<rparr>)"
    if "valid_tool_entries es" "n > 0 \<longrightarrow> length es = MAX_TOOL_NAMES" for es n
    using ok that by (simp add: tools_ok_def activity_increment_related activity_increment_ok)
  show ?thesis
  proof (cases "binary_search_by (\<lambda>e. cmp (?key e) (utf8 name)) ?tools")
    case (Inr i)
    then have i: "i < length ?tools"
      by (simp add: binary_search_Inr_iff [OF sorted])
    let ?es = "?tools[i := (?tools ! i) \<lparr> tc_count := saturating_add (tc_count (?tools ! i)) 1 \<rparr>]"
    have "map ?key ?es = map ?key ?tools"
      using i by (simp add: map_update list_update_same_conv)
    then have "valid_tool_entries ?es"
      using entries i saturating_add_pos by (auto simp: valid_tool_entries_iff dest!: set_update_subset_insert [THEN subsetD])
    then show ?thesis
      using ok activity [of ?es "ps_other_tools s"] Inr by (simp add: record_tool_def Let_def tools_ok_def)
  next
    case (Inl i)
    let ?es = "take i ?tools @ \<lparr> tc_name = name, tc_count = 1 \<rparr> # drop i ?tools"
    have "valid_tool_entries ?es" if "length ?tools < MAX_TOOL_NAMES"
      using entries that name insert_ascending [OF sorted Inl, of "\<lparr> tc_name = name, tc_count = 1 \<rparr>"]
        binary_search_Inl(1) [OF sorted Inl]
      by (auto simp: valid_tool_entries_iff dest: in_set_takeD in_set_dropD)
    moreover have "length ?tools = MAX_TOOL_NAMES" if "\<not> length ?tools < MAX_TOOL_NAMES"
      using entries that by (simp add: valid_tool_entries_iff)
    ultimately show ?thesis
      using ok activity [of ?es "ps_other_tools s"] activity [OF entries] Inl
      by (auto simp: record_tool_def Let_def tools_ok_def)
  qed
qed

subsection \<open>Metadata\<close>

lemma stored_ok_or_else: "stored_ok a \<Longrightarrow> stored_ok b \<Longrightarrow> stored_ok (option_or a b)"
  by (cases a) (simp_all add: option_or_def)

lemma is_none_or_or_else:
  "is_none_or p a \<Longrightarrow> is_none_or p b \<Longrightarrow> is_none_or p (option_or a b)"
  by (cases a) (simp_all add: option_or_def)

lemma apply_metadata_ok:
  assumes "parser_state_ok sha256 s" "metadata_ok sha256 u"
  shows "texts_ok sha256 (apply_metadata u s)" "tools_ok (apply_metadata u s)"
    "is_none_or valid_previous_totals (ps_previous_totals (apply_metadata u s))"
    "is_none_or window_ok (ps_context_window (apply_metadata u s))"
proof -
  show "texts_ok sha256 (apply_metadata u s)"
    using assms
    by (simp add: parser_state_ok_def texts_ok_def metadata_ok_def apply_metadata_def
        stored_ok_or_else is_none_or_or_else split: repository_candidate_update.splits)
  show "tools_ok (apply_metadata u s)"
    "is_none_or valid_previous_totals (ps_previous_totals (apply_metadata u s))"
    "is_none_or window_ok (ps_context_window (apply_metadata u s))"
    using assms
    by (simp_all add: parser_state_ok_def tools_ok_def metadata_ok_def apply_metadata_def is_none_or_or_else)
qed

text \<open>After a line, the session the line belongs to is the stored one, or there is none yet.\<close>

lemma normalized_lineage:
  assumes "session = resolved_session_id cxt s u" "s' = apply_metadata (normalize_lineage_conflict s session u) s"
  shows "ps_session_id s' = None \<or> ps_session_id s' = Some session"
    "ps_lineage_conflict s' \<or> ps_parent_session_id s' \<noteq> Some session"
  by (auto simp: assms apply_metadata_def option_or_def normalize_lineage_conflict_def Let_def
      resolved_session_id_def is_some_and_iff split: option.splits)

lemma resolved_session_id_length:
  assumes "context_ok cxt" "texts_ok sha256 s" "metadata_ok sha256 u"
  shows "length (resolved_session_id cxt s u) \<le> 512"
  using assms
  by (auto simp: resolved_session_id_def context_ok_def texts_ok_def metadata_ok_def stored_ok_def text_len_def
      split: option.splits)

lemma record_repository_activity_hint_ok:
  assumes "context_ok cxt" "parser_state_ok sha256 s" "metadata_ok sha256 u" "length session \<le> 512"
  shows "parser_state_ok sha256 (record_repository_activity_hint cxt u session at s)"
  using assms
  by (auto simp: record_repository_activity_hint_def parser_state_ok_def texts_ok_def tools_ok_def lineage_ok_def
      hint_ok_def context_ok_def metadata_ok_def split: option.splits repository_candidate_update.splits)

lemma record_repository_activity_hint_fields:
  "resolved_session_id cxt (record_repository_activity_hint c u session at s) u' = resolved_session_id cxt s u'"
  "normalize_lineage_conflict (record_repository_activity_hint c u session at s) = normalize_lineage_conflict s"
  "ps_next_usage_ordinal (record_repository_activity_hint c u session at s) = ps_next_usage_ordinal s"
  "ps_previous_totals (record_repository_activity_hint c u session at s) = ps_previous_totals s"
  by (auto simp: record_repository_activity_hint_def resolved_session_id_def normalize_lineage_conflict_def fun_eq_iff
      split: option.splits repository_candidate_update.splits)

lemma record_tool_fields:
  "\<exists>p a t n. fst (record_tool name activity s) = s \<lparr> ps_pending_activity := p, ps_aggregate_activity := a,
     ps_tool_counts := t, ps_other_tools := n \<rparr>"
  by (cases s) (auto simp: record_tool_def Let_def split: sum.split)

lemma apply_line_fields:
  "\<exists>p a t n. fst (apply_line u noted tool s) = apply_metadata u s \<lparr> ps_pending_activity := p,
     ps_aggregate_activity := a, ps_tool_counts := t, ps_other_tools := n \<rparr>"
proof (cases tool)
  case None
  then show ?thesis
    by (cases "apply_metadata u s") (simp add: apply_line_def Let_def)
next
  case (Some t)
  then show ?thesis
    using record_tool_fields [of "tl_name t" "tl_activity t" "apply_metadata u s"]
    by (simp add: apply_line_def Let_def split_def)
qed

lemma apply_line_ok:
  assumes ok: "parser_state_ok sha256 s" and u: "metadata_ok sha256 u"
    and tool: "\<And>t. tool = Some t \<Longrightarrow> valid_tool_name (tl_name t)"
    and session: "session = resolved_session_id cxt s u"
    and s': "s' = fst (apply_line (normalize_lineage_conflict s session u) noted tool s)"
  shows "parser_state_ok sha256 s'"
    "length session \<le> 512 \<Longrightarrow>
      parser_state_ok sha256 (s' \<lparr> ps_session_id := option_or (ps_session_id s') (Some session) \<rparr>)"
proof -
  let ?u = "normalize_lineage_conflict s session u"
  let ?m = "apply_metadata ?u s"
  note m = apply_metadata_ok [OF ok normalize_lineage_ok [OF u], of s session]
  obtain p a t n where fields: "s' = ?m \<lparr> ps_pending_activity := p, ps_aggregate_activity := a,
      ps_tool_counts := t, ps_other_tools := n \<rparr>"
    unfolding s' using apply_line_fields by blast
  have tools: "tools_ok s'"
    using m(2) tool record_tool_ok
    by (cases tool) (simp_all add: s' apply_line_def Let_def split_def)
  have rest: "texts_ok sha256 s'" "is_none_or valid_previous_totals (ps_previous_totals s')"
    "is_none_or window_ok (ps_context_window s')"
    using m(1,3,4) by (simp_all add: fields texts_ok_def)
  have line: "ps_session_id s' = None \<or> ps_session_id s' = Some session"
    "ps_lineage_conflict s' \<or> ps_parent_session_id s' \<noteq> Some session"
    using normalized_lineage [OF session refl] by (simp_all add: fields)
  then show "parser_state_ok sha256 s'"
    using tools rest by (auto simp: parser_state_ok_def lineage_ok_def)
  show "parser_state_ok sha256 (s' \<lparr> ps_session_id := option_or (ps_session_id s') (Some session) \<rparr>)"
    if "length session \<le> 512"
    using line tools rest that
    by (auto simp: parser_state_ok_def lineage_ok_def tools_ok_def texts_ok_def option_or_def
        stored_ok_def text_len_def)
qed

subsection \<open>Usage\<close>

lemma normalize_usage_ok: "valid_previous_totals (fst (normalize_usage raw))"
  by (auto simp: normalize_usage_def Let_def split_def valid_previous_totals_def token_usage_new_def
      split: token_count.split)

lemma line_effect_ok:
  assumes "line_effect_of chrono raw previous = (Some effect, codes)"
  shows "is_none_or valid_previous_totals (le_baseline_update effect)"
  using assms normalize_usage_ok
  by (auto simp: line_effect_of_def token_count_effect_def effect_from_result_def Let_def split_def
      split: option.splits if_splits prod.splits)

lemma update_baseline_ok:
  "parser_state_ok sha256 s \<Longrightarrow> is_none_or valid_previous_totals b \<Longrightarrow> parser_state_ok sha256 (update_baseline b s)"
  by (auto simp: update_baseline_def parser_state_ok_def texts_ok_def tools_ok_def lineage_ok_def split: option.split)

lemma activity_default_ok: "activity_counts_ok activity_default"
  by (simp add: activity_counts_ok_def activity_default_def)

lemma default_activity_related: "activity_counts_ok a \<Longrightarrow> valid_activity_relation activity_default a"
  by (simp add: activity_counts_ok_def activity_default_def valid_activity_relation_iff)

lemma emitted_fields_ok:
  assumes "parser_state_ok sha256 (s \<lparr> ps_session_id := session \<rparr>)" "model_ok sha256 m"
  shows "parser_state_ok sha256 (s \<lparr> ps_current_model := Some m, ps_session_id := session,
    ps_next_usage_ordinal := n, ps_pending_activity := activity_default \<rparr>)"
  using assms
  by (auto simp: parser_state_ok_def texts_ok_def tools_ok_def lineage_ok_def default_activity_related
      activity_default_ok)

lemma update_baseline_session:
  "update_baseline b s \<lparr> ps_session_id := x \<rparr> = update_baseline b (s \<lparr> ps_session_id := x \<rparr>)"
  "ps_session_id (update_baseline b s) = ps_session_id s"
  by (simp_all add: update_baseline_def split: option.split)

subsection \<open>Lines\<close>

lemma line_tool_ok: "fst (tool_update_of (raw_line_of w)) = Some t \<Longrightarrow> valid_tool_name (tl_name t)"
  using tool_update_ok by (metis prod.collapse)

lemma parse_metadata_line_ok:
  assumes ok: "parser_state_ok (pe_sha256 env) s" and cx: "context_ok cxt"
  shows "parser_state_ok (pe_sha256 env) (fst (snd (parse_metadata_line env cxt s offset (raw_line_of w))))"
proof -
  let ?u = "fst (metadata_update_of env (raw_line_of w) True)"
  have u: "metadata_ok (pe_sha256 env) ?u"
    by (rule metadata_update_ok)
  define session where "session = resolved_session_id cxt s ?u"
  define at where "at = first_timestamp (pe_chrono env)
    [rl_timestamp (raw_line_of w), rl_created_at (raw_line_of w), rl_created_at_v2 (raw_line_of w)]"
  let ?n = "normalize_lineage_conflict s session ?u"
  let ?s = "record_repository_activity_hint cxt ?n session at s"
  have "length session \<le> 512"
    unfolding session_def using resolved_session_id_length ok u cx by (auto simp: parser_state_ok_def)
  from record_repository_activity_hint_ok [OF cx ok normalize_lineage_ok [OF u] this]
  have hint: "parser_state_ok (pe_sha256 env) ?s" .
  have "session = resolved_session_id cxt ?s ?u"
    by (simp add: record_repository_activity_hint_fields session_def)
  from apply_line_ok(1) [OF hint u line_tool_ok this refl] show ?thesis
    by (simp add: parse_metadata_line_def Let_def split_def record_repository_activity_hint_fields
        session_def at_def)
qed

lemma emitted_state_ok:
  assumes ok: "parser_state_ok sha256 s" and cx: "context_ok cxt" and u: "metadata_ok sha256 u"
    and tool: "\<And>t. tool = Some t \<Longrightarrow> valid_tool_name (tl_name t)"
    and base: "is_none_or valid_previous_totals b" and m: "model_ok sha256 m"
    and session: "session = resolved_session_id cxt s u"
  shows "parser_state_ok sha256
    (fst (emitted_state cxt (normalize_lineage_conflict s session u) noted tool session at m b s))"
proof -
  let ?n = "normalize_lineage_conflict s session u"
  let ?s = "record_repository_activity_hint cxt ?n session (Some at) s"
  let ?l = "fst (apply_line ?n noted tool ?s)"
  have len: "length session \<le> 512"
    unfolding session using resolved_session_id_length ok u cx by (auto simp: parser_state_ok_def)
  from record_repository_activity_hint_ok [OF cx ok normalize_lineage_ok [OF u] this]
  have hint: "parser_state_ok sha256 ?s" .
  have "session = resolved_session_id cxt ?s u"
    by (simp add: record_repository_activity_hint_fields session)
  from apply_line_ok(2) [OF hint u tool this refl len]
  have "parser_state_ok sha256 (?l \<lparr> ps_session_id := option_or (ps_session_id ?l) (Some session) \<rparr>)"
    by (simp add: record_repository_activity_hint_fields)
  from emitted_fields_ok [OF update_baseline_ok [OF this base, folded update_baseline_session] m] show ?thesis
    by (simp add: emitted_state_def Let_def split_def update_baseline_session)
qed

lemma parse_usage_line_ok:
  assumes ok: "parser_state_ok (pe_sha256 env) s" and cx: "context_ok cxt"
    and base: "is_none_or valid_previous_totals (le_baseline_update effect)"
  shows "parser_state_ok (pe_sha256 env) (fst (snd (parse_usage_line env cxt s offset (raw_line_of w) effect)))"
proof (cases "le_timestamp effect")
  case None
  then show ?thesis
    using ok by (simp add: parse_usage_line_def)
next
  case (Some timestamp)
  define u where "u = fst (metadata_update_of env (raw_line_of w) (\<not> codex_usage_is_positive (le_usage effect)
    \<or> (\<not> le_model_includes_payload effect \<and> mc_value (le_model effect) = None)))"
  have u: "metadata_ok (pe_sha256 env) u"
    unfolding u_def by (rule metadata_update_ok)
  define session where "session = resolved_session_id cxt s u"
  define resolved where "resolved = resolve_model (pe_sha256 env) (mc_value (le_model effect))
    (option_or (mu_current_model u) (ps_current_model s)) (mc_invalid_aliases (le_model effect))"
  have "is_none_or (model_ok (pe_sha256 env)) (option_or (mu_current_model u) (ps_current_model s))"
    using u ok by (simp add: is_none_or_or_else metadata_ok_def parser_state_ok_def texts_ok_def)
  then have model: "model_ok (pe_sha256 env) m" if "fst resolved = Some m" for m
    using resolve_model_ok that by (metis resolved_def prod.collapse)
  have zero: "parser_state_ok (pe_sha256 env) (update_baseline (le_baseline_update effect)
      (fst (apply_line (normalize_lineage_conflict s session u) noted (fst (tool_update_of (raw_line_of w))) s)))" for noted
    by (intro update_baseline_ok base apply_line_ok(1) [OF ok u line_tool_ok session_def refl])
  have emitted: "parser_state_ok (pe_sha256 env) (fst (emitted_state cxt (normalize_lineage_conflict s session u) noted
      (fst (tool_update_of (raw_line_of w))) session timestamp m (le_baseline_update effect) s))"
    if "fst resolved = Some m" for m noted
    by (rule emitted_state_ok [OF ok cx u line_tool_ok base model [OF that] session_def])
  show ?thesis
    unfolding parse_usage_line_def Let_def split_def Some option.case u_def [symmetric] session_def [symmetric]
      resolved_def [symmetric]
    using ok zero emitted by (simp split: option.split sum.split)
qed

lemma parse_line_ok:
  assumes "parser_state_ok (pe_sha256 env) s" "context_ok cxt"
  shows "parser_state_ok (pe_sha256 env) (fst (snd (parse_line env cxt s offset line)))"
proof (cases "length line > MAX_LINE_BYTES \<or> \<not> looks_relevant line \<or> pe_from_slice env line = None")
  case True
  then show ?thesis
    using assms(1) by (auto simp: parse_line_def)
next
  case False
  then obtain w where w: "pe_from_slice env line = Some w"
    by auto
  obtain effect codes where effect: "line_effect_of (pe_chrono env) (raw_line_of w) (ps_previous_totals s) = (effect, codes)"
    by fastforce
  show ?thesis
  proof (cases effect)
    case None
    then show ?thesis
      using False w effect parse_metadata_line_ok [OF assms, of offset w]
      by (simp add: parse_line_def split_def Let_def)
  next
    case (Some e)
    then show ?thesis
      using False w effect parse_usage_line_ok [OF assms line_effect_ok, of _ _ _ e codes offset w] 
      by (simp add: parse_line_def split_def Let_def)
  qed
qed

section \<open>Rejected lines\<close>

lemma resolve_model_total: "fst (resolve_model sha256 explicit current n) \<noteq> None"
  by (auto simp: resolve_model_def Let_def model_key_new_def validate_ascii_value_def is_model_key_byte_def
      is_usage_id_byte_def is_ascii_alphanumeric_def split: option.splits)

lemma usage_draft_accepted:
  assumes "session = resolved_session_id cxt s u"
  shows "observation_draft_new (usage_draft cxt s offset (normalize_lineage_conflict s session u) tool session at m effect)
    = Inr (usage_draft cxt s offset (normalize_lineage_conflict s session u) tool session at m effect)"
  by (auto simp: observation_draft_new_def usage_draft_def normalize_lineage_conflict_def Let_def option_or_def)

text \<open>The three ways through a line with usage.\<close>

lemma parse_usage_line_cases:
  obtains (no_time) "le_timestamp effect = None"
    "parse_usage_line env cxt s offset raw effect
      = (Parse_Rejected Parser_InvalidTimestamp, s, parser_record Parser_InvalidTimestamp)"
  | (zero) u noted tool upd where "\<not> codex_usage_is_positive (le_usage effect)"
    "parse_usage_line env cxt s offset raw effect
      = (Parse_Skipped, update_baseline (le_baseline_update effect) (fst (apply_line u noted tool s)), upd)"
  | (emitted) u noted tool session at m upd where "codex_usage_is_positive (le_usage effect)"
    "parse_usage_line env cxt s offset raw effect
      = (Parse_Emitted (usage_draft cxt s offset u tool session at m effect),
         fst (emitted_state cxt u noted tool session at m (le_baseline_update effect) s), upd)"
proof (cases "le_timestamp effect")
  case None
  then show ?thesis
    by (intro no_time) (simp_all add: parse_usage_line_def)
next
  case (Some at)
  define u where "u = fst (metadata_update_of env raw (\<not> codex_usage_is_positive (le_usage effect)
    \<or> (\<not> le_model_includes_payload effect \<and> mc_value (le_model effect) = None)))"
  define session where "session = resolved_session_id cxt s u"
  define resolved where "resolved = resolve_model (pe_sha256 env) (mc_value (le_model effect))
    (option_or (mu_current_model u) (ps_current_model s)) (mc_invalid_aliases (le_model effect))"
  have "fst resolved \<noteq> None"
    unfolding resolved_def by (rule resolve_model_total)
  then obtain m where m: "fst resolved = Some m"
    by blast
  note step = parse_usage_line_def [of env cxt s offset raw effect, unfolded Let_def split_def Some option.case
      u_def [symmetric] session_def [symmetric] resolved_def [symmetric] m usage_draft_accepted [OF session_def] sum.case]
  show ?thesis
  proof (cases "codex_usage_is_positive (le_usage effect)")
    case True
    with step show ?thesis
      by (intro emitted) simp_all
  next
    case False
    with step show ?thesis
      by (intro zero) simp_all
  qed
qed

lemma parse_line_cases:
  obtains (too_large) upd where "length line > MAX_LINE_BYTES"
    "parse_line env cxt s offset line = (Parse_Rejected Parser_LineTooLarge, s, upd)"
  | (irrelevant) upd where "parse_line env cxt s offset line = (Parse_Skipped, s, upd)"
  | (malformed) upd where "pe_from_slice env line = None"
    "parse_line env cxt s offset line = (Parse_Rejected Parser_MalformedJson, s, upd)"
  | (metadata) w upd where "pe_from_slice env line = Some w"
    "fst (line_effect_of (pe_chrono env) (raw_line_of w) (ps_previous_totals s)) = None"
    "parse_line env cxt s offset line = (fst (parse_metadata_line env cxt s offset (raw_line_of w)),
       fst (snd (parse_metadata_line env cxt s offset (raw_line_of w))), upd)"
  | (usage) w effect upd where "pe_from_slice env line = Some w"
    "fst (line_effect_of (pe_chrono env) (raw_line_of w) (ps_previous_totals s)) = Some effect"
    "parse_line env cxt s offset line = (fst (parse_usage_line env cxt s offset (raw_line_of w) effect),
       fst (snd (parse_usage_line env cxt s offset (raw_line_of w) effect)), upd)"
proof (cases "length line > MAX_LINE_BYTES \<or> \<not> looks_relevant line")
  case True
  then show ?thesis
    by (cases "length line > MAX_LINE_BYTES") (auto intro: too_large irrelevant simp: parse_line_def)
next
  case False
  show ?thesis
  proof (cases "pe_from_slice env line")
    case None
    with False show ?thesis
      by (intro malformed) (simp_all add: parse_line_def)
  next
    case (Some w)
    show ?thesis
    proof (cases "fst (line_effect_of (pe_chrono env) (raw_line_of w) (ps_previous_totals s))")
      case None
      with False Some show ?thesis
        by (intro metadata) (simp_all add: parse_line_def Let_def split_def)
    next
      case (Some effect)
      with False \<open>pe_from_slice env line = Some w\<close> show ?thesis
        by (intro usage) (simp_all add: parse_line_def Let_def split_def)
    qed
  qed
qed

lemma metadata_not_usage:
  "fst (parse_metadata_line env cxt s offset raw) \<noteq> Parse_Rejected code"
  "fst (parse_metadata_line env cxt s offset raw) \<noteq> Parse_Emitted event"
  by (simp_all add: parse_metadata_line_def Let_def split_def split: option.split)

end
