(* ===== verification/CodexRuns.thy ===== *)
theory CodexRuns
  imports CodexSessions "HOL-Library.Sublist"
begin

text \<open>
  Runs of the Codex parser over the lines of a source: the state can be stored and resumed after any of
  them, the events are numbered and placed, and cumulative totals are turned into deltas that add up.
\<close>

fun parse_lines :: "parse_env \<Rightarrow> parse_context \<Rightarrow> parser_state \<Rightarrow> (u64 \<times> u8 list) list
    \<Rightarrow> parse_outcome list \<times> parser_state" where
  "parse_lines env cxt s [] = ([], s)"
| "parse_lines env cxt s ((offset, line) # lines) =
     (let (outcome, s, _) = parse_line env cxt s offset line;
          (outcomes, s) = parse_lines env cxt s lines
      in (outcome # outcomes, s))"

fun emitted :: "parse_outcome list \<Rightarrow> observation_draft list" where
  "emitted [] = []"
| "emitted (Parse_Emitted event # outcomes) = event # emitted outcomes"
| "emitted (_ # outcomes) = emitted outcomes"

lemma parse_lines_ConsE:
  assumes "parse_lines env cxt s ((offset, line) # lines) = (outcomes, s')"
  obtains outcome s1 upd rest where "parse_line env cxt s offset line = (outcome, s1, upd)"
    "parse_lines env cxt s1 lines = (rest, s')" "outcomes = outcome # rest"
  using assms by (auto simp: Let_def split: prod.splits)

section \<open>Rejected lines\<close>

text \<open>
  C26. A line is only ever rejected because it is too large, is not JSON of the expected shape, or reports
  usage without a usable time; and a rejected line leaves the parser exactly as it was, so the next total
  is still compared with the last one that was accounted for.  In particular no usage is refused for want
  of a model or for a lineage that does not add up.
\<close>

theorem rejected_line_harmless:
  assumes "parse_line env cxt s offset line = (Parse_Rejected code, s', upd)"
  shows "s' = s \<and> code \<in> {Parser_LineTooLarge, Parser_MalformedJson, Parser_InvalidTimestamp}"
  using assms
proof (cases rule: parse_line_cases [of line env cxt s offset])
  case (metadata w upd')
  with assms metadata_not_usage(1) show ?thesis
    by (metis fst_conv)
next
  case (usage w effect upd')
  show ?thesis
    by (cases rule: parse_usage_line_cases [of effect env cxt s offset "raw_line_of w"])
      (use usage assms in auto)
qed auto

section \<open>Storing and resuming\<close>

text \<open>What is lost when a state is stored: the repository it was last seen in.\<close>

definition forget_repository :: "parser_state \<Rightarrow> parser_state" where
  "forget_repository s = s \<lparr> ps_repository_candidate := None, ps_repository_project := None,
     ps_latest_repository_activity_hint := None \<rparr>"

lemma tool_bytes_bound:
  assumes "valid_tool_entries es"
  shows "sum_list (map (\<lambda>e. length (utf8 (tc_name e))) es) \<le> 5120"
proof -
  have "sum_list (map (\<lambda>e. length (utf8 (tc_name e))) es) \<le> sum_list (map (\<lambda>_. 80) es)"
    using assms by (intro sum_list_mono) (auto simp: valid_tool_entries_iff valid_tool_name_def MAX_TOOL_NAME_BYTES_def)
  also have "\<dots> \<le> 5120"
    using assms by (simp add: sum_list_triv valid_tool_entries_iff MAX_TOOL_NAMES_def)
  finally show ?thesis .
qed

lemma retained_text_bounded:
  assumes "parser_state_ok sha256 s"
  shows "retained_text_bytes s \<le> MAX_RETAINED_TEXT_BYTES"
proof -
  have model: "(case ps_current_model s of None \<Rightarrow> 0
      | Some m \<Rightarrow> length (rm_key m) + text_len (map_option utf8 (rm_raw m))) \<le> 576"
    using assms model_ok_lengths [of sha256]
    by (fastforce simp: parser_state_ok_def texts_ok_def is_none_or_iff split: option.split)
  have candidate: "(case ps_repository_candidate s of None \<Rightarrow> 0 | Some c \<Rightarrow> rc_byte_len c) \<le> 4096"
    using assms by (auto simp: parser_state_ok_def texts_ok_def candidate_ok_def MAX_PATH_BYTES_def split: option.split)
  have hint: "(case ps_latest_repository_activity_hint s of None \<Rightarrow> 0
      | Some h \<Rightarrow> length (rh_provider_id h) + length (rh_profile_id h) + length (rh_source_id h)
          + length (rh_session_id h) + text_len (rh_project h)) \<le> 1344"
    using assms by (auto simp: parser_state_ok_def texts_ok_def hint_ok_def stored_ok_def split: option.split)
  have texts: "text_len (ps_service_tier s) \<le> 512" "text_len (ps_session_id s) \<le> 512"
    "text_len (ps_parent_session_id s) \<le> 512" "text_len (ps_project s) \<le> 512"
    "text_len (ps_repository_project s) \<le> 512" "text_len (ps_originator s) \<le> 512"
    "text_len (ps_source_alias s) \<le> 512" "text_len (ps_git_branch s) \<le> 512"
    using assms by (simp_all add: parser_state_ok_def texts_ok_def stored_ok_def)
  have "sum_list (map (\<lambda>e. length (utf8 (tc_name e))) (ps_tool_counts s)) \<le> 5120"
    using assms by (intro tool_bytes_bound) (simp add: parser_state_ok_def tools_ok_def)
  with model candidate hint texts show ?thesis
    unfolding retained_text_bytes_def MAX_RETAINED_TEXT_BYTES_def by linarith
qed

lemma resume_snapshot:
  assumes ok: "parser_state_ok sha256 s" and ordinal: "ps_next_usage_ordinal s \<le> i64_max_u64"
  shows "from_resume sha256 (parser_snapshot s) = Inr (forget_repository s)"
proof -
  have "parser_state_ok sha256 (forget_repository s)"
    using ok by (auto simp: forget_repository_def parser_state_ok_def texts_ok_def tools_ok_def lineage_ok_def)
  then have small: "\<not> retained_text_bytes (forget_repository s) > MAX_RETAINED_TEXT_BYTES"
    using retained_text_bounded by (simp add: not_less)
  have accepted: "\<not> resume_rejected (parser_snapshot s)"
    using ok ordinal
    by (auto simp: resume_rejected_def parser_snapshot_def parser_state_ok_def tools_ok_def lineage_ok_def
        window_ok_def is_none_or_iff is_some_and_iff not_less)
  have model: "(case ps_current_model s of None \<Rightarrow> Inr None
      | Some m \<Rightarrow> map_sum id Some (resolved_model_from_resume sha256 m)) = Inr (ps_current_model s)"
    using ok resolved_model_from_resume_ok
    by (auto simp: parser_state_ok_def texts_ok_def is_none_or_iff split: option.split)
  show ?thesis
    using accepted model small
    by (cases s) (simp add: from_resume_def parser_snapshot_def forget_repository_def Let_def)
qed

lemma parse_lines_ok:
  assumes "parser_state_ok (pe_sha256 env) s" "context_ok cxt"
  shows "parser_state_ok (pe_sha256 env) (snd (parse_lines env cxt s lines))"
  using assms(1)
proof (induction lines arbitrary: s)
  case (Cons l lines)
  obtain offset line where l: "l = (offset, line)"
    by fastforce
  show ?case
    using Cons.IH [OF parse_line_ok [OF Cons.prems assms(2)]] by (simp add: l Let_def split_def)
qed simp

lemma apply_line_kept:
  "ps_next_usage_ordinal (fst (apply_line u noted tool s)) = ps_next_usage_ordinal s"
  "ps_previous_totals (fst (apply_line u noted tool s)) = ps_previous_totals s"
  using apply_line_fields [of u noted tool s] by (auto simp: apply_metadata_def)

lemma parse_metadata_line_kept:
  "ps_next_usage_ordinal (fst (snd (parse_metadata_line env cxt s offset raw))) = ps_next_usage_ordinal s"
  "ps_previous_totals (fst (snd (parse_metadata_line env cxt s offset raw))) = ps_previous_totals s"
  by (simp_all add: parse_metadata_line_def Let_def split_def apply_line_kept record_repository_activity_hint_fields)

lemma update_baseline_fields:
  "ps_next_usage_ordinal (update_baseline b s) = ps_next_usage_ordinal s"
  "ps_previous_totals (update_baseline b s) = option_or b (ps_previous_totals s)"
  by (simp_all add: update_baseline_def option_or_def split: option.split)

lemma emitted_state_fields:
  "ps_next_usage_ordinal (fst (emitted_state cxt u noted tool session at m b s))
    = saturating_add (ps_next_usage_ordinal s) 1"
  "ps_previous_totals (fst (emitted_state cxt u noted tool session at m b s)) = option_or b (ps_previous_totals s)"
  by (simp_all add: emitted_state_def Let_def split_def update_baseline_fields apply_line_kept
      record_repository_activity_hint_fields)

lemma parse_line_ordinal:
  assumes "parse_line env cxt s offset line = (outcome, s', upd)"
  shows "(\<exists>e. outcome = Parse_Emitted e \<and> obs_session_ordinal e = ps_next_usage_ordinal s \<and> obs_source_offset e = offset
      \<and> ps_next_usage_ordinal s' = saturating_add (ps_next_usage_ordinal s) 1)
    \<or> ((\<forall>e. outcome \<noteq> Parse_Emitted e) \<and> ps_next_usage_ordinal s' = ps_next_usage_ordinal s)"
proof (cases rule: parse_line_cases [of line env cxt s offset])
  case (metadata w upd')
  with assms parse_metadata_line_kept(1) metadata_not_usage(2) show ?thesis
    by (metis fst_conv snd_conv)
next
  case (usage w effect upd')
  show ?thesis
    by (cases rule: parse_usage_line_cases [of effect env cxt s offset "raw_line_of w"])
      (use usage assms in \<open>auto simp: emitted_state_fields update_baseline_fields apply_line_kept usage_draft_def\<close>)
qed (use assms in auto)

lemma parse_lines_ordinal:
  assumes "parse_lines env cxt s lines = (outcomes, s')" "unat (ps_next_usage_ordinal s) + length lines < 2 ^ 64"
  shows "unat (ps_next_usage_ordinal s') = unat (ps_next_usage_ordinal s) + length (emitted outcomes)
    \<and> length (emitted outcomes) \<le> length lines
    \<and> map (unat \<circ> obs_session_ordinal) (emitted outcomes)
      = [unat (ps_next_usage_ordinal s) ..< unat (ps_next_usage_ordinal s) + length (emitted outcomes)]
    \<and> subseq (map obs_source_offset (emitted outcomes)) (map fst lines)"
  using assms
proof (induction lines arbitrary: s outcomes)
  case (Cons l lines)
  obtain offset line where l: "l = (offset, line)"
    by fastforce
  from Cons.prems(1) obtain outcome s1 upd rest where step: "parse_line env cxt s offset line = (outcome, s1, upd)"
    and run: "parse_lines env cxt s1 lines = (rest, s')" and outcomes: "outcomes = outcome # rest"
    unfolding l by (rule parse_lines_ConsE)
  consider (event) e where "outcome = Parse_Emitted e" "obs_session_ordinal e = ps_next_usage_ordinal s"
      "obs_source_offset e = offset" "ps_next_usage_ordinal s1 = saturating_add (ps_next_usage_ordinal s) 1"
    | (other) "emitted outcomes = emitted rest" "ps_next_usage_ordinal s1 = ps_next_usage_ordinal s"
    using parse_line_ordinal [OF step] outcomes by (cases outcome) auto
  then show ?case
  proof cases
    case event
    then have "unat (ps_next_usage_ordinal s1) = Suc (unat (ps_next_usage_ordinal s))"
      using Cons.prems(2) by (simp add: unat_saturating_add)
    with Cons.IH [OF run] Cons.prems(2) event outcomes l show ?thesis
      by (simp add: upt_conv_Cons del: upt_Suc)
  next
    case other
    with Cons.IH [OF run] Cons.prems(2) l show ?thesis
      by auto
  qed
qed simp

text \<open>
  C12. After any lines the parser's state can be stored and resumed: it never retains more text than
  the bound, which is attained exactly by the bounds of its parts, and the stored form passes every check
  of \<open>from_resume\<close> and gives the same state back, but for the repository last seen, which is not stored.
\<close>

theorem parser_resumable:
  assumes "context_ok cxt" "length lines < 2 ^ 63" "parse_lines env cxt parser_state_new lines = (outcomes, s)"
  shows "retained_text_bytes s \<le> MAX_RETAINED_TEXT_BYTES
    \<and> from_resume (pe_sha256 env) (parser_snapshot s) = Inr (forget_repository s)"
proof -
  have ok: "parser_state_ok (pe_sha256 env) s"
    using parse_lines_ok [OF parser_state_new_ok assms(1), of env lines] assms(3) by simp
  have "unat (ps_next_usage_ordinal s) \<le> length lines"
    using parse_lines_ordinal [OF assms(3)] assms(2) by (simp add: parser_state_new_def)
  then have "ps_next_usage_ordinal s \<le> i64_max_u64"
    using assms(2) by (simp add: word_le_nat_alt i64_max_u64_def)
  from retained_text_bounded [OF ok] resume_snapshot [OF ok this] show ?thesis ..
qed

text \<open>
  The events of a source are numbered without gap or repetition, in the order of their lines, and each
  carries the offset of the line it was read from.
\<close>

theorem events_numbered:
  assumes "length lines < 2 ^ 64" "parse_lines env cxt parser_state_new lines = (outcomes, s)"
  shows "map (unat \<circ> obs_session_ordinal) (emitted outcomes) = [0 ..< length (emitted outcomes)]
    \<and> subseq (map obs_source_offset (emitted outcomes)) (map fst lines)
    \<and> unat (ps_next_usage_ordinal s) = length (emitted outcomes)"
  using parse_lines_ordinal [OF assms(2)] assms(1) by (simp add: parser_state_new_def)

section \<open>Cumulative totals\<close>

definition tokens :: "token_count \<Rightarrow> nat" where
  "tokens c = (case c of Available n \<Rightarrow> unat n | Unavailable \<Rightarrow> 0)"

definition usage_fields :: "(token_usage \<Rightarrow> token_count) set" where
  "usage_fields = {tu_input, tu_cached, tu_output, tu_reasoning, tu_total}"

definition token_count_info :: "codex_line \<Rightarrow> codex_info option" where
  "token_count_info raw = Option.bind (rl_payload raw) (\<lambda>payload.
     if text_is ''event_msg'' (text_value (rl_kind raw)) \<and> text_is ''token_count'' (text_value (ry_kind payload))
     then ry_info payload else None)"

text \<open>The totals of a line that reports cumulative usage.\<close>

definition line_totals :: "parse_env \<Rightarrow> u8 list \<Rightarrow> token_usage option" where
  "line_totals env line = Option.bind (pe_from_slice env line) (\<lambda>w.
     Option.bind (token_count_info (raw_line_of w)) (\<lambda>info. map_option (fst \<circ> normalize_usage) (ri_total_token_usage info)))"

text \<open>A line that reports no usage at all, or a cumulative total and nothing else.\<close>

definition cumulative_only :: "parse_env \<Rightarrow> u8 list \<Rightarrow> bool" where
  "cumulative_only env line \<longleftrightarrow> is_none_or (\<lambda>w. case token_count_info (raw_line_of w) of
       Some info \<Rightarrow> ri_last_token_usage info = None
     | None \<Rightarrow> fst (line_effect_of (pe_chrono env) (raw_line_of w) None) = None) (pe_from_slice env line)"

fun run_totals :: "parse_env \<Rightarrow> (u64 \<times> u8 list) list \<Rightarrow> token_usage list" where
  "run_totals env [] = []"
| "run_totals env ((offset, line) # lines) = (case line_totals env line of
     None \<Rightarrow> run_totals env lines
   | Some t \<Rightarrow> t # run_totals env lines)"

lemma token_count_info_effect:
  assumes "token_count_info raw = Some info" "ri_last_token_usage info = None"
  shows "\<exists>at m. fst (line_effect_of chrono raw previous) = map_option (\<lambda>u. \<lparr> le_timestamp = at, le_model = m,
    le_usage = subtract_usage (fst (normalize_usage u)) previous,
    le_baseline_update = Some (fst (normalize_usage u)), le_model_includes_payload = True \<rparr>) (ri_total_token_usage info)"
  using assms
  by (cases "ri_total_token_usage info")
    (auto simp: token_count_info_def line_effect_of_def token_count_effect_def Let_def split_def bind_eq_Some_conv
      simp del: first_timestamp.simps split: if_splits)

lemma no_token_count_effect:
  "token_count_info raw = None \<Longrightarrow> fst (line_effect_of chrono raw previous) = fst (line_effect_of chrono raw None)"
  by (auto simp: token_count_info_def line_effect_of_def token_count_effect_def Let_def bind_eq_None_conv
      simp del: first_timestamp.simps split: option.splits if_splits)

lemma cumulative_effect:
  assumes "cumulative_only env line" "pe_from_slice env line = Some w"
    "fst (line_effect_of (pe_chrono env) (raw_line_of w) previous) = Some effect"
  shows "\<exists>t. line_totals env line = Some t \<and> le_baseline_update effect = Some t \<and> le_usage effect = subtract_usage t previous"
proof (cases "token_count_info (raw_line_of w)")
  case None
  with assms no_token_count_effect [OF None, of "pe_chrono env" previous] show ?thesis
    by (simp add: cumulative_only_def)
next
  case (Some info)
  with assms(1,2) have "ri_last_token_usage info = None"
    by (simp add: cumulative_only_def)
  from token_count_info_effect [OF Some this, of "pe_chrono env" previous] assms(2,3) Some show ?thesis
    by (cases "ri_total_token_usage info") (auto simp: line_totals_def)
qed

lemma usage_fields_subtract:
  assumes "get \<in> usage_fields"
  shows "get (subtract_usage t (Some p)) = subtract_count (get t) (get p)" "get (subtract_usage t None) = get t"
  using assms by (auto simp: usage_fields_def subtract_usage_def token_usage_new_def)

lemma usage_fields_zero:
  "get \<in> usage_fields \<Longrightarrow> \<not> codex_usage_is_positive u \<Longrightarrow> tokens (get u) = 0"
  by (auto simp: usage_fields_def codex_usage_is_positive_def tokens_def word_neq_0_conv [symmetric] split: token_count.splits)

definition previous_tokens :: "(token_usage \<Rightarrow> token_count) \<Rightarrow> parser_state \<Rightarrow> nat" where
  "previous_tokens get s = (case ps_previous_totals s of None \<Rightarrow> 0 | Some u \<Rightarrow> tokens (get u))"

lemma subtract_tokens:
  assumes "get \<in> usage_fields" "get t \<noteq> Unavailable"
    "case previous of None \<Rightarrow> 0 \<le> tokens (get t) | Some p \<Rightarrow> tokens (get p) \<le> tokens (get t)"
  shows "tokens (get (subtract_usage t previous)) + (case previous of None \<Rightarrow> 0 | Some p \<Rightarrow> tokens (get p)) = tokens (get t)"
proof (cases previous)
  case (Some p)
  with assms show ?thesis
    by (cases "get t"; cases "get p")
      (auto simp: usage_fields_subtract subtract_count_def tokens_def unat_saturating_sub word_le_nat_alt)
qed (use assms in \<open>simp add: usage_fields_subtract\<close>)

lemma cumulative_step:
  assumes step: "parse_line env cxt s offset line = (outcome, s', upd)" and cumulative: "cumulative_only env line"
    and get: "get \<in> usage_fields"
    and totals: "\<And>t. line_totals env line = Some t \<Longrightarrow> get t \<noteq> Unavailable \<and> previous_tokens get s \<le> tokens (get t)"
  shows "previous_tokens get s + sum_list (map (\<lambda>e. tokens (get (obs_delta_usage e))) (emitted [outcome])) = previous_tokens get s'
    \<and> (previous_tokens get s' = previous_tokens get s
      \<or> (\<exists>t. line_totals env line = Some t \<and> previous_tokens get s' = tokens (get t)))"
proof (cases rule: parse_line_cases [of line env cxt s offset])
  case (metadata w upd')
  have "outcome \<noteq> Parse_Emitted e" for e
    using metadata step metadata_not_usage(2) by auto
  then have none: "emitted [outcome] = []"
    by (cases outcome) auto
  have "ps_previous_totals s' = ps_previous_totals s"
    using metadata step parse_metadata_line_kept(2) by auto
  with none show ?thesis
    by (simp add: previous_tokens_def)
next
  case (usage w effect upd')
  from cumulative_effect [OF cumulative usage(1,2)] obtain t where t: "line_totals env line = Some t"
    "le_baseline_update effect = Some t" "le_usage effect = subtract_usage t (ps_previous_totals s)"
    by blast
  have sum: "tokens (get (le_usage effect)) + previous_tokens get s = tokens (get t)"
    using subtract_tokens [OF get, of t "ps_previous_totals s"] totals [OF t(1)] t(3)
    by (auto simp: previous_tokens_def split: option.splits)
  show ?thesis
  proof (cases rule: parse_usage_line_cases [of effect env cxt s offset "raw_line_of w"])
    case no_time
    with usage step show ?thesis by auto
  next
    case (zero u noted tool upd'')
    have "tokens (get (le_usage effect)) = 0"
      using usage_fields_zero [OF get zero(1)] .
    with zero usage step t sum show ?thesis
      by (auto simp: previous_tokens_def update_baseline_fields option_or_def)
  next
    case (emitted u noted tool session at m upd'')
    with usage step t sum show ?thesis
      by (auto simp: previous_tokens_def emitted_state_fields option_or_def usage_draft_def)
  qed
qed (use step in auto)

lemma cumulative_run:
  assumes "get \<in> usage_fields"
    and "\<forall>(offset, line) \<in> set lines. cumulative_only env line"
    and "\<forall>t \<in> set (run_totals env lines). get t \<noteq> Unavailable"
    and "sorted (previous_tokens get s # map (\<lambda>t. tokens (get t)) (run_totals env lines))"
    and "parse_lines env cxt s lines = (outcomes, s')"
  shows "previous_tokens get s + sum_list (map (\<lambda>e. tokens (get (obs_delta_usage e))) (emitted outcomes)) = previous_tokens get s'"
  using assms(2-)
proof (induction lines arbitrary: s outcomes)
  case (Cons l lines)
  obtain offset line where l: "l = (offset, line)"
    by fastforce
  from Cons.prems(4) obtain outcome s1 upd rest where step: "parse_line env cxt s offset line = (outcome, s1, upd)"
    and run: "parse_lines env cxt s1 lines = (rest, s')" and outcomes: "outcomes = outcome # rest"
    unfolding l by (rule parse_lines_ConsE)
  have "get t \<noteq> Unavailable \<and> previous_tokens get s \<le> tokens (get t)" if "line_totals env line = Some t" for t
    using Cons.prems(2,3) that by (auto simp: l)
  note one = cumulative_step [OF step _ assms(1) this]
  have "previous_tokens get s + sum_list (map (\<lambda>e. tokens (get (obs_delta_usage e))) (emitted [outcome])) = previous_tokens get s1"
    and bound: "sorted (previous_tokens get s1 # map (\<lambda>t. tokens (get t)) (run_totals env lines))"
    using one Cons.prems(1,3) by (auto simp: l split: option.splits)
  moreover have "previous_tokens get s1 + sum_list (map (\<lambda>e. tokens (get (obs_delta_usage e))) (emitted rest)) = previous_tokens get s'"
    using Cons.prems(1,2) bound run by (intro Cons.IH) (auto simp: l split: option.splits)
  moreover have "emitted outcomes = emitted [outcome] @ emitted rest"
    by (cases outcome) (simp_all add: outcomes)
  ultimately show ?case
    by simp
qed simp

text \<open>
  C4. Cumulative totals are counted once.  Where a source reports only running totals that do not
  fall, for input, cached, output, reasoning or total tokens alike, the deltas of the events emitted
  for it add up exactly to the total last accounted for: nothing is counted twice when a total is
  repeated, and what a rejected line would have reported is made up by the next one.
\<close>

theorem cumulative_totals_add_up:
  assumes "get \<in> usage_fields"
    and "\<forall>(offset, line) \<in> set lines. cumulative_only env line"
    and "\<forall>t \<in> set (run_totals env lines). get t \<noteq> Unavailable"
    and "sorted (map (\<lambda>t. tokens (get t)) (run_totals env lines))"
    and "parse_lines env cxt parser_state_new lines = (outcomes, s)"
  shows "sum_list (map (\<lambda>e. tokens (get (obs_delta_usage e))) (emitted outcomes))
    = (case ps_previous_totals s of None \<Rightarrow> 0 | Some u \<Rightarrow> tokens (get u))"
proof -
  have "previous_tokens get parser_state_new = 0"
    by (simp add: previous_tokens_def parser_state_new_def)
  with cumulative_run [OF assms(1-3) _ assms(5)] assms(4) show ?thesis
    by (simp add: previous_tokens_def)
qed

section \<open>An example\<close>

definition sample_usage :: "u64 \<Rightarrow> wire raw_usage" where
  "sample_usage n = \<lparr> ru_input_tokens = Some (Visit_U64 n), ru_prompt_tokens = None, ru_input = None,
     ru_cached_input_tokens = None, ru_cache_read_input_tokens = None, ru_cached_tokens = None,
     ru_output_tokens = None, ru_completion_tokens = None, ru_output = None, ru_reasoning_output_tokens = None,
     ru_reasoning_tokens = None, ru_total_tokens = None \<rparr>"

definition sample_payload :: "u64 \<Rightarrow> (wire, wire, wire) raw_payload" where
  "sample_payload n = \<lparr> ry_kind = Some (Visit_Str (map of_char ''token_count'')), ry_model = None, ry_model_name = None,
     ry_model_slug = None, ry_model_id = None, ry_requested_model = None, ry_default_model = None,
     ry_service_tier = None, ry_model_context_window = None, ry_name = None, ry_cwd = None, ry_originator = None,
     ry_source = None, ry_session_id = None, ry_id = None, ry_forked_from_id = None, ry_parent_thread_id = None,
     ry_git_branch = None, ry_info = Some \<lparr> ri_last_token_usage = None, ri_total_token_usage = Some (sample_usage n),
       ri_model = None, ri_model_name = None \<rparr> \<rparr>"

definition sample_wire :: "u64 \<Rightarrow> wire_line" where
  "sample_wire n = \<lparr> rl_kind = Some (Visit_Str (map of_char ''event_msg'')), rl_timestamp = Some (Visit_U64 1700000000),
     rl_created_at = None, rl_created_at_v2 = None, rl_payload = Some (sample_payload n), rl_usage = None,
     rl_model = None, rl_model_name = None, rl_forked_from_id = None, rl_parent_thread_id = None, rl_data = None,
     rl_result = None, rl_response = None \<rparr>"

definition sample_env :: parse_env where
  "sample_env = \<lparr> pe_from_slice = (\<lambda>line. if length line = 2 then Some (sample_wire (ucast (line ! 1))) else None),
     pe_chrono = \<lparr> ch_parse_from_rfc3339 = (\<lambda>_. None), ch_from_timestamp = (\<lambda>s n. Some (s, n)), ch_year = (\<lambda>_. 2023) \<rparr>,
     pe_sha256 = id, pe_validated_directory = (\<lambda>_. None) \<rparr>"

definition sample_context :: parse_context where
  "sample_context = parse_context_new ''work'' ''source'' None ''session''"

definition sample_lines :: "(u64 \<times> u8 list) list" where
  "sample_lines = [(0, [92, 100]), (3, [92, 150]), (6, [92, 150])]"

lemma sample_context_ok: "context_ok sample_context"
  by (simp add: context_ok_def sample_context_def parse_context_new_def)

definition input_only :: "u64 \<Rightarrow> token_usage" where
  "input_only n = token_usage_new (Available n) Unavailable Unavailable Unavailable Unavailable"

lemma kind_texts: "text_is ''event_msg'' (text_value (raw_text (Some (Visit_Str (map of_char ''event_msg'')))))"
  "text_is ''token_count'' (text_value (raw_text (Some (Visit_Str (map of_char ''token_count'')))))"
  by (simp_all add: text_is_def raw_text_def classify_text_def valid_bounded_text_def MAX_RAW_MODEL_BYTES_def
      char_is_control_def utf8_char_def)

lemma sample_effect:
  "line_effect_of (pe_chrono sample_env) (raw_line_of (sample_wire n)) previous
    = (Some \<lparr> le_timestamp = Some \<lparr> unix_seconds = 1700000000, subsec_nanos = 0 \<rparr>,
        le_model = \<lparr> mc_value = None, mc_invalid_aliases = 0 \<rparr>, le_usage = subtract_usage (input_only n) previous,
        le_baseline_update = Some (input_only n), le_model_includes_payload = True \<rparr>, [])"
  using kind_texts
  by (simp add: line_effect_of_def token_count_effect_def raw_line_of_def sample_wire_def raw_payload_of_def
      sample_payload_def raw_info_of_def raw_usage_of_def sample_usage_def raw_number_def raw_stamp_def
      normalize_usage_def first_model_def text_is_invalid_def raw_text_def [of None] sample_env_def numeric_timestamp_def normalized_timestamp_def
      utc_timestamp_new_def i64_max_u64_def input_only_def word_le_nat_alt)

lemma kind_values:
  "text_value (raw_text (Some (Visit_Str (map of_char ''event_msg'')))) = Some (map of_char ''event_msg'')"
  "text_value (raw_text (Some (Visit_Str (map of_char ''token_count'')))) = Some (map of_char ''token_count'')"
  using kind_texts by (simp_all only: text_is_def)

lemma no_tool_kind: "\<not> list_ex (contains_ascii_case_insensitive (utf8 (map of_char ''token_count'')))
    [''function_call'', ''tool_call'', ''exec_command'', ''mcp'']"
  by code_simp

lemma not_response_item: "map of_char ''event_msg'' \<noteq> (map of_char ''response_item'' :: nat list)"
  by simp

lemma sample_tool: "tool_update_of (raw_line_of (sample_wire n)) = (None, [])"
proof -
  have payload: "rl_payload (raw_line_of (sample_wire n)) = Some (raw_payload_of (sample_payload n))"
    by (simp add: raw_line_of_def sample_wire_def)
  have kinds: "text_value (rl_kind (raw_line_of (sample_wire n))) = Some (map of_char ''event_msg'')"
    "text_value (ry_kind (raw_payload_of (sample_payload n))) = Some (map of_char ''token_count'')"
    by (simp_all only: raw_line_of_def sample_wire_def raw_line.select_convs raw_payload_of_def sample_payload_def
        raw_payload.select_convs kind_values)
  show ?thesis
    unfolding tool_update_of_def payload kinds option.case Let_def option_or_def text_is_def option.inject
    using no_tool_kind not_response_item by (simp only: if_False simp_thms if_True)
qed

lemma sample_metadata: "metadata_update_of sample_env (raw_line_of (sample_wire n)) include = (metadata_update_default, [])"
  by (simp add: metadata_update_of_def raw_line_of_def sample_wire_def raw_payload_of_def sample_payload_def
      normalize_metadata_model_def first_model_def lineage_metadata_def lineage_step_def display_metadata_def
      session_metadata_def session_identity_def codex_project_alias_def repository_candidate_def codex_context_window_def
      raw_text_def [of None] raw_display_text_def raw_source_of_def raw_number_def text_is_invalid_def text_is_missing_def
      metadata_update_default_def)

definition unknown_model :: resolved_model where
  "unknown_model = \<lparr> rm_key = ''unknown'', rm_raw = None, rm_fallback = True \<rparr>"

lemma resolve_unknown:
  "current = None \<or> current = Some unknown_model \<Longrightarrow>
    resolve_model sha256 None current 0 = (Some unknown_model, [Parser_ModelFallback])"
  by (auto simp: resolve_model_def unknown_model_def model_key_new_def validate_ascii_value_def is_model_key_byte_def
      is_usage_id_byte_def is_ascii_alphanumeric_def)

lemma sample_step:
  assumes "ps_current_model s = None \<or> ps_current_model s = Some unknown_model"
    and usage: "u = subtract_usage (input_only (ucast n)) (ps_previous_totals s)"
  shows "codex_usage_is_positive u \<Longrightarrow> \<exists>e s' upd. parse_line sample_env sample_context s offset [92, n] = (Parse_Emitted e, s', upd)
      \<and> ps_current_model s' = Some unknown_model \<and> ps_previous_totals s' = Some (input_only (ucast n)) \<and> obs_delta_usage e = u"
    "\<not> codex_usage_is_positive u \<Longrightarrow> \<exists>s' upd. parse_line sample_env sample_context s offset [92, n] = (Parse_Skipped, s', upd)
      \<and> ps_current_model s' = ps_current_model s \<and> ps_previous_totals s' = Some (input_only (ucast n))"
proof -
  have decode: "pe_from_slice sample_env [92, n] = Some (sample_wire (ucast n))"
    by (simp add: sample_env_def)
  have relevant: "looks_relevant [92, n]" "\<not> length [92, n] > MAX_LINE_BYTES"
    by (simp_all add: looks_relevant_def MAX_LINE_BYTES_def)
  define effect where "effect = \<lparr> le_timestamp = Some \<lparr> unix_seconds = 1700000000, subsec_nanos = 0 \<rparr>,
    le_model = \<lparr> mc_value = None, mc_invalid_aliases = 0 \<rparr>, le_usage = u,
    le_baseline_update = Some (input_only (ucast n)), le_model_includes_payload = True \<rparr>"
  note line = parse_line_def [of sample_env sample_context s offset "[92, n]", unfolded decode option.case Let_def
      sample_effect usage [symmetric] effect_def [symmetric] split_def fst_conv snd_conv]
  have fields: "le_timestamp effect = Some \<lparr> unix_seconds = 1700000000, subsec_nanos = 0 \<rparr>"
    "mc_value (le_model effect) = None" "mc_invalid_aliases (le_model effect) = 0" "le_usage effect = u"
    "le_baseline_update effect = Some (input_only (ucast n))"
    by (simp_all add: effect_def)
  let ?d = metadata_update_default
  have model: "resolve_model (pe_sha256 sample_env) None (option_or (mu_current_model ?d) (ps_current_model s)) 0
      = (Some unknown_model, [Parser_ModelFallback])"
    using assms(1) by (intro resolve_unknown) (simp add: option_or_def metadata_update_default_def)
  note usage_line = parse_usage_line_def [of sample_env sample_context s offset "raw_line_of (sample_wire (ucast n))" effect,
      unfolded fields option.case Let_def sample_metadata sample_tool split_def fst_conv snd_conv model
        usage_draft_accepted [OF refl] sum.case]
  show "\<exists>e s' upd. parse_line sample_env sample_context s offset [92, n] = (Parse_Emitted e, s', upd)
      \<and> ps_current_model s' = Some unknown_model \<and> ps_previous_totals s' = Some (input_only (ucast n)) \<and> obs_delta_usage e = u"
    if "codex_usage_is_positive u"
    using that relevant
    by (simp add: line usage_line emitted_state_def Let_def apply_line_def update_baseline_def usage_draft_def fields(4))
  show "\<exists>s' upd. parse_line sample_env sample_context s offset [92, n] = (Parse_Skipped, s', upd)
      \<and> ps_current_model s' = ps_current_model s \<and> ps_previous_totals s' = Some (input_only (ucast n))"
    if "\<not> codex_usage_is_positive u"
    using that relevant
    by (simp add: line usage_line apply_line_def update_baseline_def apply_metadata_def normalize_lineage_conflict_def Let_def
       metadata_update_default_def option_or_def)
qed

lemma input_only_positive [simp]: "codex_usage_is_positive (input_only n) \<longleftrightarrow> n > 0"
  by (simp add: codex_usage_is_positive_def input_only_def token_usage_new_def)

lemma input_only_subtract [simp]:
  "p \<le> n \<Longrightarrow> subtract_usage (input_only n) (Some (input_only p)) = input_only (n - p)"
  "subtract_usage (input_only n) None = input_only n"
  by (simp_all add: subtract_usage_def input_only_def token_usage_new_def subtract_count_def saturating_sub_def)

lemma sample_run:
  obtains outcomes s where "parse_lines sample_env sample_context parser_state_new sample_lines = (outcomes, s)"
    "map obs_delta_usage (emitted outcomes) = [input_only 100, input_only 50]"
    "ps_previous_totals s = Some (input_only 150)"
proof -
  note step = sample_step [OF _ refl]
  obtain e1 s1 upd1 where 1: "parse_line sample_env sample_context parser_state_new 0 [92, 100] = (Parse_Emitted e1, s1, upd1)"
    "ps_current_model s1 = Some unknown_model" "ps_previous_totals s1 = Some (input_only 100)"
    "obs_delta_usage e1 = input_only 100"
    using step(1) [of parser_state_new 100 0] by (auto simp: parser_state_new_def)
  obtain e2 s2 upd2 where 2: "parse_line sample_env sample_context s1 3 [92, 150] = (Parse_Emitted e2, s2, upd2)"
    "ps_current_model s2 = Some unknown_model" "ps_previous_totals s2 = Some (input_only 150)"
    "obs_delta_usage e2 = input_only 50"
    using step(1) [of s1 150 3] 1 by auto
  obtain s3 upd3 where 3: "parse_line sample_env sample_context s2 6 [92, 150] = (Parse_Skipped, s3, upd3)"
    "ps_previous_totals s3 = Some (input_only 150)"
    using step(2) [of s2 150 6] 2 by auto
  show ?thesis
    by (rule that [of "[Parse_Emitted e1, Parse_Emitted e2, Parse_Skipped]" s3]) (simp_all add: sample_lines_def 1 2 3)
qed

lemma sample_totals: "line_totals sample_env [92, n] = Some (input_only (ucast n))"
proof -
  have "token_count_info (raw_line_of (sample_wire m)) = Some (raw_info_of (the (ry_info (sample_payload m))))" for m
    using kind_texts
    by (simp add: token_count_info_def raw_line_of_def sample_wire_def raw_payload_of_def sample_payload_def)
  then show ?thesis
    by (simp add: line_totals_def sample_env_def sample_payload_def raw_info_of_def raw_usage_of_def sample_usage_def
        raw_number_def normalize_usage_def input_only_def)
qed

lemma sample_cumulative: "cumulative_only sample_env [92, n]"
proof -
  have "token_count_info (raw_line_of (sample_wire m)) = Some (raw_info_of (the (ry_info (sample_payload m))))" for m
    using kind_texts
    by (simp add: token_count_info_def raw_line_of_def sample_wire_def raw_payload_of_def sample_payload_def)
  then show ?thesis
    by (simp add: cumulative_only_def sample_env_def sample_payload_def raw_info_of_def)
qed

theorem cumulative_totals_add_up_witness:
  "\<exists>outcomes s. parse_lines sample_env sample_context parser_state_new sample_lines = (outcomes, s)
    \<and> map obs_delta_usage (emitted outcomes) = [input_only 100, input_only 50]
    \<and> sum_list (map (\<lambda>e. tokens (tu_input (obs_delta_usage e))) (emitted outcomes)) = 150"
proof -
  obtain outcomes s where run: "parse_lines sample_env sample_context parser_state_new sample_lines = (outcomes, s)"
    and deltas: "map obs_delta_usage (emitted outcomes) = [input_only 100, input_only 50]"
    and last: "ps_previous_totals s = Some (input_only 150)"
    by (rule sample_run)
  have "sum_list (map (\<lambda>e. tokens (tu_input (obs_delta_usage e))) (emitted outcomes))
      = (case ps_previous_totals s of None \<Rightarrow> 0 | Some u \<Rightarrow> tokens (tu_input u))"
    by (rule cumulative_totals_add_up [OF _ _ _ _ run])
      (simp_all add: usage_fields_def sample_lines_def sample_cumulative sample_totals input_only_def token_usage_new_def
        tokens_def)
  with run deltas last show ?thesis
    by (auto simp: input_only_def token_usage_new_def tokens_def)
qed

theorem parser_resumable_witness:
  "\<exists>outcomes s. parse_lines sample_env sample_context parser_state_new sample_lines = (outcomes, s)
    \<and> map obs_delta_usage (emitted outcomes) = [input_only 100, input_only 50]
    \<and> from_resume (pe_sha256 sample_env) (parser_snapshot s) = Inr (forget_repository s)"
proof -
  obtain outcomes s where run: "parse_lines sample_env sample_context parser_state_new sample_lines = (outcomes, s)"
    and deltas: "map obs_delta_usage (emitted outcomes) = [input_only 100, input_only 50]"
    and "ps_previous_totals s = Some (input_only 150)"
    by (rule sample_run)
  have "length sample_lines < 2 ^ 63"
    by (simp add: sample_lines_def)
  from parser_resumable [OF sample_context_ok this run] run deltas show ?thesis
    by simp
qed

theorem events_numbered_witness:
  "\<exists>outcomes s. parse_lines sample_env sample_context parser_state_new sample_lines = (outcomes, s)
    \<and> map (unat \<circ> obs_session_ordinal) (emitted outcomes) = [0, 1]
    \<and> subseq (map obs_source_offset (emitted outcomes)) [0, 3, 6]"
proof -
  obtain outcomes s where run: "parse_lines sample_env sample_context parser_state_new sample_lines = (outcomes, s)"
    and deltas: "map obs_delta_usage (emitted outcomes) = [input_only 100, input_only 50]"
    and "ps_previous_totals s = Some (input_only 150)"
    by (rule sample_run)
  have two: "length (emitted outcomes) = 2"
    using arg_cong [OF deltas, of length] by simp
  have "length sample_lines < 2 ^ 64" "map fst sample_lines = [0, 3, 6]" "[0 ..< 2] = [0, 1 :: nat]"
    by (simp_all add: sample_lines_def upt_rec)
  with events_numbered [OF _ run] two run show ?thesis
    by auto
qed

theorem rejected_line_harmless_witness:
  "\<exists>code s' upd. parse_line sample_env sample_context parser_state_new 0 [92] = (Parse_Rejected code, s', upd)
    \<and> s' = parser_state_new \<and> code \<in> {Parser_LineTooLarge, Parser_MalformedJson, Parser_InvalidTimestamp}"
proof -
  obtain s' upd where line: "parse_line sample_env sample_context parser_state_new 0 [92]
      = (Parse_Rejected Parser_MalformedJson, s', upd)"
    by (simp add: parse_line_def looks_relevant_def MAX_LINE_BYTES_def sample_env_def)
  from rejected_line_harmless [OF line] line show ?thesis
    by blast
qed

end
