(* ===== verification/CodexFiles.thy ===== *)
theory CodexFiles
  imports FramingResume CodexRuns
begin

text \<open>
  The Codex parser behind the line framing: a log file read in batches, with the parser's state stored
  and resumed between them, yields the events of one pass over its lines.
\<close>

section \<open>What is not stored does not matter\<close>

lemma forget_forget: "forget_repository (forget_repository s) = forget_repository s"
  by (simp add: forget_repository_def)

lemma forget_fields [simp]:
  "ps_current_model (forget_repository s) = ps_current_model s"
  "ps_previous_totals (forget_repository s) = ps_previous_totals s"
  "ps_service_tier (forget_repository s) = ps_service_tier s"
  "ps_session_id (forget_repository s) = ps_session_id s"
  "ps_parent_session_id (forget_repository s) = ps_parent_session_id s"
  "ps_lineage_conflict (forget_repository s) = ps_lineage_conflict s"
  "ps_next_usage_ordinal (forget_repository s) = ps_next_usage_ordinal s"
  "ps_project (forget_repository s) = ps_project s"
  "ps_originator (forget_repository s) = ps_originator s"
  "ps_pending_activity (forget_repository s) = ps_pending_activity s"
  by (simp_all add: forget_repository_def)

lemma forget_reads [simp]:
  "resolved_session_id cxt (forget_repository s) u = resolved_session_id cxt s u"
  "normalize_lineage_conflict (forget_repository s) session u = normalize_lineage_conflict s session u"
  "usage_draft cxt (forget_repository s) offset u tool session at m effect
    = usage_draft cxt s offset u tool session at m effect"
  by (simp_all add: resolved_session_id_def normalize_lineage_conflict_def usage_draft_def split: option.split)

lemma forget_record_hint [simp]:
  "forget_repository (record_repository_activity_hint cxt u session at s) = forget_repository s"
  by (auto simp: record_repository_activity_hint_def forget_repository_def
      split: option.split repository_candidate_update.split)

lemma record_tool_forget:
  "record_tool name activity (forget_repository s)
    = (forget_repository (fst (record_tool name activity s)), snd (record_tool name activity s))"
  by (cases s) (simp add: record_tool_def forget_repository_def Let_def split: sum.split)

lemma apply_metadata_forget:
  "forget_repository (apply_metadata u (forget_repository s)) = forget_repository (apply_metadata u s)"
  by (cases s) (simp add: apply_metadata_def forget_repository_def)

text \<open>Two results that differ only in what is forgotten.\<close>

definition same_result :: "parser_state \<times> 'a \<Rightarrow> parser_state \<times> 'a \<Rightarrow> bool" where
  "same_result a b \<longleftrightarrow> forget_repository (fst a) = forget_repository (fst b) \<and> snd a = snd b"

lemma record_tool_same:
  assumes "forget_repository s = forget_repository t"
  shows "same_result (record_tool name activity s) (record_tool name activity t)"
  using record_tool_forget [of name activity s] record_tool_forget [of name activity t] assms
  by (simp add: same_result_def)

lemma apply_line_same:
  assumes "forget_repository s = forget_repository t"
  shows "same_result (apply_line u noted tool s) (apply_line u noted tool t)"
proof -
  have "forget_repository (apply_metadata u s) = forget_repository (apply_metadata u t)"
    using apply_metadata_forget assms by metis
  with record_tool_same [OF this] show ?thesis
    by (auto simp: apply_line_def same_result_def Let_def split_def split: option.split)
qed

lemma update_baseline_forget:
  "forget_repository (update_baseline b s) = update_baseline b (forget_repository s)"
  by (simp add: update_baseline_def forget_repository_def split: option.split)

lemma emitted_state_same:
  assumes "forget_repository s = forget_repository t"
  shows "same_result (emitted_state cxt u noted tool session at m b s) (emitted_state cxt u noted tool session at m b t)"
proof -
  define line where "line x = apply_line u noted tool (record_repository_activity_hint cxt u session (Some at) x)" for x
  define base where "base x = update_baseline b (fst (line x))" for x
  have "same_result (line s) (line t)"
    unfolding line_def by (rule apply_line_same) (simp add: assms)
  then have same: "forget_repository (base s) = forget_repository (base t)" "snd (line s) = snd (line t)"
    by (simp_all add: same_result_def base_def update_baseline_forget)
  have final: "forget_repository (base x \<lparr> ps_current_model := Some m, ps_session_id := a, ps_next_usage_ordinal := n,
      ps_pending_activity := p \<rparr>) = forget_repository (base x) \<lparr> ps_current_model := Some m, ps_session_id := a,
      ps_next_usage_ordinal := n, ps_pending_activity := p \<rparr>" for x a n p
    by (simp add: forget_repository_def)
  have "ps_session_id (base s) = ps_session_id (base t)" "ps_next_usage_ordinal (base s) = ps_next_usage_ordinal (base t)"
    using same(1) by (metis forget_fields(4), metis forget_fields(7))
  with same final show ?thesis
    by (simp add: same_result_def emitted_state_def Let_def split_def line_def [symmetric] base_def [symmetric])
qed

lemma parse_metadata_line_same:
  assumes "forget_repository s = forget_repository t"
  shows "fst (parse_metadata_line env cxt s offset raw) = fst (parse_metadata_line env cxt t offset raw)
    \<and> same_result (snd (parse_metadata_line env cxt s offset raw)) (snd (parse_metadata_line env cxt t offset raw))"
proof -
  have reads: "resolved_session_id cxt s u = resolved_session_id cxt t u"
    "normalize_lineage_conflict s session u = normalize_lineage_conflict t session u" for u session
    using assms by (metis forget_reads(1), metis forget_reads(2))
  have "same_result (apply_line u noted tool (record_repository_activity_hint cxt n session at s))
      (apply_line u noted tool (record_repository_activity_hint cxt n session at t))" for u n noted tool session at
    by (rule apply_line_same) (simp add: assms)
  then show ?thesis
    by (auto simp: parse_metadata_line_def Let_def split_def reads same_result_def)
qed

lemma parse_usage_line_same:
  assumes "forget_repository s = forget_repository t"
  shows "fst (parse_usage_line env cxt s offset raw effect) = fst (parse_usage_line env cxt t offset raw effect)
    \<and> same_result (snd (parse_usage_line env cxt s offset raw effect)) (snd (parse_usage_line env cxt t offset raw effect))"
proof (cases "le_timestamp effect")
  case None
  with assms show ?thesis
    by (simp add: parse_usage_line_def same_result_def)
next
  case (Some at)
  have reads: "resolved_session_id cxt s u = resolved_session_id cxt t u"
    "normalize_lineage_conflict s session u = normalize_lineage_conflict t session u"
    "ps_current_model s = ps_current_model t"
    "usage_draft cxt s offset u tool session at m effect = usage_draft cxt t offset u tool session at m effect"
    for u session tool at m
    using assms
    by (metis forget_reads(1), metis forget_reads(2), metis forget_fields(1), metis forget_reads(3))
  have zero: "same_result (update_baseline b (fst (apply_line u noted tool s)), snd (apply_line u noted tool s))
      (update_baseline b (fst (apply_line u noted tool t)), snd (apply_line u noted tool t))" for b u noted tool
    using apply_line_same [OF assms, of u noted tool] by (simp add: same_result_def update_baseline_forget)
  show ?thesis
    unfolding parse_usage_line_def Let_def split_def Some option.case reads
    using zero emitted_state_same [OF assms] assms
    by (simp add: same_result_def split: option.split sum.split)
qed

lemma parse_line_same:
  assumes "forget_repository s = forget_repository t"
  shows "fst (parse_line env cxt s offset line) = fst (parse_line env cxt t offset line)
    \<and> same_result (snd (parse_line env cxt s offset line)) (snd (parse_line env cxt t offset line))"
proof -
  have "ps_previous_totals s = ps_previous_totals t"
    using assms by (metis forget_fields(2))
  then show ?thesis
    using assms parse_metadata_line_same [OF assms] parse_usage_line_same [OF assms]
    by (simp add: parse_line_def Let_def split_def same_result_def split: option.split)
qed

section \<open>The interpretation\<close>

text \<open>States after which \<open>n\<close> more lines can still be numbered.\<close>

definition numbered_ok :: "parse_env \<Rightarrow> parse_context \<Rightarrow> nat \<Rightarrow> parser_state \<Rightarrow> bool" where
  "numbered_ok env cxt n s \<longleftrightarrow> context_ok cxt \<and> parser_state_ok (pe_sha256 env) s
     \<and> unat (ps_next_usage_ordinal s) + n < 2 ^ 63"

definition codex_resume :: "parse_env \<Rightarrow> parser_state \<Rightarrow> parser_resume_error + parser_state" where
  "codex_resume env s = from_resume (pe_sha256 env) (parser_snapshot s)"

lemma numbered_ok_parse:
  assumes "numbered_ok env cxt (Suc n) s"
  shows "numbered_ok env cxt n (fst (snd (parse_line env cxt s offset line)))"
proof -
  obtain outcome s' upd where step: "parse_line env cxt s offset line = (outcome, s', upd)"
    by (rule prod_cases3)
  have "unat (ps_next_usage_ordinal s') \<le> Suc (unat (ps_next_usage_ordinal s))"
    using parse_line_ordinal [OF step] by (auto simp: unat_saturating_add)
  with assms parse_line_ok [of env s cxt offset line] step show ?thesis
    by (simp add: numbered_ok_def)
qed

lemma numbered_ok_resume:
  assumes "numbered_ok env cxt n s"
  shows "codex_resume env s = Inr (forget_repository s)"
proof -
  have "ps_next_usage_ordinal s \<le> i64_max_u64"
    using assms by (simp add: numbered_ok_def word_le_nat_alt i64_max_u64_def)
  with assms resume_snapshot show ?thesis
    by (simp add: numbered_ok_def codex_resume_def)
qed

lemma numbered_ok_forget: "numbered_ok env cxt n s \<Longrightarrow> numbered_ok env cxt n (forget_repository s)"
  by (auto simp: numbered_ok_def forget_repository_def parser_state_ok_def texts_ok_def tools_ok_def lineage_ok_def)

interpretation codex: resumable_parser "parse_line env cxt" "codex_resume env" forget_repository "numbered_ok env cxt"
  for env cxt
proof
  show "fst (parse_line env cxt s offset line) = fst (parse_line env cxt t offset line)
      \<and> forget_repository (fst (snd (parse_line env cxt s offset line)))
        = forget_repository (fst (snd (parse_line env cxt t offset line)))"
    if "forget_repository s = forget_repository t" for s t offset line
    using parse_line_same [OF that] by (simp add: same_result_def)
  show "numbered_ok env cxt m s" if "numbered_ok env cxt n s" "m \<le> n" for m n s
    using that by (simp add: numbered_ok_def)
qed (fact numbered_ok_parse numbered_ok_resume numbered_ok_forget forget_forget)+

section \<open>A file and its lines\<close>

text \<open>The lines that reach the parser, with the offsets they start at.\<close>

fun parsed_lines :: "nat \<Rightarrow> u8 list list \<Rightarrow> (u64 \<times> u8 list) list" where
  "parsed_lines pos [] = []"
| "parsed_lines pos (l # ls) =
     (if length l > MAX_LINE_BYTES \<or> line_text l = [] then [] else [(word_of_nat pos, line_text l)])
     @ parsed_lines (pos + length l + 1) ls"

lemma parsed_lines_count: "length (parsed_lines pos ls) \<le> length ls"
  by (induction ls arbitrary: pos) (simp_all add: le_SucI)

lemma parsed_lines_bytes: "length (parsed_lines pos (fst (split_lines w))) \<le> length w"
proof -
  obtain ls tail where split: "split_lines w = (ls, tail)"
    by fastforce
  have "length ls \<le> (\<Sum>l \<leftarrow> ls. length l + 1)"
    by (induction ls) simp_all
  with parsed_lines_count [of pos ls] split_lines_length [OF split] split show ?thesis
    by simp
qed

lemma outcome_events_emitted: "outcome_events outcome @ emitted outcomes = emitted (outcome # outcomes)"
  by (cases outcome) (simp_all add: outcome_events_def)

lemma scan_parses:
  assumes "\<not> sc_discard s" "sc_committed s = word_of_nat (sc_pos s)"
  shows "sc_state (foldl (scan_line (parse_line env cxt)) s ls)
      = snd (parse_lines env cxt (sc_state s) (parsed_lines (sc_pos s) ls))
    \<and> sc_events (foldl (scan_line (parse_line env cxt)) s ls)
      = sc_events s @ emitted (fst (parse_lines env cxt (sc_state s) (parsed_lines (sc_pos s) ls)))"
  using assms
proof (induction ls arbitrary: s)
  case (Cons l ls)
  have next_line: "\<not> sc_discard (scan_line (parse_line env cxt) s l)"
    "sc_committed (scan_line (parse_line env cxt) s l) = word_of_nat (sc_pos (scan_line (parse_line env cxt) s l))"
    by (simp_all add: scan_line_def Let_def)
  from Cons.IH [OF next_line] Cons.prems outcome_events_emitted show ?case
    by (auto simp: scan_line_def Let_def split_def)
qed simp

definition first_input :: "u8 list \<Rightarrow> parser_state framing_input" where
  "first_input file = \<lparr> fi_start_offset = 0, fi_committed_offset = 0, fi_state = parser_state_new,
     fi_snapshot_end_offset = word_of_nat (length file), fi_discarding_oversized_line = False \<rparr>"

lemma file_events:
  assumes "finds_first memchr" "context_ok cxt" "delivers deliver file" "length file < 2 ^ 63" "length file < batches"
    "\<forall>b t. \<not> should_cancel b t" "\<forall>n. alloc n" "\<forall>b offset. \<forall>d \<in> set (deliver b offset). \<not> isl d"
    "parse_lines env cxt parser_state_new (parsed_lines 0 (fst (split_lines file))) = (outcomes, s)"
  shows "\<exists>s' committed relations. read_resumed (pe_sha256 env) memchr alloc (parse_line env cxt) (codex_resume env) should_cancel
      deliver batches (first_input file) = Some (Inr (s', committed, emitted outcomes, relations))
    \<and> forget_repository s' = forget_repository s"
proof -
  have ok: "numbered_ok env cxt (length file) parser_state_new"
    using assms(2,4) parser_state_new_ok by (simp add: numbered_ok_def) (simp add: parser_state_new_def)
  have "\<exists>v. read_resumed (pe_sha256 env) memchr alloc (parse_line env cxt) (codex_resume env) should_cancel
      deliver batches (first_input file) = Some (Inr v)
    \<and> forget_value forget_repository v = forget_value forget_repository (scan_value (scan_bytes (parse_line env cxt)
        (input_scan (first_input file)) (drop (unat (fi_start_offset (first_input file))) file)))"
    using assms(4-8) ok
    by (intro codex.read_resumed_whole [OF assms(1,3)]) (auto simp: first_input_def input_ok_def)
  then obtain v where v: "read_resumed (pe_sha256 env) memchr alloc (parse_line env cxt) (codex_resume env) should_cancel
      deliver batches (first_input file) = Some (Inr v)"
    "forget_value forget_repository v = forget_value forget_repository
      (scan_value (scan_bytes (parse_line env cxt) (input_scan (first_input file)) file))"
    by (auto simp: first_input_def)
  have "sc_state (scan_bytes (parse_line env cxt) (input_scan (first_input file)) file) = s
      \<and> sc_events (scan_bytes (parse_line env cxt) (input_scan (first_input file)) file) = emitted outcomes"
    using scan_parses [of "input_scan (first_input file)" env cxt "fst (split_lines file)"] assms(9)
    by (simp add: scan_bytes_def input_scan_def first_input_def)
  with v show ?thesis
    by (cases v) (auto simp: forget_value_def scan_value_def)
qed

end
