(* ===== verification/Replay.thy ===== *)
theory Replay
  imports Accounting
begin

text \<open>
  The replay classifier of \<open>crates/accounting/src/replay.rs\<close>.  A child session that was
  forked from a parent repeats the parent's usage at the same ordinals; the classifier
  decides for every child event whether it is such a repetition.  The state of a session is
  \<open>session_replay_state\<close>; one call of \<open>classify\<close> is one step of the state machine.
\<close>

section \<open>Data\<close>

definition MAX_REPLAY_DEPTH :: nat where "MAX_REPLAY_DEPTH = 32"
definition MAX_REPLAY_FANOUT :: nat where "MAX_REPLAY_FANOUT = 256"

datatype replay_disposition =
  Disposition_Eligible | Disposition_Replay | Disposition_Pending | Disposition_Conflict

datatype session_replay_state =
  Session_Root | Session_Matching | Session_Diverged | Session_Pending | Session_Conflict

record replay_event_facts =
  rf_provider_id :: string
  rf_profile_id :: string
  rf_session_id :: string
  rf_parent_session_id :: "string option"
  rf_session_ordinal :: u64
  rf_replay_signature :: "u8 list"
  rf_evidence :: replay_evidence
  rf_declared_conflict :: bool

definition replay_event_facts_from_event :: "canonical_usage_event \<Rightarrow> replay_event_facts" where
  "replay_event_facts_from_event event =
     \<lparr>rf_provider_id = obs_provider_id (ev_draft event),
      rf_profile_id = obs_profile_id (ev_draft event),
      rf_session_id = obs_session_id (ev_draft event),
      rf_parent_session_id = lin_parent_session_id (ev_lineage event),
      rf_session_ordinal = lin_session_ordinal (ev_lineage event),
      rf_replay_signature = lin_signature (ev_lineage event),
      rf_evidence = lin_evidence (ev_lineage event),
      rf_declared_conflict = lin_declared_conflict (ev_lineage event)\<rparr>"

datatype parent_ordinal =
  NotApplicable | Present replay_event_facts | MissingOpen | MissingComplete

record replay_traversal_facts =
  trav_depth :: nat
  trav_direct_children :: nat
  trav_cycle :: bool
  trav_relation_conflict :: bool

definition exceeds_bound :: "replay_traversal_facts \<Rightarrow> bool" where
  "exceeds_bound t \<longleftrightarrow> MAX_REPLAY_DEPTH < trav_depth t \<or> MAX_REPLAY_FANOUT < trav_direct_children t"

record replay_classification_input =
  in_prior_state :: session_replay_state
  in_child :: replay_event_facts
  in_parent :: parent_ordinal
  in_traversal :: replay_traversal_facts

record replay_classification =
  disposition :: replay_disposition
  next_state :: session_replay_state

definition classification ::
  "replay_disposition \<Rightarrow> session_replay_state \<Rightarrow> replay_classification" where
  "classification d s = \<lparr>disposition = d, next_state = s\<rparr>"

section \<open>The classifier\<close>

definition structurally_valid :: "replay_classification_input \<Rightarrow> bool" where
  "structurally_valid input =
     (let child = in_child input in
      case (rf_parent_session_id child, in_prior_state input, in_parent input) of
        (None, Session_Root, NotApplicable) \<Rightarrow> trav_depth (in_traversal input) = 0
      | (Some parent_session_id, st, Present parent) \<Rightarrow>
          (case st of
             Session_Matching \<Rightarrow> True | Session_Diverged \<Rightarrow> True | Session_Pending \<Rightarrow> True
           | _ \<Rightarrow> False) \<and>
          \<not> rf_declared_conflict parent \<and>
          rf_provider_id parent = rf_provider_id child \<and>
          rf_profile_id parent = rf_profile_id child \<and>
          rf_session_id parent = parent_session_id \<and>
          rf_session_ordinal parent = rf_session_ordinal child
      | (Some _, Session_Matching, MissingOpen) \<Rightarrow> True
      | (Some _, Session_Matching, MissingComplete) \<Rightarrow> True
      | (Some _, Session_Diverged, MissingOpen) \<Rightarrow> True
      | (Some _, Session_Diverged, MissingComplete) \<Rightarrow> True
      | (Some _, Session_Pending, MissingOpen) \<Rightarrow> True
      | (Some _, Session_Pending, MissingComplete) \<Rightarrow> True
      | _ \<Rightarrow> False)"

definition classify_matching :: "replay_classification_input \<Rightarrow> replay_classification" where
  "classify_matching input =
     (case in_parent input of
        Present parent \<Rightarrow>
          (if rf_evidence (in_child input) \<noteq> StrongCumulative \<or>
              rf_evidence parent \<noteq> StrongCumulative
           then classification Disposition_Pending Session_Matching
           else if rf_replay_signature (in_child input) = rf_replay_signature parent
           then classification Disposition_Replay Session_Matching
           else classification Disposition_Eligible Session_Diverged)
      | MissingOpen \<Rightarrow> classification Disposition_Pending Session_Pending
      | MissingComplete \<Rightarrow> classification Disposition_Eligible Session_Diverged
      | NotApplicable \<Rightarrow> classification Disposition_Conflict Session_Conflict)"

definition classify :: "replay_classification_input \<Rightarrow> replay_classification" where
  "classify input =
     (if in_prior_state input = Session_Conflict \<or>
         rf_declared_conflict (in_child input) \<or>
         trav_cycle (in_traversal input) \<or>
         trav_relation_conflict (in_traversal input) \<or>
         \<not> structurally_valid input
      then classification Disposition_Conflict Session_Conflict
      else if exceeds_bound (in_traversal input)
      then classification Disposition_Pending Session_Pending
      else case in_prior_state input of
             Session_Root \<Rightarrow> classification Disposition_Eligible Session_Root
           | Session_Matching \<Rightarrow> classify_matching input
           | Session_Diverged \<Rightarrow> classification Disposition_Eligible Session_Diverged
           | Session_Pending \<Rightarrow> classification Disposition_Pending Session_Pending
           | Session_Conflict \<Rightarrow> classification Disposition_Conflict Session_Conflict)"

section \<open>Runs of the state machine\<close>

text \<open>
  A session is a sequence of events, each with what the caller found of the parent and of the
  lineage; the next state of one call is the prior state of the next.
\<close>

type_synonym replay_step = "replay_event_facts \<times> parent_ordinal \<times> replay_traversal_facts"

fun step_input :: "session_replay_state \<Rightarrow> replay_step \<Rightarrow> replay_classification_input" where
  "step_input st (child, parent, traversal) =
     \<lparr>in_prior_state = st, in_child = child, in_parent = parent, in_traversal = traversal\<rparr>"

fun classify_run :: "session_replay_state \<Rightarrow> replay_step list \<Rightarrow> replay_disposition list" where
  "classify_run st [] = []"
| "classify_run st (x # xs) =
     (let c = classify (step_input st x)
      in disposition c # classify_run (next_state c) xs)"

fun final_state :: "session_replay_state \<Rightarrow> replay_step list \<Rightarrow> session_replay_state" where
  "final_state st [] = st"
| "final_state st (x # xs) = final_state (next_state (classify (step_input st x))) xs"

inductive session_step :: "session_replay_state \<Rightarrow> session_replay_state \<Rightarrow> bool" where
  "next_state (classify (step_input st x)) = st' \<Longrightarrow> session_step st st'"

text \<open>A step whose parent event is known, consistent with the child and strong.\<close>

definition comparable_step :: "replay_step \<Rightarrow> bool" where
  "comparable_step x =
     (case x of (child, Present parent, traversal) \<Rightarrow>
        \<not> rf_declared_conflict child \<and> \<not> trav_cycle traversal \<and>
        \<not> trav_relation_conflict traversal \<and> \<not> exceeds_bound traversal \<and>
        \<not> rf_declared_conflict parent \<and>
        rf_provider_id parent = rf_provider_id child \<and>
        rf_profile_id parent = rf_profile_id child \<and>
        rf_parent_session_id child = Some (rf_session_id parent) \<and>
        rf_session_ordinal parent = rf_session_ordinal child \<and>
        rf_evidence child = StrongCumulative \<and> rf_evidence parent = StrongCumulative
      | _ \<Rightarrow> False)"

definition same_signature :: "replay_step \<Rightarrow> bool" where
  "same_signature x =
     (case x of (child, Present parent, _) \<Rightarrow> rf_replay_signature child = rf_replay_signature parent
      | _ \<Rightarrow> False)"

section \<open>Lemmas\<close>

lemmas classifier_defs = classify_def classify_matching_def classification_def

lemma classification_simps [simp]:
  "disposition (classification d s) = d" "next_state (classification d s) = s"
  by (simp_all add: classification_def)

lemma classify_conflict_absorbs:
  "classify (step_input Session_Conflict x) = classification Disposition_Conflict Session_Conflict"
  by (cases x) (simp add: classify_def)

text \<open>The match of \<open>structurally_valid\<close>, read as a condition on the step.\<close>

lemma structurally_valid_iff:
  "structurally_valid (step_input st (child, parent, t)) \<longleftrightarrow>
     (st = Session_Root \<and> parent = NotApplicable \<and> rf_parent_session_id child = None \<and>
        trav_depth t = 0) \<or>
     (st \<in> {Session_Matching, Session_Diverged, Session_Pending} \<and>
        rf_parent_session_id child \<noteq> None \<and>
        (parent = MissingOpen \<or> parent = MissingComplete \<or>
         (\<exists>p. parent = Present p \<and> \<not> rf_declared_conflict p \<and>
            rf_provider_id p = rf_provider_id child \<and> rf_profile_id p = rf_profile_id child \<and>
            rf_parent_session_id child = Some (rf_session_id p) \<and>
            rf_session_ordinal p = rf_session_ordinal child)))"
  by (cases st; cases parent; cases "rf_parent_session_id child")
    (auto simp: structurally_valid_def)

lemma comparable_stepE:
  assumes "comparable_step x"
  obtains child p t where "x = (child, Present p, t)"
    "\<not> rf_declared_conflict child" "\<not> trav_cycle t" "\<not> trav_relation_conflict t"
    "\<not> exceeds_bound t" "rf_evidence child = StrongCumulative" "rf_evidence p = StrongCumulative"
    "structurally_valid (step_input Session_Matching x)"
    "structurally_valid (step_input Session_Diverged x)"
proof -
  obtain child par t where x: "x = (child, par, t)" by (cases x)
  with assms obtain p where "par = Present p"
    by (cases par) (simp_all add: comparable_step_def)
  with assms x that show ?thesis
    by (simp add: comparable_step_def structurally_valid_iff del: step_input.simps)
qed

lemma classify_comparable_matching:
  assumes "comparable_step x"
  shows "classify (step_input Session_Matching x) =
    (if same_signature x then classification Disposition_Replay Session_Matching
     else classification Disposition_Eligible Session_Diverged)"
  using assms
  by (rule comparable_stepE) (simp add: classify_def classify_matching_def same_signature_def)

lemma classify_comparable_diverged:
  assumes "comparable_step x"
  shows "classify (step_input Session_Diverged x) =
    classification Disposition_Eligible Session_Diverged"
  using assms by (rule comparable_stepE) (simp add: classify_def)

lemma classify_run_diverged:
  "list_all comparable_step xs \<Longrightarrow>
   classify_run Session_Diverged xs = replicate (length xs) Disposition_Eligible"
  by (induction xs) (simp_all add: Let_def classify_comparable_diverged)

lemma classify_replay_cases:
  assumes "disposition (classify (step_input st x)) = Disposition_Replay"
  shows "st = Session_Matching \<and> comparable_step x \<and> same_signature x \<and>
    next_state (classify (step_input st x)) = Session_Matching"
proof -
  obtain child par t where x: "x = (child, par, t)" by (cases x)
  have guards: "st \<noteq> Session_Conflict" "\<not> rf_declared_conflict child" "\<not> trav_cycle t"
    "\<not> trav_relation_conflict t" "structurally_valid (step_input st x)" "\<not> exceeds_bound t"
    using assms by (auto simp: classify_def x split: if_splits)
  then have m: "st = Session_Matching" and
    c: "classify (step_input st x) = classify_matching (step_input st x)"
    using assms by (cases st; simp add: classify_def x)+
  then obtain p where "par = Present p" "rf_evidence child = StrongCumulative"
      "rf_evidence p = StrongCumulative" "rf_replay_signature child = rf_replay_signature p"
    using assms by (cases par) (auto simp: classify_matching_def x split: if_splits)
  note parent = this
  from guards(5) have "\<not> rf_declared_conflict p" "rf_provider_id p = rf_provider_id child"
      "rf_profile_id p = rf_profile_id child" "rf_parent_session_id child = Some (rf_session_id p)"
      "rf_session_ordinal p = rf_session_ordinal child"
    unfolding x structurally_valid_iff m parent(1) by simp_all
  with parent guards have "comparable_step x" "same_signature x"
    by (simp_all add: x comparable_step_def same_signature_def)
  with m parent c show ?thesis by (simp add: x classify_matching_def)
qed

lemma session_step_cases:
  assumes "session_step st st'"
  shows "st' = st \<or> st' = Session_Conflict \<or> (st \<noteq> Session_Conflict \<and> st' = Session_Pending) \<or>
     (st = Session_Matching \<and> st' = Session_Diverged)"
proof -
  from assms obtain x where st': "st' = next_state (classify (step_input st x))"
    by (auto simp: session_step.simps)
  obtain child par t where x: "x = (child, par, t)" by (cases x)
  show ?thesis
    unfolding st' x by (cases st; cases par) (simp_all add: classify_def classify_matching_def)
qed

lemma classify_run_no_replay:
  "st \<noteq> Session_Matching \<Longrightarrow> Disposition_Replay \<notin> set (classify_run st xs)"
proof (induction xs arbitrary: st)
  case Nil
  then show ?case by simp
next
  case (Cons x xs)
  let ?c = "classify (step_input st x)"
  have "session_step st (next_state ?c)" by (rule session_step.intros) (rule refl)
  from session_step_cases [OF this] Cons.prems have "next_state ?c \<noteq> Session_Matching" by auto
  moreover have "disposition ?c \<noteq> Disposition_Replay"
    using classify_replay_cases [of st x] Cons.prems by blast
  ultimately show ?case using Cons.IH by (simp add: Let_def)
qed

section \<open>Properties\<close>

text \<open>
  C10. On a session whose events all have a comparable parent event, the classifier computes the
  longest common prefix of the two signature sequences: exactly the events before the first
  signature that differs from the parent's are replays, and every event from there on is
  eligible for accounting, also when a later signature happens to agree again.
\<close>

theorem classify_run_common_prefix:
  assumes "list_all comparable_step xs"
  shows "classify_run Session_Matching xs =
    replicate (length (takeWhile same_signature xs)) Disposition_Replay @
    replicate (length (dropWhile same_signature xs)) Disposition_Eligible"
  using assms
  by (induction xs) (simp_all add: Let_def classify_comparable_matching classify_run_diverged)

definition sample_facts :: "string \<Rightarrow> string option \<Rightarrow> u64 \<Rightarrow> u8 list \<Rightarrow> replay_event_facts" where
  "sample_facts session parent ordinal signature =
     \<lparr>rf_provider_id = ''codex'', rf_profile_id = ''p'', rf_session_id = session,
      rf_parent_session_id = parent, rf_session_ordinal = ordinal,
      rf_replay_signature = signature, rf_evidence = StrongCumulative,
      rf_declared_conflict = False\<rparr>"

definition sample_step :: "u64 \<Rightarrow> u8 list \<Rightarrow> u8 list \<Rightarrow> replay_step" where
  "sample_step ordinal child parent =
     (sample_facts ''child'' (Some ''root'') ordinal child,
      Present (sample_facts ''root'' None ordinal parent),
      \<lparr>trav_depth = 1, trav_direct_children = 2, trav_cycle = False,
       trav_relation_conflict = False\<rparr>)"

lemmas sample_step_defs = sample_step_def sample_facts_def comparable_step_def same_signature_def
  exceeds_bound_def MAX_REPLAY_DEPTH_def MAX_REPLAY_FANOUT_def

theorem classify_run_common_prefix_witness:
  "list_all comparable_step [sample_step 0 [1] [1], sample_step 1 [2] [3], sample_step 2 [4] [4]] \<and>
   classify_run Session_Matching
     [sample_step 0 [1] [1], sample_step 1 [2] [3], sample_step 2 [4] [4]] =
     [Disposition_Replay, Disposition_Eligible, Disposition_Eligible]"
proof -
  let ?xs = "[sample_step 0 [1] [1], sample_step 1 [2] [3], sample_step 2 [4] [4]]"
  have ok: "list_all comparable_step ?xs" by (simp add: sample_step_defs)
  with classify_run_common_prefix [OF ok] show ?thesis by (simp add: sample_step_defs)
qed

text \<open>
  C30. An event is dropped as a replay only with proof: the session is still matching, the parent
  event at the same ordinal of the named parent session under the same provider and profile is
  known, both sides carry strong cumulative evidence and their signatures agree, nothing in
  the lineage is in conflict and the traversal stayed within its depth and fan-out bounds.
\<close>

theorem classify_replay_sound:
  assumes "disposition (classify (step_input st (child, parent, traversal))) = Disposition_Replay"
  shows "st = Session_Matching \<and>
    (\<exists>p. parent = Present p \<and> rf_replay_signature child = rf_replay_signature p \<and>
       rf_evidence child = StrongCumulative \<and> rf_evidence p = StrongCumulative \<and>
       rf_provider_id p = rf_provider_id child \<and> rf_profile_id p = rf_profile_id child \<and>
       rf_parent_session_id child = Some (rf_session_id p) \<and>
       rf_session_ordinal p = rf_session_ordinal child \<and>
       \<not> rf_declared_conflict child \<and> \<not> rf_declared_conflict p) \<and>
    \<not> trav_cycle traversal \<and> \<not> trav_relation_conflict traversal \<and>
    trav_depth traversal \<le> MAX_REPLAY_DEPTH \<and> trav_direct_children traversal \<le> MAX_REPLAY_FANOUT"
  using classify_replay_cases [OF assms]
  by (simp add: comparable_step_def same_signature_def exceeds_bound_def
      split: parent_ordinal.splits)

theorem classify_replay_sound_witness:
  "disposition (classify (step_input Session_Matching (sample_step 4 [7] [7]))) = Disposition_Replay \<and>
   trav_depth (snd (snd (sample_step 4 [7] [7]))) \<le> MAX_REPLAY_DEPTH"
proof -
  obtain c p t where x: "sample_step 4 [7] [7] = (c, p, t)" by (cases "sample_step 4 [7] [7]")
  have "comparable_step (sample_step 4 [7] [7])" "same_signature (sample_step 4 [7] [7])"
    by (simp_all add: sample_step_defs)
  then have r: "disposition (classify (step_input Session_Matching (c, p, t))) = Disposition_Replay"
    using classify_comparable_matching [of "sample_step 4 [7] [7]"]
    by (simp add: x del: step_input.simps)
  from classify_replay_sound [OF r] r show ?thesis by (simp add: x del: step_input.simps)
qed

text \<open>
  The session states are ordered: along any run the state either stays, or a matching session
  diverges, or it becomes pending, or it ends in conflict, which is final; once a session has
  left the matching state no later event of it is classified as a replay.
\<close>

theorem session_state_monotone:
  "(session_step\<^sup>*\<^sup>* st st' \<longrightarrow>
      st' = st \<or> st' = Session_Conflict \<or> (st \<noteq> Session_Conflict \<and> st' = Session_Pending) \<or>
      (st = Session_Matching \<and> st' = Session_Diverged)) \<and>
   (st \<noteq> Session_Matching \<longrightarrow> Disposition_Replay \<notin> set (classify_run st xs))"
proof (intro conjI impI)
  assume "session_step\<^sup>*\<^sup>* st st'"
  then show "st' = st \<or> st' = Session_Conflict \<or> (st \<noteq> Session_Conflict \<and> st' = Session_Pending) \<or>
      (st = Session_Matching \<and> st' = Session_Diverged)"
  proof (induction rule: rtranclp_induct)
    case base
    then show ?case by simp
  next
    case (step s t)
    from session_step_cases [OF step.hyps(2)] step.IH show ?case by auto
  qed
qed (rule classify_run_no_replay)

theorem session_state_monotone_witness:
  "session_step\<^sup>*\<^sup>* Session_Matching Session_Diverged \<and>
   Disposition_Replay \<notin> set (classify_run Session_Diverged [sample_step 0 [1] [1]])"
proof -
  have "comparable_step (sample_step 1 [2] [3])" "\<not> same_signature (sample_step 1 [2] [3])"
    by (simp_all add: sample_step_defs)
  then have "session_step Session_Matching Session_Diverged"
    using classify_comparable_matching [of "sample_step 1 [2] [3]"]
    by (intro session_step.intros [of _ "sample_step 1 [2] [3]"]) simp
  with session_state_monotone [of Session_Diverged Session_Diverged "[sample_step 0 [1] [1]]"]
  show ?thesis by simp
qed

end
