(* ===== verification/Quota.thy ===== *)
theory Quota
  imports Encoding Usage
begin

text \<open>
  The quota values of \<open>crates/domain/src/quota.rs\<close> and the content-derived identities of
  \<open>crates/quota/src/identity.rs\<close>.  A \<open>Parts\<close> struct and the validated struct built from it
  have the same fields and share one record; the constructor is the validation.  Deserialising
  a value calls the same constructor.  A digest of type \<open>[u8; 32]\<close> is a byte list.
\<close>

section \<open>Validated values\<close>

datatype quota_error =
    InvalidId string
  | InvalidRatio
  | EmptyUnits
  | UnitsExceedCapacity string
  | EmptyResetThresholds
  | InvalidMinimumDrop
  | InvalidDefinitionRevision
  | InvalidLabelKey
  | InvalidNominalDuration
  | ThresholdsRequireFixedWindow
  | InvalidSampleTimes
  | InvalidAdvertisedResetTime
  | EmptySample
  | ResetTimeWithoutEvidence
  | InvalidResetOccurredAt

definition MAX_QUOTA_ID_BYTES :: nat where "MAX_QUOTA_ID_BYTES = 128"
definition MAX_QUOTA_LABEL_KEY_BYTES :: nat where "MAX_QUOTA_LABEL_KEY_BYTES = 128"

definition valid_quota_id :: "string \<Rightarrow> nat \<Rightarrow> bool" where
  "valid_quota_id value max_bytes \<longleftrightarrow>
     value \<noteq> [] \<and> length value \<le> max_bytes \<and>
     list_all (\<lambda>c. is_ascii_alphanumeric c \<or> c = CHR ''.'' \<or> c = CHR ''_'' \<or> c = CHR ''-'') value"

definition validate_quota_id :: "string \<Rightarrow> string \<Rightarrow> nat \<Rightarrow> quota_error + string" where
  "validate_quota_id value field max_bytes =
     (if \<not> valid_quota_id value max_bytes then Inl (InvalidId field) else Inr value)"

definition quota_id_new :: "string \<Rightarrow> string \<Rightarrow> quota_error + string" where
  "quota_id_new field value = validate_quota_id value field MAX_QUOTA_ID_BYTES"

type_synonym quota_observation_id = digest

record quota_scope =
  sc_provider_id :: usage_provider_id
  sc_account_id :: string
  sc_workspace_id :: "string option"

record quota_window_key =
  wk_scope :: quota_scope
  wk_window_id :: string

type_synonym quota_ratio = u32

definition quota_ratio_new :: "u32 \<Rightarrow> quota_error + quota_ratio" where
  "quota_ratio_new ppm = (if 1000000 < ppm then Inl InvalidRatio else Inr ppm)"

record quota_units =
  un_unit_id :: string
  un_used :: "u64 option"
  un_remaining :: "u64 option"
  un_capacity :: "u64 option"

definition quota_units_new ::
  "string \<Rightarrow> u64 option \<Rightarrow> u64 option \<Rightarrow> u64 option \<Rightarrow> quota_error + quota_units" where
  "quota_units_new unit_id used remaining capacity =
     (if used = None \<and> remaining = None \<and> capacity = None then Inl EmptyUnits
      else if is_some_and (\<lambda>(used, capacity). capacity < used) (zip_option used capacity)
      then Inl (UnitsExceedCapacity ''used'')
      else if is_some_and (\<lambda>(remaining, capacity). capacity < remaining) (zip_option remaining capacity)
      then Inl (UnitsExceedCapacity ''remaining'')
      else Inr \<lparr>un_unit_id = unit_id, un_used = used, un_remaining = remaining,
                un_capacity = capacity\<rparr>)"

datatype quota_window_semantics =
  Semantics_Fixed | Semantics_Rolling | Semantics_Credit | Semantics_Unknown
datatype quota_presentation_direction =
  Presentation_Used | Presentation_Remaining | Presentation_Pace
datatype quota_confidence =
  Confidence_High | Confidence_Medium | Confidence_Low | Confidence_Unknown
datatype quota_sample_quality =
  Quality_Authoritative | Quality_Partial | Quality_Conflict | Quality_Unknown
datatype quota_evidence_source =
  Source_ProviderLocal | Source_ProviderOfficial | Source_LocalResetEvent | Source_Manual
  | Source_Unknown
datatype quota_reset_evidence =
  Evidence_None | Evidence_ExplicitProvider | Evidence_ExplicitLocal | Evidence_ManualOrBanked

record quota_reset_thresholds =
  th_maximum_post_reset_used_ratio :: "quota_ratio option"
  th_minimum_post_reset_remaining_ratio :: "quota_ratio option"
  th_minimum_used_ratio_drop :: "quota_ratio option"

definition quota_reset_thresholds_new ::
  "quota_ratio option \<Rightarrow> quota_ratio option \<Rightarrow> quota_ratio option
    \<Rightarrow> quota_error + quota_reset_thresholds" where
  "quota_reset_thresholds_new max_used min_remaining min_drop =
     (if max_used = None \<and> min_remaining = None then Inl EmptyResetThresholds
      else if is_some_and (\<lambda>ratio. ratio = 0) min_drop then Inl InvalidMinimumDrop
      else Inr \<lparr>th_maximum_post_reset_used_ratio = max_used,
                th_minimum_post_reset_remaining_ratio = min_remaining,
                th_minimum_used_ratio_drop = min_drop\<rparr>)"

record quota_window_definition =
  wd_key :: quota_window_key
  wd_revision :: u64
  wd_label_key :: string
  wd_presentation :: quota_presentation_direction
  wd_semantics :: quota_window_semantics
  wd_nominal_duration_seconds :: "u64 option"
  wd_reset_thresholds :: "quota_reset_thresholds option"

definition quota_window_definition_new ::
  "quota_window_definition \<Rightarrow> quota_error + quota_window_definition" where
  "quota_window_definition_new parts =
     (if wd_revision parts = 0 then Inl InvalidDefinitionRevision
      else if \<not> valid_quota_id (wd_label_key parts) MAX_QUOTA_LABEL_KEY_BYTES then Inl InvalidLabelKey
      else if wd_nominal_duration_seconds parts = Some 0 then Inl InvalidNominalDuration
      else if wd_reset_thresholds parts \<noteq> None \<and> wd_semantics parts \<noteq> Semantics_Fixed
      then Inl ThresholdsRequireFixedWindow
      else Inr parts)"

record quota_sample =
  sa_key :: quota_window_key
  sa_observation_id :: quota_observation_id
  sa_observed_at_ms :: i64
  sa_fresh_until_ms :: i64
  sa_stale_after_ms :: i64
  sa_provider_epoch_id :: "string option"
  sa_used_ratio :: "quota_ratio option"
  sa_remaining_ratio :: "quota_ratio option"
  sa_units :: "quota_units option"
  sa_advertised_resets_at_ms :: "i64 option"
  sa_quality :: quota_sample_quality
  sa_source :: quota_evidence_source
  sa_confidence :: quota_confidence
  sa_reset_evidence :: quota_reset_evidence
  sa_reset_occurred_at_ms :: "i64 option"

definition quota_sample_new :: "quota_sample \<Rightarrow> quota_error + quota_sample" where
  "quota_sample_new parts =
     (if sa_observed_at_ms parts \<le> 0 \<or> sa_fresh_until_ms parts < sa_observed_at_ms parts \<or>
         sa_stale_after_ms parts < sa_fresh_until_ms parts
      then Inl InvalidSampleTimes
      else if is_some_and (\<lambda>reset_time. reset_time \<le> 0) (sa_advertised_resets_at_ms parts)
      then Inl InvalidAdvertisedResetTime
      else let has_explicit_reset = (sa_reset_evidence parts \<noteq> Evidence_None) in
        if sa_provider_epoch_id parts = None \<and> sa_used_ratio parts = None \<and>
           sa_remaining_ratio parts = None \<and> sa_units parts = None \<and>
           sa_advertised_resets_at_ms parts = None \<and> \<not> has_explicit_reset
        then Inl EmptySample
        else if sa_reset_occurred_at_ms parts \<noteq> None \<and> \<not> has_explicit_reset
        then Inl ResetTimeWithoutEvidence
        else if is_some_and (\<lambda>t. t \<le> 0 \<or> sa_observed_at_ms parts < t) (sa_reset_occurred_at_ms parts)
        then Inl InvalidResetOccurredAt
        else Inr parts)"

section \<open>Identities\<close>

definition SCOPE_DOMAIN :: "u8 list" where
  "SCOPE_DOMAIN = bytes_of ''tokenmaster.quota.scope.v1''"

definition EPOCH_DOMAIN :: "u8 list" where
  "EPOCH_DOMAIN = bytes_of ''tokenmaster.quota.epoch.v1''"

definition TRANSITION_DOMAIN :: "u8 list" where
  "TRANSITION_DOMAIN = bytes_of ''tokenmaster.quota.transition.v1''"

definition quota_scope_message :: "quota_scope \<Rightarrow> u8 list" where
  "quota_scope_message scope =
     (let workspace_presence = [if sc_workspace_id scope \<noteq> None then 1 else 0];
          hasher = update_field [] SCOPE_DOMAIN;
          hasher = update_field hasher (bytes_of (sc_provider_id scope));
          hasher = update_field hasher (bytes_of (sc_account_id scope));
          hasher = update_field hasher workspace_presence
      in case sc_workspace_id scope of
           Some workspace_id \<Rightarrow> update_field hasher (bytes_of workspace_id)
         | None \<Rightarrow> hasher)"

definition quota_scope_id :: "(u8 list \<Rightarrow> digest) \<Rightarrow> quota_scope \<Rightarrow> digest" where
  "quota_scope_id sha256 scope = sha256 (quota_scope_message scope)"

definition quota_epoch_message ::
  "(u8 list \<Rightarrow> digest) \<Rightarrow> quota_window_key \<Rightarrow> u64 \<Rightarrow> quota_observation_id \<Rightarrow> u8 list" where
  "quota_epoch_message sha256 key definition_revision first_observation_id =
     foldl update_field []
       [EPOCH_DOMAIN, quota_scope_id sha256 (wk_scope key), bytes_of (wk_window_id key),
        be_bytes definition_revision, first_observation_id]"

definition quota_epoch_id ::
  "(u8 list \<Rightarrow> digest) \<Rightarrow> quota_window_key \<Rightarrow> u64 \<Rightarrow> quota_observation_id \<Rightarrow> digest" where
  "quota_epoch_id sha256 key definition_revision first_observation_id =
     sha256 (quota_epoch_message sha256 key definition_revision first_observation_id)"

record transition_identity_input =
  ti_key :: quota_window_key
  ti_definition_revision :: u64
  ti_sequence :: u64
  ti_kind_code :: u8
  ti_previous_epoch_id :: digest
  ti_current_epoch_id :: digest
  ti_pre_observation_id :: quota_observation_id
  ti_post_observation_id :: quota_observation_id

definition quota_transition_message ::
  "(u8 list \<Rightarrow> digest) \<Rightarrow> transition_identity_input \<Rightarrow> u8 list" where
  "quota_transition_message sha256 input =
     foldl update_field []
       [TRANSITION_DOMAIN, quota_scope_id sha256 (wk_scope (ti_key input)),
        bytes_of (wk_window_id (ti_key input)), be_bytes (ti_definition_revision input),
        be_bytes (ti_sequence input), [ti_kind_code input], ti_previous_epoch_id input,
        ti_current_epoch_id input, ti_pre_observation_id input, ti_post_observation_id input]"

definition quota_transition_id ::
  "(u8 list \<Rightarrow> digest) \<Rightarrow> transition_identity_input \<Rightarrow> digest" where
  "quota_transition_id sha256 input = sha256 (quota_transition_message sha256 input)"

section \<open>Lemmas\<close>

lemma quota_sample_new_iff:
  "quota_sample_new s = Inr s' \<longleftrightarrow>
     s' = s \<and> 0 < sa_observed_at_ms s \<and> sa_observed_at_ms s \<le> sa_fresh_until_ms s \<and>
     sa_fresh_until_ms s \<le> sa_stale_after_ms s \<and>
     is_none_or (\<lambda>t. 0 < t) (sa_advertised_resets_at_ms s) \<and>
     (sa_provider_epoch_id s \<noteq> None \<or> sa_used_ratio s \<noteq> None \<or> sa_remaining_ratio s \<noteq> None \<or>
      sa_units s \<noteq> None \<or> sa_advertised_resets_at_ms s \<noteq> None \<or>
      sa_reset_evidence s \<noteq> Evidence_None) \<and>
     (sa_reset_occurred_at_ms s \<noteq> None \<longrightarrow> sa_reset_evidence s \<noteq> Evidence_None) \<and>
     is_none_or (\<lambda>t. 0 < t \<and> t \<le> sa_observed_at_ms s) (sa_reset_occurred_at_ms s)"
  by (cases "sa_advertised_resets_at_ms s"; cases "sa_reset_occurred_at_ms s")
    (auto simp: quota_sample_new_def Let_def)

lemma quota_units_new_ok:
  "quota_units_new i u r c = Inr x \<Longrightarrow>
     is_none_or (\<lambda>cap. is_none_or (\<lambda>v. v \<le> cap) (un_used x) \<and> is_none_or (\<lambda>v. v \<le> cap) (un_remaining x))
       (un_capacity x)"
  by (cases u; cases r; cases c) (auto simp: quota_units_new_def split: if_splits)

lemma bytes_of_field_ok: "length s < 2 ^ 64 \<Longrightarrow> field_ok (bytes_of s)"
  by (simp add: field_ok_def)

lemma be_bytes_field_ok [simp]: "field_ok (be_bytes (w :: u64))"
  by (simp add: field_ok_def)

text \<open>The bounds that the validated identifiers give the encoded fields.\<close>

definition quota_key_ok :: "quota_window_key \<Rightarrow> bool" where
  "quota_key_ok key \<longleftrightarrow>
     length (sc_provider_id (wk_scope key)) \<le> 64 \<and>
     length (sc_account_id (wk_scope key)) \<le> MAX_QUOTA_ID_BYTES \<and>
     is_none_or (\<lambda>w. length w \<le> MAX_QUOTA_ID_BYTES) (sc_workspace_id (wk_scope key)) \<and>
     length (wk_window_id key) \<le> MAX_QUOTA_ID_BYTES"

lemma quota_scope_message_fields:
  "quota_scope_message scope =
     foldl update_field []
       ([SCOPE_DOMAIN, bytes_of (sc_provider_id scope), bytes_of (sc_account_id scope),
         [if sc_workspace_id scope \<noteq> None then 1 else 0]] @
        (case sc_workspace_id scope of Some w \<Rightarrow> [bytes_of w] | None \<Rightarrow> []))"
  by (cases "sc_workspace_id scope") (simp_all add: quota_scope_message_def Let_def)

lemma quota_scope_message_inj:
  assumes "quota_key_ok k" "quota_key_ok k'"
    and eq: "quota_scope_message (wk_scope k) = quota_scope_message (wk_scope k')"
  shows "wk_scope k = wk_scope k'"
proof -
  let ?h = "\<lambda>s. [SCOPE_DOMAIN, bytes_of (sc_provider_id s), bytes_of (sc_account_id s),
      [if sc_workspace_id s \<noteq> None then 1 else 0] :: u8 list]"
  let ?t = "\<lambda>s. (case sc_workspace_id s of Some w \<Rightarrow> [bytes_of w] | None \<Rightarrow> [])"
  let ?s = "wk_scope k" and ?s' = "wk_scope k'"
  have head_ok: "list_all field_ok (?h ?s)" "list_all field_ok (?h ?s')"
    using assms(1,2) by (simp_all add: quota_key_ok_def field_ok_def MAX_QUOTA_ID_BYTES_def
        SCOPE_DOMAIN_def)
  have "concat (map field_bytes (?h ?s)) @ concat (map field_bytes (?t ?s)) =
      concat (map field_bytes (?h ?s')) @ concat (map field_bytes (?t ?s'))"
    using eq unfolding quota_scope_message_fields update_fields_concat map_append concat_append
    by simp
  from field.cut_list [OF _ head_ok this]
  have h: "?h ?s = ?h ?s'" and t: "concat (map field_bytes (?t ?s)) = concat (map field_bytes (?t ?s'))"
    by simp_all
  have "sc_workspace_id ?s = sc_workspace_id ?s'"
  proof (cases "sc_workspace_id ?s")
    case None
    with h show ?thesis by (cases "sc_workspace_id ?s'") simp_all
  next
    case (Some w)
    with h obtain w' where w': "sc_workspace_id ?s' = Some w'" by (cases "sc_workspace_id ?s'") simp_all
    have "field_ok (bytes_of w)" "field_ok (bytes_of w')"
      using assms(1,2) Some w' by (simp_all add: quota_key_ok_def field_ok_def MAX_QUOTA_ID_BYTES_def)
    from field.enc_eqD [OF this] t Some w' show ?thesis by simp
  qed
  with h show ?thesis by (cases ?s; cases ?s') simp
qed

lemma quota_epoch_message_inj:
  assumes ok: "quota_key_ok k" "quota_key_ok k'" "length o1 = 32" "length o2 = 32"
    and digest: "\<And>m. length (sha256 m) = 32"
    and eq: "quota_epoch_message sha256 k r o1 = quota_epoch_message sha256 k' r' o2"
  shows "quota_scope_id sha256 (wk_scope k) = quota_scope_id sha256 (wk_scope k') \<and>
    wk_window_id k = wk_window_id k' \<and> r = r' \<and> o1 = o2"
proof -
  let ?f = "\<lambda>k r x. [EPOCH_DOMAIN, quota_scope_id sha256 (wk_scope k), bytes_of (wk_window_id k),
      be_bytes (r :: u64), x]"
  have "list_all field_ok (?f k r o1)" "list_all field_ok (?f k' r' o2)"
    using ok digest by (simp_all add: quota_key_ok_def field_ok_def MAX_QUOTA_ID_BYTES_def
        EPOCH_DOMAIN_def quota_scope_id_def)
  from update_fields_inj [OF _ this] eq
  have "?f k r o1 = ?f k' r' o2" by (simp only: quota_epoch_message_def list.size)
  then show ?thesis using be64.enc_eqD [OF TrueI TrueI] by simp
qed

end
