(* ===== verification/QuotaDetector.thy ===== *)
theory QuotaDetector
  imports Quota
begin

text \<open>
  The quota detector of \<open>crates/quota/src/detector.rs\<close>: it folds quota samples into epochs
  and reports resets and allowance changes as transitions.  The state between two samples is
  \<open>quota_epoch_state\<close>; \<open>evaluate_sample\<close> is the whole step.
\<close>

section \<open>Data\<close>

datatype quota_error_code =
    UnexpectedPrevious | MissingPrevious | SampleWindowMismatch | StateWindowMismatch
  | PreviousWindowMismatch | StatePreviousMismatch | DefinitionRevisionRegressed
  | DuplicateConflict | InvalidTransitionSequence | TransitionSequenceOverflow
  | InvalidEpochState | InvalidTransitionState

datatype quota_transition_kind =
  ScheduledReset | EarlyReset | ManualOrBankedReset | UnknownReset | Kind_AllowanceChanged

fun identity_code :: "quota_transition_kind \<Rightarrow> u8" where
  "identity_code ScheduledReset = 1"
| "identity_code EarlyReset = 2"
| "identity_code ManualOrBankedReset = 3"
| "identity_code UnknownReset = 4"
| "identity_code Kind_AllowanceChanged = 5"

datatype quota_allowance_change_kind = Allowance_Increased | Allowance_Decreased | Allowance_UnitChanged

record quota_allowance_change =
  ac_kind :: quota_allowance_change_kind
  ac_old_units :: quota_units
  ac_new_units :: quota_units

definition quota_allowance_change_restore ::
  "quota_allowance_change_kind \<Rightarrow> quota_units \<Rightarrow> quota_units
    \<Rightarrow> quota_error_code + quota_allowance_change" where
  "quota_allowance_change_restore kind old_units new_units =
     and_then (ok_or InvalidTransitionState (un_capacity old_units)) (\<lambda>old_capacity.
     and_then (ok_or InvalidTransitionState (un_capacity new_units)) (\<lambda>new_capacity.
       let valid = (case kind of
             Allowance_Increased \<Rightarrow>
               un_unit_id old_units = un_unit_id new_units \<and> old_capacity < new_capacity
           | Allowance_Decreased \<Rightarrow>
               un_unit_id old_units = un_unit_id new_units \<and> new_capacity < old_capacity
           | Allowance_UnitChanged \<Rightarrow> un_unit_id old_units \<noteq> un_unit_id new_units)
       in if \<not> valid then Inl InvalidTransitionState
          else Inr \<lparr>ac_kind = kind, ac_old_units = old_units, ac_new_units = new_units\<rparr>))"

datatype quota_detection_time = Detection_Exact i64 | Detection_Interval i64 i64

record quota_epoch_state =
  es_key :: quota_window_key
  es_epoch_definition_revision :: u64
  es_definition_revision :: u64
  es_epoch_id :: digest
  es_first_observation_id :: quota_observation_id
  es_last_observation_id :: quota_observation_id
  es_first_observed_at_ms :: i64
  es_last_observed_at_ms :: i64
  es_maximum_used_ratio :: "quota_ratio option"
  es_maximum_used_ratio_observation_id :: "quota_observation_id option"
  es_maximum_used_units :: "quota_units option"
  es_maximum_used_units_observation_id :: "quota_observation_id option"
  es_provider_epoch_id :: "string option"
  es_advertised_resets_at_ms :: "i64 option"
  es_last_transition_sequence :: u64

definition quota_epoch_state_restore ::
  "(u8 list \<Rightarrow> digest) \<Rightarrow> quota_epoch_state \<Rightarrow> quota_error_code + quota_epoch_state" where
  "quota_epoch_state_restore sha256 parts =
     (if es_epoch_definition_revision parts = 0 \<or>
         es_definition_revision parts < es_epoch_definition_revision parts \<or>
         es_first_observed_at_ms parts \<le> 0 \<or>
         es_last_observed_at_ms parts < es_first_observed_at_ms parts \<or>
         is_some_and (\<lambda>v. v \<le> 0) (es_advertised_resets_at_ms parts) \<or>
         (es_maximum_used_ratio parts \<noteq> None) \<noteq> (es_maximum_used_ratio_observation_id parts \<noteq> None) \<or>
         (es_maximum_used_units parts \<noteq> None) \<noteq> (es_maximum_used_units_observation_id parts \<noteq> None) \<or>
         is_some_and (\<lambda>units. un_used units = None) (es_maximum_used_units parts) \<or>
         es_epoch_id parts \<noteq>
           quota_epoch_id sha256 (es_key parts) (es_epoch_definition_revision parts)
             (es_first_observation_id parts)
      then Inl InvalidEpochState else Inr parts)"

record quota_transition =
  tr_id :: digest
  tr_definition_revision :: u64
  tr_sequence :: u64
  tr_key :: quota_window_key
  tr_kind :: quota_transition_kind
  tr_previous_epoch_id :: digest
  tr_current_epoch_id :: digest
  tr_pre_observation_id :: quota_observation_id
  tr_post_observation_id :: quota_observation_id
  tr_maximum_used_ratio_before :: "quota_ratio option"
  tr_maximum_used_ratio_observation_id_before :: "quota_observation_id option"
  tr_maximum_used_units_before :: "quota_units option"
  tr_maximum_used_units_observation_id_before :: "quota_observation_id option"
  tr_old_resets_at_ms :: "i64 option"
  tr_new_resets_at_ms :: "i64 option"
  tr_allowance_change :: "quota_allowance_change option"
  tr_source :: quota_evidence_source
  tr_confidence :: quota_confidence
  tr_detection_time :: quota_detection_time

definition transition_identity :: "quota_transition \<Rightarrow> transition_identity_input" where
  "transition_identity parts =
     \<lparr>ti_key = tr_key parts, ti_definition_revision = tr_definition_revision parts,
      ti_sequence = tr_sequence parts, ti_kind_code = identity_code (tr_kind parts),
      ti_previous_epoch_id = tr_previous_epoch_id parts,
      ti_current_epoch_id = tr_current_epoch_id parts,
      ti_pre_observation_id = tr_pre_observation_id parts,
      ti_post_observation_id = tr_post_observation_id parts\<rparr>"

definition valid_detection_time :: "quota_detection_time \<Rightarrow> bool" where
  "valid_detection_time t =
     (case t of Detection_Exact at_ms \<Rightarrow> 0 < at_ms
      | Detection_Interval after_ms at_or_before_ms \<Rightarrow> 0 < after_ms \<and> after_ms < at_or_before_ms)"

definition quota_transition_restore ::
  "(u8 list \<Rightarrow> digest) \<Rightarrow> quota_transition \<Rightarrow> quota_error_code + quota_transition" where
  "quota_transition_restore sha256 parts =
     (let reset_epoch_shape = (tr_previous_epoch_id parts \<noteq> tr_current_epoch_id parts);
          allowance_shape = (tr_kind parts = Kind_AllowanceChanged \<and> \<not> reset_epoch_shape \<and>
                             tr_allowance_change parts \<noteq> None);
          reset_shape = (tr_kind parts \<noteq> Kind_AllowanceChanged \<and> reset_epoch_shape);
          expected_id = quota_transition_id sha256 (transition_identity parts)
      in if tr_definition_revision parts = 0 \<or> tr_sequence parts = 0 \<or>
            (\<not> allowance_shape \<and> \<not> reset_shape) \<or>
            tr_pre_observation_id parts = tr_post_observation_id parts \<or>
            (tr_maximum_used_ratio_before parts \<noteq> None) \<noteq>
              (tr_maximum_used_ratio_observation_id_before parts \<noteq> None) \<or>
            (tr_maximum_used_units_before parts \<noteq> None) \<noteq>
              (tr_maximum_used_units_observation_id_before parts \<noteq> None) \<or>
            is_some_and (\<lambda>units. un_used units = None) (tr_maximum_used_units_before parts) \<or>
            is_some_and (\<lambda>v. v \<le> 0) (tr_old_resets_at_ms parts) \<or>
            is_some_and (\<lambda>v. v \<le> 0) (tr_new_resets_at_ms parts) \<or>
            \<not> valid_detection_time (tr_detection_time parts) \<or>
            tr_id parts \<noteq> expected_id
         then Inl InvalidTransitionState else Inr parts)"

datatype quota_evaluation =
    Eval_Started quota_epoch_state
  | Eval_Duplicate
  | Eval_Stale
  | Eval_Advanced quota_epoch_state
  | Eval_AllowanceChanged quota_epoch_state quota_transition
  | Eval_Reset quota_epoch_state quota_transition

datatype reset_signal =
  Signal_ManualOrBanked | Signal_ProviderEpoch | Signal_Explicit | Signal_ThresholdAdvanced
  | Signal_ThresholdUnknown

section \<open>The detector\<close>

definition start_epoch_with_sequence ::
  "(u8 list \<Rightarrow> digest) \<Rightarrow> quota_window_definition \<Rightarrow> quota_sample \<Rightarrow> u64 \<Rightarrow> quota_epoch_state" where
  "start_epoch_with_sequence sha256 def sample last_transition_sequence =
     (let max_units = filter_option (\<lambda>units. un_used units \<noteq> None) (sa_units sample)
      in \<lparr>es_key = sa_key sample,
          es_epoch_definition_revision = wd_revision def,
          es_definition_revision = wd_revision def,
          es_epoch_id = quota_epoch_id sha256 (sa_key sample) (wd_revision def) (sa_observation_id sample),
          es_first_observation_id = sa_observation_id sample,
          es_last_observation_id = sa_observation_id sample,
          es_first_observed_at_ms = sa_observed_at_ms sample,
          es_last_observed_at_ms = sa_observed_at_ms sample,
          es_maximum_used_ratio = sa_used_ratio sample,
          es_maximum_used_ratio_observation_id =
            map_option (\<lambda>_. sa_observation_id sample) (sa_used_ratio sample),
          es_maximum_used_units = max_units,
          es_maximum_used_units_observation_id = map_option (\<lambda>_. sa_observation_id sample) max_units,
          es_provider_epoch_id = sa_provider_epoch_id sample,
          es_advertised_resets_at_ms = sa_advertised_resets_at_ms sample,
          es_last_transition_sequence = last_transition_sequence\<rparr>)"

definition start_epoch ::
  "(u8 list \<Rightarrow> digest) \<Rightarrow> quota_window_definition \<Rightarrow> quota_sample \<Rightarrow> quota_epoch_state" where
  "start_epoch sha256 def sample = start_epoch_with_sequence sha256 def sample 0"

definition maximum_ratio ::
  "quota_ratio option \<Rightarrow> quota_observation_id option \<Rightarrow> quota_ratio option \<Rightarrow> quota_observation_id
    \<Rightarrow> quota_ratio option \<times> quota_observation_id option" where
  "maximum_ratio current current_observation_id sample sample_observation_id =
     (case (current, sample) of
        (Some c, Some s) \<Rightarrow>
          if c < s then (Some s, Some sample_observation_id) else (Some c, current_observation_id)
      | (Some c, None) \<Rightarrow> (Some c, current_observation_id)
      | (None, Some s) \<Rightarrow> (Some s, Some sample_observation_id)
      | (None, None) \<Rightarrow> (None, None))"

text \<open>\<open>PartialOrd\<close> on \<open>Option<u64>\<close>: \<open>None\<close> is below every \<open>Some\<close>.\<close>

fun option_greater :: "u64 option \<Rightarrow> u64 option \<Rightarrow> bool" where
  "option_greater (Some a) (Some b) = (b < a)"
| "option_greater (Some a) None = True"
| "option_greater None b = False"

definition maximum_units ::
  "quota_units option \<Rightarrow> quota_observation_id option \<Rightarrow> quota_units option \<Rightarrow> quota_observation_id
    \<Rightarrow> quota_units option \<times> quota_observation_id option" where
  "maximum_units current current_observation_id sample sample_observation_id =
     (case (current, filter_option (\<lambda>units. un_used units \<noteq> None) sample) of
        (Some c, Some s) \<Rightarrow>
          if un_unit_id c = un_unit_id s
          then (if option_greater (un_used s) (un_used c) then (Some s, Some sample_observation_id)
                else (Some c, current_observation_id))
          else (None, None)
      | (Some c, None) \<Rightarrow> (Some c, current_observation_id)
      | (None, Some s) \<Rightarrow> (Some s, Some sample_observation_id)
      | (None, None) \<Rightarrow> (None, None))"

definition advance_epoch ::
  "quota_window_definition \<Rightarrow> quota_epoch_state \<Rightarrow> quota_sample \<Rightarrow> quota_epoch_state" where
  "advance_epoch def current sample =
     (let (max_ratio, max_ratio_id) =
            maximum_ratio (es_maximum_used_ratio current) (es_maximum_used_ratio_observation_id current)
              (sa_used_ratio sample) (sa_observation_id sample);
          (max_units, max_units_id) =
            maximum_units (es_maximum_used_units current) (es_maximum_used_units_observation_id current)
              (sa_units sample) (sa_observation_id sample)
      in \<lparr>es_key = es_key current,
          es_epoch_definition_revision = es_epoch_definition_revision current,
          es_definition_revision = wd_revision def,
          es_epoch_id = es_epoch_id current,
          es_first_observation_id = es_first_observation_id current,
          es_last_observation_id = sa_observation_id sample,
          es_first_observed_at_ms = es_first_observed_at_ms current,
          es_last_observed_at_ms = sa_observed_at_ms sample,
          es_maximum_used_ratio = max_ratio,
          es_maximum_used_ratio_observation_id = max_ratio_id,
          es_maximum_used_units = max_units,
          es_maximum_used_units_observation_id = max_units_id,
          es_provider_epoch_id = sa_provider_epoch_id sample,
          es_advertised_resets_at_ms = sa_advertised_resets_at_ms sample,
          es_last_transition_sequence = es_last_transition_sequence current\<rparr>)"

definition threshold_transition ::
  "quota_reset_thresholds \<Rightarrow> quota_sample \<Rightarrow> quota_sample \<Rightarrow> bool" where
  "threshold_transition thresholds previous sample =
     (let used_boundary =
            is_none_or (\<lambda>maximum. is_some_and (\<lambda>used. used \<le> maximum) (sa_used_ratio sample))
              (th_maximum_post_reset_used_ratio thresholds);
          remaining_boundary =
            is_none_or (\<lambda>minimum. is_some_and (\<lambda>remaining. minimum \<le> remaining) (sa_remaining_ratio sample))
              (th_minimum_post_reset_remaining_ratio thresholds);
          drop_boundary =
            is_none_or (\<lambda>minimum.
                is_some_and (\<lambda>drop. minimum \<le> drop)
                  (Option.bind (zip_option (sa_used_ratio previous) (sa_used_ratio sample))
                     (\<lambda>(previous, current). checked_sub previous current)))
              (th_minimum_used_ratio_drop thresholds);
          directional_recovery =
            (is_some_and (\<lambda>(previous, current). current < previous)
               (zip_option (sa_used_ratio previous) (sa_used_ratio sample)) \<or>
             is_some_and (\<lambda>(previous, current). previous < current)
               (zip_option (sa_remaining_ratio previous) (sa_remaining_ratio sample)))
      in used_boundary \<and> remaining_boundary \<and> drop_boundary \<and> directional_recovery)"

definition detect_reset_signal ::
  "quota_window_definition \<Rightarrow> quota_sample \<Rightarrow> quota_sample \<Rightarrow> reset_signal option" where
  "detect_reset_signal def previous sample =
     (if sa_reset_evidence sample = Evidence_ManualOrBanked then Some Signal_ManualOrBanked
      else if is_some_and (\<lambda>(previous, current). previous \<noteq> current)
                (zip_option (sa_provider_epoch_id previous) (sa_provider_epoch_id sample))
      then Some Signal_ProviderEpoch
      else if sa_reset_evidence sample = Evidence_ExplicitProvider \<or>
              sa_reset_evidence sample = Evidence_ExplicitLocal
      then Some Signal_Explicit
      else if wd_semantics def \<noteq> Semantics_Fixed \<or>
              sa_quality sample = Quality_Conflict \<or> sa_quality sample = Quality_Unknown \<or>
              sa_confidence sample = Confidence_Low \<or> sa_confidence sample = Confidence_Unknown
      then None
      else case wd_reset_thresholds def of
             None \<Rightarrow> None
           | Some thresholds \<Rightarrow>
               if \<not> threshold_transition thresholds previous sample then None
               else case (sa_advertised_resets_at_ms previous, sa_advertised_resets_at_ms sample) of
                      (Some p, Some c) \<Rightarrow> if p < c then Some Signal_ThresholdAdvanced else None
                    | _ \<Rightarrow> Some Signal_ThresholdUnknown)"

definition detect_allowance_change ::
  "quota_sample \<Rightarrow> quota_sample \<Rightarrow> quota_allowance_change option" where
  "detect_allowance_change previous sample =
     Option.bind (zip_option (sa_units previous) (sa_units sample)) (\<lambda>(old_units, new_units).
     Option.bind (zip_option (un_capacity old_units) (un_capacity new_units)) (\<lambda>(old_capacity, new_capacity).
       Option.bind
         (if un_unit_id old_units \<noteq> un_unit_id new_units then Some Allowance_UnitChanged
          else if old_capacity < new_capacity then Some Allowance_Increased
          else if new_capacity < old_capacity then Some Allowance_Decreased
          else None)
         (\<lambda>kind. Some \<lparr>ac_kind = kind, ac_old_units = old_units, ac_new_units = new_units\<rparr>)))"

definition exact_next_sequence :: "quota_epoch_state \<Rightarrow> u64 \<Rightarrow> quota_error_code + u64" where
  "exact_next_sequence current next_transition_sequence =
     and_then (ok_or TransitionSequenceOverflow (checked_add (es_last_transition_sequence current) 1))
       (\<lambda>expected. if next_transition_sequence \<noteq> expected then Inl InvalidTransitionSequence
                   else Inr expected)"

definition reset_occurred :: "quota_sample \<Rightarrow> quota_sample \<Rightarrow> i64 option" where
  "reset_occurred previous sample =
     filter_option (\<lambda>occurred. sa_observed_at_ms previous < occurred) (sa_reset_occurred_at_ms sample)"

definition reset_kind :: "reset_signal \<Rightarrow> quota_sample \<Rightarrow> quota_sample \<Rightarrow> quota_transition_kind" where
  "reset_kind signal previous sample =
     (if signal = Signal_ManualOrBanked then ManualOrBankedReset
      else if signal = Signal_ThresholdUnknown then UnknownReset
      else case sa_advertised_resets_at_ms previous of
             None \<Rightarrow> UnknownReset
           | Some boundary \<Rightarrow>
               let comparison_time =
                     (case reset_occurred previous sample of
                        Some t \<Rightarrow> t | None \<Rightarrow> sa_observed_at_ms sample)
               in if boundary \<le> comparison_time then ScheduledReset else EarlyReset)"

definition reset_confidence :: "reset_signal \<Rightarrow> quota_sample \<Rightarrow> quota_confidence" where
  "reset_confidence signal sample =
     (case signal of
        Signal_ThresholdUnknown \<Rightarrow> Confidence_Low
      | Signal_ThresholdAdvanced \<Rightarrow>
          if sa_quality sample = Quality_Partial then Confidence_Low else sa_confidence sample
      | _ \<Rightarrow> sa_confidence sample)"

definition reset_detection_time :: "quota_sample \<Rightarrow> quota_sample \<Rightarrow> quota_detection_time" where
  "reset_detection_time previous sample =
     (case reset_occurred previous sample of
        Some occurred_at_ms \<Rightarrow> Detection_Exact occurred_at_ms
      | None \<Rightarrow> Detection_Interval (sa_observed_at_ms previous) (sa_observed_at_ms sample))"

definition make_transition ::
  "(u8 list \<Rightarrow> digest) \<Rightarrow> quota_window_definition \<Rightarrow> quota_epoch_state \<Rightarrow> quota_epoch_state
    \<Rightarrow> quota_sample \<Rightarrow> quota_sample \<Rightarrow> u64 \<Rightarrow> quota_transition_kind
    \<Rightarrow> quota_allowance_change option \<Rightarrow> quota_confidence \<Rightarrow> quota_detection_time
    \<Rightarrow> quota_transition" where
  "make_transition sha256 def previous_state current_state previous sample seq kind
       allowance_change confidence detection_time =
     \<lparr>tr_id = quota_transition_id sha256
        \<lparr>ti_key = wd_key def, ti_definition_revision = wd_revision def, ti_sequence = seq,
         ti_kind_code = identity_code kind, ti_previous_epoch_id = es_epoch_id previous_state,
         ti_current_epoch_id = es_epoch_id current_state,
         ti_pre_observation_id = sa_observation_id previous,
         ti_post_observation_id = sa_observation_id sample\<rparr>,
      tr_definition_revision = wd_revision def, tr_sequence = seq, tr_key = wd_key def,
      tr_kind = kind, tr_previous_epoch_id = es_epoch_id previous_state,
      tr_current_epoch_id = es_epoch_id current_state,
      tr_pre_observation_id = sa_observation_id previous,
      tr_post_observation_id = sa_observation_id sample,
      tr_maximum_used_ratio_before = es_maximum_used_ratio previous_state,
      tr_maximum_used_ratio_observation_id_before =
        es_maximum_used_ratio_observation_id previous_state,
      tr_maximum_used_units_before = es_maximum_used_units previous_state,
      tr_maximum_used_units_observation_id_before =
        es_maximum_used_units_observation_id previous_state,
      tr_old_resets_at_ms = sa_advertised_resets_at_ms previous,
      tr_new_resets_at_ms = sa_advertised_resets_at_ms sample,
      tr_allowance_change = allowance_change, tr_source = sa_source sample,
      tr_confidence = confidence, tr_detection_time = detection_time\<rparr>"

definition evaluate_next ::
  "(u8 list \<Rightarrow> digest) \<Rightarrow> quota_window_definition \<Rightarrow> quota_epoch_state \<Rightarrow> quota_sample
    \<Rightarrow> quota_sample \<Rightarrow> u64 \<Rightarrow> quota_error_code + quota_evaluation" where
  "evaluate_next sha256 def current previous sample next_transition_sequence =
     (let allowance_change = detect_allowance_change previous sample in
      case detect_reset_signal def previous sample of
        Some signal \<Rightarrow>
          and_then (exact_next_sequence current next_transition_sequence) (\<lambda>seq.
            let next_state = start_epoch_with_sequence sha256 def sample seq;
                kind = reset_kind signal previous sample
            in Inr (Eval_Reset next_state
                 (make_transition sha256 def current next_state previous sample seq kind
                    allowance_change (reset_confidence signal sample)
                    (reset_detection_time previous sample))))
      | None \<Rightarrow>
          let next_state = advance_epoch def current sample in
          case allowance_change of
            Some change \<Rightarrow>
              and_then (exact_next_sequence current next_transition_sequence) (\<lambda>seq.
                let next_state = next_state\<lparr>es_last_transition_sequence := seq\<rparr>
                in Inr (Eval_AllowanceChanged next_state
                     (make_transition sha256 def current next_state previous sample seq
                        Kind_AllowanceChanged (Some change) (sa_confidence sample)
                        (Detection_Interval (sa_observed_at_ms previous) (sa_observed_at_ms sample)))))
          | None \<Rightarrow> Inr (Eval_Advanced next_state))"

definition evaluate_sample ::
  "(u8 list \<Rightarrow> digest) \<Rightarrow> quota_window_definition \<Rightarrow> quota_epoch_state option
    \<Rightarrow> quota_sample option \<Rightarrow> quota_sample \<Rightarrow> u64 \<Rightarrow> quota_error_code + quota_evaluation" where
  "evaluate_sample sha256 def current previous sample next_transition_sequence =
     (if sa_key sample \<noteq> wd_key def then Inl SampleWindowMismatch
      else case current of
        None \<Rightarrow>
          if previous \<noteq> None then Inl UnexpectedPrevious
          else Inr (Eval_Started (start_epoch sha256 def sample))
      | Some current \<Rightarrow>
          if es_key current \<noteq> wd_key def then Inl StateWindowMismatch
          else if wd_revision def < es_definition_revision current
          then Inl DefinitionRevisionRegressed
          else and_then (ok_or MissingPrevious previous) (\<lambda>previous.
            if sa_key previous \<noteq> wd_key def then Inl PreviousWindowMismatch
            else if es_last_observation_id current \<noteq> sa_observation_id previous \<or>
                    es_last_observed_at_ms current \<noteq> sa_observed_at_ms previous \<or>
                    es_provider_epoch_id current \<noteq> sa_provider_epoch_id previous \<or>
                    es_advertised_resets_at_ms current \<noteq> sa_advertised_resets_at_ms previous
            then Inl StatePreviousMismatch
            else if sa_observation_id sample = sa_observation_id previous
            then (if sample = previous then Inr Eval_Duplicate else Inl DuplicateConflict)
            else if sa_observed_at_ms sample \<le> sa_observed_at_ms previous then Inr Eval_Stale
            else evaluate_next sha256 def current previous sample next_transition_sequence))"

section \<open>Shape of an evaluation\<close>

definition state_follows :: "quota_epoch_state \<Rightarrow> quota_sample \<Rightarrow> bool" where
  "state_follows st p \<longleftrightarrow>
     es_key st = sa_key p \<and> es_last_observation_id st = sa_observation_id p \<and>
     es_last_observed_at_ms st = sa_observed_at_ms p \<and>
     es_provider_epoch_id st = sa_provider_epoch_id p \<and>
     es_advertised_resets_at_ms st = sa_advertised_resets_at_ms p"

lemma exact_next_sequence_iff:
  "exact_next_sequence st n = Inr m \<longleftrightarrow>
     m = n \<and> unat n = unat (es_last_transition_sequence st) + 1"
  by (auto simp: exact_next_sequence_def and_then_Inr_iff ok_or_Inr_iff checked_add_iff)

lemma evaluate_sample_Started:
  "evaluate_sample h d None None s n = Inr e \<longleftrightarrow>
     sa_key s = wd_key d \<and> e = Eval_Started (start_epoch h d s)"
  by (auto simp: evaluate_sample_def)

lemma evaluate_sample_Inr_iff:
  "evaluate_sample h d (Some st) (Some p) s n = Inr e \<longleftrightarrow>
     sa_key s = wd_key d \<and> sa_key p = wd_key d \<and> state_follows st p \<and>
     es_definition_revision st \<le> wd_revision d \<and>
     (if sa_observation_id s = sa_observation_id p then s = p \<and> e = Eval_Duplicate
      else if sa_observed_at_ms s \<le> sa_observed_at_ms p then e = Eval_Stale
      else evaluate_next h d st p s n = Inr e)"
  by (auto simp: evaluate_sample_def state_follows_def not_less)

lemma evaluate_next_Advanced:
  "evaluate_next h d st p s n = Inr (Eval_Advanced st') \<longleftrightarrow>
     detect_reset_signal d p s = None \<and> detect_allowance_change p s = None \<and>
     st' = advance_epoch d st s"
  by (auto simp: evaluate_next_def Let_def and_then_Inr_iff split: option.splits)

lemma evaluate_next_Allowance:
  "evaluate_next h d st p s n = Inr (Eval_AllowanceChanged st' t) \<longleftrightarrow>
     detect_reset_signal d p s = None \<and>
     (\<exists>change. detect_allowance_change p s = Some change \<and>
       unat n = unat (es_last_transition_sequence st) + 1 \<and>
       st' = (advance_epoch d st s)\<lparr>es_last_transition_sequence := n\<rparr> \<and>
       t = make_transition h d st st' p s n Kind_AllowanceChanged (Some change) (sa_confidence s)
             (Detection_Interval (sa_observed_at_ms p) (sa_observed_at_ms s)))"
  by (auto simp: evaluate_next_def Let_def and_then_Inr_iff exact_next_sequence_iff
      split: option.splits)

lemma evaluate_next_Reset:
  "evaluate_next h d st p s n = Inr (Eval_Reset st' t) \<longleftrightarrow>
     (\<exists>signal. detect_reset_signal d p s = Some signal \<and>
       unat n = unat (es_last_transition_sequence st) + 1 \<and>
       st' = start_epoch_with_sequence h d s n \<and>
       t = make_transition h d st st' p s n (reset_kind signal p s) (detect_allowance_change p s)
             (reset_confidence signal s) (reset_detection_time p s))"
  by (auto simp: evaluate_next_def Let_def and_then_Inr_iff exact_next_sequence_iff
      split: option.splits)

lemma evaluate_next_kinds:
  "evaluate_next h d st p s n = Inr e \<Longrightarrow>
     (\<exists>st'. e = Eval_Advanced st') \<or> (\<exists>st' t. e = Eval_AllowanceChanged st' t) \<or>
     (\<exists>st' t. e = Eval_Reset st' t)"
  by (auto simp: evaluate_next_def Let_def and_then_Inr_iff split: option.splits)

section \<open>Epoch states\<close>

lemma restore_iff:
  "quota_epoch_state_restore h st = Inr st' \<longleftrightarrow>
     st' = st \<and> es_epoch_definition_revision st \<noteq> 0 \<and>
     es_epoch_definition_revision st \<le> es_definition_revision st \<and>
     0 < es_first_observed_at_ms st \<and> es_first_observed_at_ms st \<le> es_last_observed_at_ms st \<and>
     is_none_or (\<lambda>v. 0 < v) (es_advertised_resets_at_ms st) \<and>
     (es_maximum_used_ratio st = None \<longleftrightarrow> es_maximum_used_ratio_observation_id st = None) \<and>
     (es_maximum_used_units st = None \<longleftrightarrow> es_maximum_used_units_observation_id st = None) \<and>
     is_none_or (\<lambda>u. un_used u \<noteq> None) (es_maximum_used_units st) \<and>
     es_epoch_id st =
       quota_epoch_id h (es_key st) (es_epoch_definition_revision st) (es_first_observation_id st)"
  by (auto simp: quota_epoch_state_restore_def is_none_or_iff is_some_and_iff not_less not_le)

lemma maximum_ratio_ids:
  "c = None \<longleftrightarrow> i = None \<Longrightarrow>
   fst (maximum_ratio c i s x) = None \<longleftrightarrow> snd (maximum_ratio c i s x) = None"
  by (cases c; cases s) (simp_all add: maximum_ratio_def)

lemma maximum_units_ids:
  "c = None \<longleftrightarrow> i = None \<Longrightarrow>
   fst (maximum_units c i s x) = None \<longleftrightarrow> snd (maximum_units c i s x) = None"
  by (cases c; cases "filter_option (\<lambda>units. un_used units \<noteq> None) s")
    (simp_all add: maximum_units_def)

lemma maximum_units_used:
  "is_none_or (\<lambda>u. un_used u \<noteq> None) c \<Longrightarrow>
   is_none_or (\<lambda>u. un_used u \<noteq> None) (fst (maximum_units c i s x))"
  by (cases c; cases "filter_option (\<lambda>units. un_used units \<noteq> None) s")
    (auto simp: maximum_units_def filter_option_Some_iff)

lemma start_epoch_restorable:
  assumes "quota_window_definition_new d = Inr d" and "quota_sample_new s = Inr s"
  shows "quota_epoch_state_restore h (start_epoch_with_sequence h d s n) =
    Inr (start_epoch_with_sequence h d s n)"
proof -
  from assms have "wd_revision d \<noteq> 0" "0 < sa_observed_at_ms s"
      "is_none_or (\<lambda>t. 0 < t) (sa_advertised_resets_at_ms s)"
    by (auto simp: quota_window_definition_new_def quota_sample_new_iff split: if_splits)
  then show ?thesis
    by (cases "sa_units s")
      (auto simp: restore_iff start_epoch_with_sequence_def filter_option_Some_iff is_none_or_iff)
qed

lemma advance_epoch_fields:
  "es_key (advance_epoch d st s) = es_key st"
  "es_epoch_definition_revision (advance_epoch d st s) = es_epoch_definition_revision st"
  "es_definition_revision (advance_epoch d st s) = wd_revision d"
  "es_epoch_id (advance_epoch d st s) = es_epoch_id st"
  "es_first_observation_id (advance_epoch d st s) = es_first_observation_id st"
  "es_last_observation_id (advance_epoch d st s) = sa_observation_id s"
  "es_first_observed_at_ms (advance_epoch d st s) = es_first_observed_at_ms st"
  "es_last_observed_at_ms (advance_epoch d st s) = sa_observed_at_ms s"
  "es_maximum_used_ratio (advance_epoch d st s) =
     fst (maximum_ratio (es_maximum_used_ratio st) (es_maximum_used_ratio_observation_id st)
            (sa_used_ratio s) (sa_observation_id s))"
  "es_maximum_used_ratio_observation_id (advance_epoch d st s) =
     snd (maximum_ratio (es_maximum_used_ratio st) (es_maximum_used_ratio_observation_id st)
            (sa_used_ratio s) (sa_observation_id s))"
  "es_maximum_used_units (advance_epoch d st s) =
     fst (maximum_units (es_maximum_used_units st) (es_maximum_used_units_observation_id st)
            (sa_units s) (sa_observation_id s))"
  "es_maximum_used_units_observation_id (advance_epoch d st s) =
     snd (maximum_units (es_maximum_used_units st) (es_maximum_used_units_observation_id st)
            (sa_units s) (sa_observation_id s))"
  "es_provider_epoch_id (advance_epoch d st s) = sa_provider_epoch_id s"
  "es_advertised_resets_at_ms (advance_epoch d st s) = sa_advertised_resets_at_ms s"
  "es_last_transition_sequence (advance_epoch d st s) = es_last_transition_sequence st"
  by (simp_all add: advance_epoch_def split_beta)

lemma advance_epoch_restorable:
  assumes "quota_epoch_state_restore h st = Inr st" and "quota_sample_new s = Inr s"
    and "es_definition_revision st \<le> wd_revision d"
    and "es_last_observed_at_ms st \<le> sa_observed_at_ms s"
  shows "quota_epoch_state_restore h ((advance_epoch d st s)\<lparr>es_last_transition_sequence := n\<rparr>) =
    Inr ((advance_epoch d st s)\<lparr>es_last_transition_sequence := n\<rparr>)"
proof -
  from assms(1,3) have "es_epoch_definition_revision st \<le> wd_revision d"
    by (auto simp: restore_iff)
  then show ?thesis
    using assms maximum_ratio_ids maximum_units_ids maximum_units_used
    by (simp add: restore_iff advance_epoch_fields quota_sample_new_iff)
qed

section \<open>Reachable states\<close>

text \<open>
  A run of the detector on one window.  Besides the state and the previous sample, the two
  arguments the caller keeps, the relation carries the samples of the current epoch and the
  transitions emitted so far.
\<close>

inductive quota_reach ::
  "(u8 list \<Rightarrow> digest) \<Rightarrow> quota_epoch_state \<Rightarrow> quota_sample \<Rightarrow> quota_sample list
    \<Rightarrow> quota_transition list \<Rightarrow> bool" for h where
  started: "quota_window_definition_new d = Inr d \<Longrightarrow> quota_sample_new s = Inr s \<Longrightarrow>
     evaluate_sample h d None None s n = Inr (Eval_Started st) \<Longrightarrow>
     quota_reach h st s [s] []"
| advanced: "quota_reach h st p ss ts \<Longrightarrow>
     quota_window_definition_new d = Inr d \<Longrightarrow> quota_sample_new s = Inr s \<Longrightarrow>
     evaluate_sample h d (Some st) (Some p) s n = Inr (Eval_Advanced st') \<Longrightarrow>
     quota_reach h st' s (ss @ [s]) ts"
| allowance: "quota_reach h st p ss ts \<Longrightarrow>
     quota_window_definition_new d = Inr d \<Longrightarrow> quota_sample_new s = Inr s \<Longrightarrow>
     evaluate_sample h d (Some st) (Some p) s n = Inr (Eval_AllowanceChanged st' t) \<Longrightarrow>
     quota_reach h st' s (ss @ [s]) (ts @ [t])"
| reset: "quota_reach h st p ss ts \<Longrightarrow>
     quota_window_definition_new d = Inr d \<Longrightarrow> quota_sample_new s = Inr s \<Longrightarrow>
     evaluate_sample h d (Some st) (Some p) s n = Inr (Eval_Reset st' t) \<Longrightarrow>
     quota_reach h st' s [s] (ts @ [t])"

text \<open>
  An accepted sample continues the epoch or starts the next one; an invariant of the state and
  of the samples of its epoch needs these two cases only.
\<close>

lemma start_epoch_fields:
  "es_key (start_epoch_with_sequence h d s n) = sa_key s"
  "es_first_observation_id (start_epoch_with_sequence h d s n) = sa_observation_id s"
  "es_last_observation_id (start_epoch_with_sequence h d s n) = sa_observation_id s"
  "es_first_observed_at_ms (start_epoch_with_sequence h d s n) = sa_observed_at_ms s"
  "es_last_observed_at_ms (start_epoch_with_sequence h d s n) = sa_observed_at_ms s"
  "es_provider_epoch_id (start_epoch_with_sequence h d s n) = sa_provider_epoch_id s"
  "es_advertised_resets_at_ms (start_epoch_with_sequence h d s n) = sa_advertised_resets_at_ms s"
  "es_last_transition_sequence (start_epoch_with_sequence h d s n) = n"
  by (simp_all add: start_epoch_with_sequence_def Let_def)

lemma advance_epoch_same_sequence:
  "(advance_epoch d st s)\<lparr>es_last_transition_sequence := es_last_transition_sequence st\<rparr> =
     advance_epoch d st s"
  by (simp add: advance_epoch_def split_beta)

lemma reach_invariant [consumes 1, case_names start continue]:
  assumes "quota_reach h st p ss ts"
    and start: "\<And>d s n. quota_window_definition_new d = Inr d \<Longrightarrow> quota_sample_new s = Inr s \<Longrightarrow>
      P (start_epoch_with_sequence h d s n) s [s]"
    and continue: "\<And>st p ss d s m. P st p ss \<Longrightarrow> state_follows st p \<Longrightarrow>
      quota_sample_new s = Inr s \<Longrightarrow> sa_key s = es_key st \<Longrightarrow>
      es_definition_revision st \<le> wd_revision d \<Longrightarrow>
      es_last_observed_at_ms st < sa_observed_at_ms s \<Longrightarrow>
      P ((advance_epoch d st s)\<lparr>es_last_transition_sequence := m\<rparr>) s (ss @ [s])"
  shows "P st p ss"
  using assms(1)
proof (induction rule: quota_reach.induct)
  case (started d s n st)
  with start show ?case by (simp add: evaluate_sample_Started start_epoch_def)
next
  case (advanced st p ss ts d s n st')
  then have "state_follows st p" "sa_key s = es_key st" "es_definition_revision st \<le> wd_revision d"
      "es_last_observed_at_ms st < sa_observed_at_ms s" "st' = advance_epoch d st s"
    by (auto simp: evaluate_sample_Inr_iff evaluate_next_Advanced state_follows_def split: if_splits)
  with continue [OF advanced.IH _ advanced.hyps(3), of d "es_last_transition_sequence st"]
  show ?case by (simp add: advance_epoch_same_sequence)
next
  case (allowance st p ss ts d s n st' t)
  then have "state_follows st p" "sa_key s = es_key st" "es_definition_revision st \<le> wd_revision d"
      "es_last_observed_at_ms st < sa_observed_at_ms s"
      "st' = (advance_epoch d st s)\<lparr>es_last_transition_sequence := n\<rparr>"
    by (auto simp: evaluate_sample_Inr_iff evaluate_next_Allowance state_follows_def split: if_splits)
  with continue [OF allowance.IH _ allowance.hyps(3), of d n] show ?case by simp
next
  case (reset st p ss ts d s n st' t)
  then have "st' = start_epoch_with_sequence h d s n"
    by (auto simp: evaluate_sample_Inr_iff evaluate_next_Reset split: if_splits)
  with start reset.hyps(2,3) show ?case by simp
qed

lemma reach_restorable:
  "quota_reach h st p ss ts \<Longrightarrow>
     quota_epoch_state_restore h st = Inr st \<and> state_follows st p \<and> ss \<noteq> [] \<and> last ss = p"
proof (induction rule: reach_invariant)
  case (start d s n)
  then show ?case by (simp add: start_epoch_restorable state_follows_def start_epoch_fields)
next
  case (continue st p ss d s m)
  with advance_epoch_restorable [of h st s d m] show ?case
    by (simp add: state_follows_def advance_epoch_fields)
qed

lemma reach_sequence:
  "quota_reach h st p ss ts \<Longrightarrow>
     unat (es_last_transition_sequence st) = length ts \<and>
     map (\<lambda>t. unat (tr_sequence t)) ts = [1 ..< length ts + 1]"
proof (induction rule: quota_reach.induct)
  case (started d s n st)
  then show ?case
    by (auto simp: evaluate_sample_Started start_epoch_def start_epoch_with_sequence_def Let_def)
next
  case (advanced st p ss ts d s n st')
  then show ?case
    by (auto simp: evaluate_sample_Inr_iff evaluate_next_Advanced advance_epoch_fields
        split: if_splits)
next
  case (allowance st p ss ts d s n st' t)
  then show ?case
    by (auto simp: evaluate_sample_Inr_iff evaluate_next_Allowance make_transition_def
        split: if_splits)
next
  case (reset st p ss ts d s n st' t)
  then show ?case
    by (auto simp: evaluate_sample_Inr_iff evaluate_next_Reset make_transition_def
        start_epoch_with_sequence_def Let_def split: if_splits)
qed

lemma reach_increasing:
  "quota_reach h st p ss ts \<Longrightarrow> ss \<noteq> [] \<and> sorted_wrt (<) (map sa_observed_at_ms ss) \<and>
     es_first_observed_at_ms st = sa_observed_at_ms (hd ss) \<and>
     es_first_observation_id st = sa_observation_id (hd ss) \<and>
     list_all (\<lambda>s. sa_observed_at_ms s \<le> es_last_observed_at_ms st \<and> sa_key s = es_key st) ss"
proof (induction rule: reach_invariant)
  case (start d s n)
  then show ?case by (simp add: start_epoch_fields)
next
  case (continue st p ss d s m)
  then show ?case
    by (auto simp: sorted_wrt_append advance_epoch_fields list_all_iff)
qed

section \<open>Maxima of an epoch\<close>

definition epoch_ratio_max :: "quota_sample list \<Rightarrow> quota_ratio option" where
  "epoch_ratio_max ss =
     (let rs = List.map_filter sa_used_ratio ss in if rs = [] then None else Some (Max (set rs)))"

lemma epoch_ratio_max_None: "epoch_ratio_max ss = None \<longleftrightarrow> (\<forall>s\<in>set ss. sa_used_ratio s = None)"
  by (induction ss) (auto simp: epoch_ratio_max_def Let_def List.map_filter_def)

lemma epoch_ratio_max_snoc:
  "fst (maximum_ratio (epoch_ratio_max ss) i (sa_used_ratio s) x) = epoch_ratio_max (ss @ [s])"
proof (cases "sa_used_ratio s")
  case None
  then show ?thesis
    by (cases "epoch_ratio_max ss")
      (simp_all add: maximum_ratio_def epoch_ratio_max_def Let_def List.map_filter_def)
next
  case (Some r)
  let ?rs = "List.map_filter sa_used_ratio ss"
  have snoc: "List.map_filter sa_used_ratio (ss @ [s]) = ?rs @ [r]"
    using Some by (simp add: List.map_filter_def)
  show ?thesis
  proof (cases "?rs = []")
    case True
    then show ?thesis using Some by (simp add: maximum_ratio_def epoch_ratio_max_def Let_def snoc)
  next
    case False
    define M where "M = Max (set ?rs)"
    from False have "Max (set (?rs @ [r])) = max r M" by (simp add: M_def)
    then have "Max (set (?rs @ [r])) = (if M < r then r else M)" by (auto simp: max_def)
    with False Some show ?thesis
      by (simp add: maximum_ratio_def epoch_ratio_max_def Let_def snoc M_def [symmetric])
  qed
qed

text \<open>The recorded maximum with its evidence: the sample that first attained it.\<close>

definition ratio_evidence :: "quota_epoch_state \<Rightarrow> quota_sample list \<Rightarrow> bool" where
  "ratio_evidence st ss \<longleftrightarrow>
     es_maximum_used_ratio st = epoch_ratio_max ss \<and>
     is_none_or (\<lambda>i. \<exists>s\<in>set ss. sa_observation_id s = i \<and> sa_used_ratio s = es_maximum_used_ratio st)
       (es_maximum_used_ratio_observation_id st)"

lemma maximum_ratio_evidence:
  assumes "is_none_or (\<lambda>i. \<exists>q\<in>set ss. sa_observation_id q = i \<and> sa_used_ratio q = c) i"
  shows "is_none_or (\<lambda>i. \<exists>q\<in>set (ss @ [s]). sa_observation_id q = i \<and>
      sa_used_ratio q = fst (maximum_ratio c j (sa_used_ratio s) (sa_observation_id s)))
      (snd (maximum_ratio c i (sa_used_ratio s) (sa_observation_id s)))"
  using assms
  by (cases c; cases "sa_used_ratio s") (auto simp: maximum_ratio_def is_none_or_iff)

lemma ratio_evidence_advance:
  assumes "ratio_evidence st ss"
  shows "ratio_evidence ((advance_epoch d st s)\<lparr>es_last_transition_sequence := m\<rparr>) (ss @ [s])"
proof -
  from assms have mx: "es_maximum_used_ratio st = epoch_ratio_max ss" and
    "is_none_or (\<lambda>i. \<exists>q\<in>set ss. sa_observation_id q = i \<and> sa_used_ratio q = epoch_ratio_max ss)
      (es_maximum_used_ratio_observation_id st)"
    by (auto simp: ratio_evidence_def)
  from maximum_ratio_evidence [OF this(2), of s "es_maximum_used_ratio_observation_id st"]
  show ?thesis
    by (simp add: ratio_evidence_def advance_epoch_fields mx epoch_ratio_max_snoc)
qed

lemma ratio_evidence_start: "ratio_evidence (start_epoch_with_sequence h d s n) [s]"
  by (cases "sa_used_ratio s")
    (simp_all add: ratio_evidence_def start_epoch_with_sequence_def Let_def epoch_ratio_max_def
      List.map_filter_def)

lemma reach_ratio: "quota_reach h st p ss ts \<Longrightarrow> ratio_evidence st ss"
  by (induction rule: reach_invariant) (simp_all add: ratio_evidence_start ratio_evidence_advance)

section \<open>Transitions\<close>

lemma reset_occurred_bounds:
  "quota_sample_new s = Inr s \<Longrightarrow> reset_occurred p s = Some t \<Longrightarrow>
     0 < t \<and> sa_observed_at_ms p < t \<and> t \<le> sa_observed_at_ms s"
  by (auto simp: reset_occurred_def filter_option_Some_iff quota_sample_new_iff is_none_or_iff)

lemma reset_kind_not_allowance: "reset_kind sig p s \<noteq> Kind_AllowanceChanged"
  by (simp add: reset_kind_def Let_def split: option.split)

lemma reset_detection_valid:
  assumes "quota_sample_new p = Inr p" "quota_sample_new s = Inr s"
    "sa_observed_at_ms p < sa_observed_at_ms s"
  shows "valid_detection_time (reset_detection_time p s)"
proof (cases "reset_occurred p s")
  case None
  with assms show ?thesis
    by (simp add: valid_detection_time_def reset_detection_time_def quota_sample_new_iff)
next
  case (Some t)
  with reset_occurred_bounds [OF assms(2) Some] show ?thesis
    by (simp add: valid_detection_time_def reset_detection_time_def)
qed

lemma is_some_and_not: "is_some_and p x \<longleftrightarrow> \<not> is_none_or (\<lambda>v. \<not> p v) x"
  by (cases x) simp_all

lemma transition_restore_iff:
  "quota_transition_restore h t = Inr t' \<longleftrightarrow>
     t' = t \<and> tr_definition_revision t \<noteq> 0 \<and> tr_sequence t \<noteq> 0 \<and>
     (if tr_kind t = Kind_AllowanceChanged
      then tr_previous_epoch_id t = tr_current_epoch_id t \<and> tr_allowance_change t \<noteq> None
      else tr_previous_epoch_id t \<noteq> tr_current_epoch_id t) \<and>
     tr_pre_observation_id t \<noteq> tr_post_observation_id t \<and>
     (tr_maximum_used_ratio_before t = None \<longleftrightarrow> tr_maximum_used_ratio_observation_id_before t = None) \<and>
     (tr_maximum_used_units_before t = None \<longleftrightarrow> tr_maximum_used_units_observation_id_before t = None) \<and>
     is_none_or (\<lambda>u. un_used u \<noteq> None) (tr_maximum_used_units_before t) \<and>
     is_none_or (\<lambda>v. 0 < v) (tr_old_resets_at_ms t) \<and>
     is_none_or (\<lambda>v. 0 < v) (tr_new_resets_at_ms t) \<and>
     valid_detection_time (tr_detection_time t) \<and>
     tr_id t = quota_transition_id h (transition_identity t)"
  unfolding quota_transition_restore_def Let_def if_Inr_iff is_some_and_not not_le sum.inject
  by (cases "tr_kind t = Kind_AllowanceChanged"; cases "t' = t"; simp del: not_None_eq)
    (rule iffI; elim conjE; intro conjI; assumption)+

lemma make_transition_restorable:
  assumes st: "quota_epoch_state_restore h st = Inr st"
    and samples: "quota_sample_new p = Inr p" "quota_sample_new s = Inr s"
    and d: "wd_revision d \<noteq> 0" and seq: "n \<noteq> 0"
    and ids: "sa_observation_id p \<noteq> sa_observation_id s"
    and shape: "if kind = Kind_AllowanceChanged
      then es_epoch_id st' = es_epoch_id st \<and> change \<noteq> None
      else es_epoch_id st \<noteq> es_epoch_id st'"
    and time: "valid_detection_time t"
  shows "quota_transition_restore h (make_transition h d st st' p s n kind change conf t) =
    Inr (make_transition h d st st' p s n kind change conf t)"
proof -
  have "is_none_or (\<lambda>v. 0 < v) (sa_advertised_resets_at_ms p)"
      "is_none_or (\<lambda>v. 0 < v) (sa_advertised_resets_at_ms s)"
    using samples by (simp_all add: quota_sample_new_iff)
  moreover have "(es_maximum_used_ratio st = None \<longleftrightarrow> es_maximum_used_ratio_observation_id st = None)"
     "(es_maximum_used_units st = None \<longleftrightarrow> es_maximum_used_units_observation_id st = None)"
     "is_none_or (\<lambda>u. un_used u \<noteq> None) (es_maximum_used_units st)"
    using st by (simp_all add: restore_iff)
  ultimately show ?thesis
    using d seq ids shape time
    by (simp add: transition_restore_iff make_transition_def transition_identity_def split: if_splits)
qed

lemma detect_allowance_change_restore:
  "detect_allowance_change p s = Some c \<Longrightarrow>
     quota_allowance_change_restore (ac_kind c) (ac_old_units c) (ac_new_units c) = Inr c"
  by (cases "sa_units p"; cases "sa_units s"; (simp add: detect_allowance_change_def)?)
    (auto simp: quota_allowance_change_restore_def bind_eq_Some_conv zip_option_Some_iff
      split: if_splits)

lemma evaluate_next_Inl_iff:
  "evaluate_next h d st p s n = Inl e \<longleftrightarrow>
     (detect_reset_signal d p s \<noteq> None \<or> detect_allowance_change p s \<noteq> None) \<and>
     exact_next_sequence st n = Inl e"
  by (cases "detect_reset_signal d p s"; cases "detect_allowance_change p s")
    (simp_all add: evaluate_next_def Let_def and_then_Inl_iff)

lemma exact_next_sequence_Inl_iff:
  "exact_next_sequence st n = Inl e \<longleftrightarrow>
     (if es_last_transition_sequence st = - 1 then e = TransitionSequenceOverflow
      else n \<noteq> es_last_transition_sequence st + 1 \<and> e = InvalidTransitionSequence)"
proof -
  let ?l = "es_last_transition_sequence st"
  have none: "checked_add ?l 1 = None \<longleftrightarrow> ?l = - 1"
  proof -
    have "unat ?l < 2 ^ 64" using unat_less_pow [of ?l] by simp
    then have "2 ^ 64 \<le> unat ?l + 1 \<longleftrightarrow> unat ?l = unat (- 1 :: u64)" by (simp add: unat_max_word) arith
    then show ?thesis by (simp add: checked_add_None_iff word_unat_eq_iff)
  qed
  show ?thesis
  proof (cases "checked_add ?l 1")
    case None
    then show ?thesis using none by (auto simp: exact_next_sequence_def)
  next
    case (Some c)
    then have "c = ?l + 1" by (simp add: checked_add_def split: if_splits)
    with Some none show ?thesis by (auto simp: exact_next_sequence_def)
  qed
qed

section \<open>Properties\<close>

text \<open>
  C3. On every state reachable by folding valid samples of one window, whatever the definitions'
  revisions in between: the state passes its own restore check, so it survives being stored;
  it agrees with the sample it was computed from, so the next call cannot fail on a state and
  previous sample that do not match; the transition numbers are exactly 1, 2, 3, ... without a
  gap and the state holds the last one; and the samples of the epoch are strictly ordered in
  time from the epoch's first observation to its last.
\<close>

theorem quota_reach_invariant:
  assumes "quota_reach sha256 st p ss ts"
  shows "quota_epoch_state_restore sha256 st = Inr st \<and> state_follows st p \<and>
    unat (es_last_transition_sequence st) = length ts \<and>
    map (\<lambda>t. unat (tr_sequence t)) ts = [1 ..< length ts + 1] \<and>
    sorted_wrt (<) (map sa_observed_at_ms ss) \<and>
    es_first_observed_at_ms st = sa_observed_at_ms (hd ss) \<and>
    es_last_observed_at_ms st = sa_observed_at_ms (last ss)"
  using reach_restorable [OF assms] reach_sequence [OF assms] reach_increasing [OF assms]
  by (simp add: state_follows_def)

definition sample_quota_key :: quota_window_key where
  "sample_quota_key =
     \<lparr>wk_scope = \<lparr>sc_provider_id = ''codex'', sc_account_id = ''me'', sc_workspace_id = None\<rparr>,
      wk_window_id = ''weekly''\<rparr>"

definition sample_quota_definition :: quota_window_definition where
  "sample_quota_definition =
     \<lparr>wd_key = sample_quota_key, wd_revision = 1, wd_label_key = ''weekly'',
      wd_presentation = Presentation_Used, wd_semantics = Semantics_Fixed,
      wd_nominal_duration_seconds = None,
      wd_reset_thresholds = Some \<lparr>th_maximum_post_reset_used_ratio = Some 50000,
        th_minimum_post_reset_remaining_ratio = None, th_minimum_used_ratio_drop = None\<rparr>\<rparr>"

definition sample_quota_sample :: "u8 \<Rightarrow> i64 \<Rightarrow> u32 \<Rightarrow> quota_sample" where
  "sample_quota_sample i at_ms ratio =
     \<lparr>sa_key = sample_quota_key, sa_observation_id = replicate 32 i, sa_observed_at_ms = at_ms,
      sa_fresh_until_ms = at_ms, sa_stale_after_ms = at_ms, sa_provider_epoch_id = None,
      sa_used_ratio = Some ratio, sa_remaining_ratio = None, sa_units = None,
      sa_advertised_resets_at_ms = None, sa_quality = Quality_Authoritative,
      sa_source = Source_ProviderLocal, sa_confidence = Confidence_High,
      sa_reset_evidence = Evidence_None, sa_reset_occurred_at_ms = None\<rparr>"

definition sample_quota_state :: quota_epoch_state where
  "sample_quota_state = start_epoch id sample_quota_definition (sample_quota_sample 1 10 400000)"

lemma sample_quota_valid:
  "quota_window_definition_new sample_quota_definition = Inr sample_quota_definition"
  "0 < t \<Longrightarrow> quota_sample_new (sample_quota_sample i t r) = Inr (sample_quota_sample i t r)"
  by (simp_all add: quota_window_definition_new_def sample_quota_definition_def valid_quota_id_def
      MAX_QUOTA_LABEL_KEY_BYTES_def is_ascii_alphanumeric_def quota_sample_new_iff
      sample_quota_sample_def)

lemma sample_quota_reach:
  "quota_reach id sample_quota_state (sample_quota_sample 1 10 400000)
     [sample_quota_sample 1 10 400000] []"
  by (rule quota_reach.started [OF sample_quota_valid(1) sample_quota_valid(2)])
    (simp_all add: evaluate_sample_Started sample_quota_state_def sample_quota_definition_def
      sample_quota_sample_def)

theorem quota_reach_invariant_witness:
  "quota_reach id sample_quota_state (sample_quota_sample 1 10 400000)
     [sample_quota_sample 1 10 400000] [] \<and>
   quota_epoch_state_restore id sample_quota_state = Inr sample_quota_state"
  using quota_reach_invariant [OF sample_quota_reach] sample_quota_reach by simp

text \<open>
  C19. The maximum the epoch state records is the maximum: it is the largest used ratio of all
  samples of the epoch, absent exactly when none of them carried a ratio, and the observation
  it is attributed to is one of the epoch's samples with that very ratio.
\<close>

theorem quota_reach_maximum:
  assumes "quota_reach sha256 st p ss ts"
  shows "es_maximum_used_ratio st = epoch_ratio_max ss \<and>
    (es_maximum_used_ratio st = None \<longleftrightarrow> (\<forall>s\<in>set ss. sa_used_ratio s = None)) \<and>
    (es_maximum_used_ratio st \<noteq> None \<longrightarrow>
       (\<exists>s\<in>set ss. es_maximum_used_ratio_observation_id st = Some (sa_observation_id s) \<and>
          sa_used_ratio s = es_maximum_used_ratio st))"
proof -
  from reach_ratio [OF assms] have e: "es_maximum_used_ratio st = epoch_ratio_max ss"
    "\<And>i. es_maximum_used_ratio_observation_id st = Some i \<Longrightarrow>
       \<exists>s\<in>set ss. sa_observation_id s = i \<and> sa_used_ratio s = es_maximum_used_ratio st"
    unfolding ratio_evidence_def is_none_or_iff by blast+
  have "es_maximum_used_ratio st = None \<longleftrightarrow> es_maximum_used_ratio_observation_id st = None"
    using reach_restorable [OF assms] by (simp add: restore_iff)
  then have "es_maximum_used_ratio st \<noteq> None \<longrightarrow>
       (\<exists>s\<in>set ss. es_maximum_used_ratio_observation_id st = Some (sa_observation_id s) \<and>
          sa_used_ratio s = es_maximum_used_ratio st)"
    using e(2) by (cases "es_maximum_used_ratio_observation_id st") metis+
  with e(1) epoch_ratio_max_None [of ss] show ?thesis by metis
qed

theorem quota_reach_maximum_witness:
  "quota_reach id sample_quota_state (sample_quota_sample 1 10 400000)
     [sample_quota_sample 1 10 400000] [] \<and>
   es_maximum_used_ratio sample_quota_state = Some 400000"
proof
  have "epoch_ratio_max [sample_quota_sample 1 10 400000] = Some 400000"
    by (simp add: epoch_ratio_max_def Let_def List.map_filter_def sample_quota_sample_def)
  with quota_reach_maximum [OF sample_quota_reach, THEN conjunct1]
  show "es_maximum_used_ratio sample_quota_state = Some 400000" by (rule trans)
qed (rule sample_quota_reach)

text \<open>
  C28. A reset is reported only on evidence: a manual or explicit reset in the sample, a change of
  the provider's epoch, or, for fixed windows only, the configured thresholds crossed with the
  usage strictly recovering between the two samples, on a sample that is neither in conflict
  nor of low confidence, and never while the advertised reset time is known on both sides and
  has not moved forward.
\<close>

theorem quota_reset_sound:
  assumes "evaluate_sample sha256 d (Some st) (Some p) s n = Inr (Eval_Reset st' t)"
  shows "sa_reset_evidence s \<noteq> Evidence_None \<or>
    (\<exists>a b. sa_provider_epoch_id p = Some a \<and> sa_provider_epoch_id s = Some b \<and> a \<noteq> b) \<or>
    wd_semantics d = Semantics_Fixed \<and>
    sa_quality s \<in> {Quality_Authoritative, Quality_Partial} \<and>
    sa_confidence s \<in> {Confidence_High, Confidence_Medium} \<and>
    (\<exists>th. wd_reset_thresholds d = Some th \<and>
       is_none_or (\<lambda>m. \<exists>u. sa_used_ratio s = Some u \<and> u \<le> m) (th_maximum_post_reset_used_ratio th) \<and>
       is_none_or (\<lambda>m. \<exists>r. sa_remaining_ratio s = Some r \<and> m \<le> r)
         (th_minimum_post_reset_remaining_ratio th) \<and>
       is_none_or (\<lambda>m. \<exists>a b. sa_used_ratio p = Some a \<and> sa_used_ratio s = Some b \<and>
           unat b + unat m \<le> unat a) (th_minimum_used_ratio_drop th)) \<and>
    ((\<exists>a b. sa_used_ratio p = Some a \<and> sa_used_ratio s = Some b \<and> b < a) \<or>
     (\<exists>a b. sa_remaining_ratio p = Some a \<and> sa_remaining_ratio s = Some b \<and> a < b)) \<and>
    (\<forall>a b. sa_advertised_resets_at_ms p = Some a \<longrightarrow> sa_advertised_resets_at_ms s = Some b \<longrightarrow> a < b)"
proof -
  from assms obtain signal where sig: "detect_reset_signal d p s = Some signal"
    by (auto simp: evaluate_sample_Inr_iff evaluate_next_Reset split: if_splits)
  show ?thesis
  proof (cases "sa_reset_evidence s \<noteq> Evidence_None \<or>
      is_some_and (\<lambda>(previous, current). previous \<noteq> current)
        (zip_option (sa_provider_epoch_id p) (sa_provider_epoch_id s))")
    case True
    then show ?thesis by (auto simp: is_some_and_iff zip_option_Some_iff)
  next
    case False
    with sig obtain th where th: "wd_reset_thresholds d = Some th" "threshold_transition th p s"
      and fixed: "wd_semantics d = Semantics_Fixed"
      and quality: "sa_quality s \<noteq> Quality_Conflict" "sa_quality s \<noteq> Quality_Unknown"
        "sa_confidence s \<noteq> Confidence_Low" "sa_confidence s \<noteq> Confidence_Unknown"
      and adv: "\<forall>a b. sa_advertised_resets_at_ms p = Some a \<longrightarrow>
          sa_advertised_resets_at_ms s = Some b \<longrightarrow> a < b"
      by (simp add: detect_reset_signal_def split: if_splits option.splits)
    have q: "sa_quality s \<in> {Quality_Authoritative, Quality_Partial}"
        "sa_confidence s \<in> {Confidence_High, Confidence_Medium}"
      using quality by (cases "sa_quality s"; cases "sa_confidence s"; simp)+
    have drop: "is_some_and (\<lambda>drop. m \<le> drop)
          (Option.bind (zip_option x y) (\<lambda>(previous, current). checked_sub previous current)) \<longleftrightarrow>
        (\<exists>a b. x = Some a \<and> y = Some b \<and> unat b + unat m \<le> unat a)" for x y and m :: u32
      by (cases x; cases y)
        (auto simp: is_some_and_iff checked_sub_def word_le_nat_alt unat_sub)
    from th(2) have "is_none_or (\<lambda>m. \<exists>u. sa_used_ratio s = Some u \<and> u \<le> m)
          (th_maximum_post_reset_used_ratio th)"
        "is_none_or (\<lambda>m. \<exists>r. sa_remaining_ratio s = Some r \<and> m \<le> r)
          (th_minimum_post_reset_remaining_ratio th)"
        "is_none_or (\<lambda>m. \<exists>a b. sa_used_ratio p = Some a \<and> sa_used_ratio s = Some b \<and>
           unat b + unat m \<le> unat a) (th_minimum_used_ratio_drop th)"
        "(\<exists>a b. sa_used_ratio p = Some a \<and> sa_used_ratio s = Some b \<and> b < a) \<or>
         (\<exists>a b. sa_remaining_ratio p = Some a \<and> sa_remaining_ratio s = Some b \<and> a < b)"
      unfolding threshold_transition_def Let_def drop
      by (simp_all add: is_some_and_iff zip_option_Some_iff)
    with th(1) fixed q adv show ?thesis by blast
  qed
qed

lemma sample_quota_reset:
  "\<exists>st' t. evaluate_sample id sample_quota_definition (Some sample_quota_state)
      (Some (sample_quota_sample 1 10 400000)) (sample_quota_sample 2 20 30000) 1 =
      Inr (Eval_Reset st' t)"
  by (simp add: evaluate_sample_Inr_iff evaluate_next_Reset sample_quota_state_def start_epoch_def
      start_epoch_fields state_follows_def)
    (simp add: sample_quota_sample_def sample_quota_definition_def start_epoch_with_sequence_def
      detect_reset_signal_def threshold_transition_def)

theorem quota_reset_sound_witness:
  "\<exists>st' t. evaluate_sample id sample_quota_definition (Some sample_quota_state)
      (Some (sample_quota_sample 1 10 400000)) (sample_quota_sample 2 20 30000) 1 =
      Inr (Eval_Reset st' t) \<and>
    wd_semantics sample_quota_definition = Semantics_Fixed"
proof -
  from sample_quota_reset obtain st' t where e: "evaluate_sample id sample_quota_definition
      (Some sample_quota_state) (Some (sample_quota_sample 1 10 400000))
      (sample_quota_sample 2 20 30000) 1 = Inr (Eval_Reset st' t)" by blast
  from quota_reset_sound [OF e] have "wd_semantics sample_quota_definition = Semantics_Fixed"
    by (simp add: sample_quota_sample_def)
  with e show ?thesis by blast
qed

text \<open>
  A reset whose sample reuses, under the same definition revision, the identifier of the
  observation the closing epoch started with, opens an epoch with the identity of the closed one;
  the transition is emitted and its restore check refuses it.
\<close>

lemma reset_reusing_first_observation:
  assumes reach: "quota_reach sha256 st p ss ts"
    and eval: "evaluate_sample sha256 d (Some st) (Some p) s n = Inr (Eval_Reset st' t)"
    and reused: "sa_observation_id s = es_first_observation_id st"
      "wd_revision d = es_epoch_definition_revision st"
  shows "es_epoch_id st' = es_epoch_id st \<and> quota_transition_restore sha256 t = Inl InvalidTransitionState"
proof -
  have key: "sa_key s = wd_key d" "es_key st = wd_key d" and next_eval: "evaluate_next sha256 d st p s n = Inr (Eval_Reset st' t)"
    using eval by (auto simp: evaluate_sample_Inr_iff state_follows_def split: if_splits)
  from next_eval obtain signal where st': "st' = start_epoch_with_sequence sha256 d s n" and
    t: "t = make_transition sha256 d st st' p s n (reset_kind signal p s) (detect_allowance_change p s)
      (reset_confidence signal s) (reset_detection_time p s)"
    by (auto simp: evaluate_next_Reset)
  have same: "es_epoch_id st' = es_epoch_id st"
    using reach_restorable [OF reach] key reused
    by (simp add: st' start_epoch_with_sequence_def Let_def restore_iff)
  then have "tr_previous_epoch_id t = tr_current_epoch_id t" "tr_kind t \<noteq> Kind_AllowanceChanged"
    by (simp_all add: t make_transition_def reset_kind_not_allowance)
  then show ?thesis by (simp add: same quota_transition_restore_def)
qed

text \<open>
  C37. A transition the detector emits from a reachable state, for a valid definition and valid samples,
  passes its own restore check unchanged: it has a positive number, an exact or a proper interval
  of detection, a maximum with its evidence, two different observations, the identity derived
  from its content, and epochs that differ exactly for a reset.  An allowance change needs no
  more.  A reset is restorable under the conditions that keep the new epoch's identity apart from
  the old one's: the sample does not reuse the identifier of the observation the closing epoch
  started with, identifiers and digests have 32 bytes, the window key is within its bounds, and
  SHA-256 does not collide on the two epoch messages.  The first is a real condition: the detector
  compares a sample's identifier only with the sample before it
  (\<open>reset_reusing_first_observation\<close>).
\<close>

theorem quota_transition_restorable:
  assumes reach: "quota_reach sha256 st p ss ts"
    and valid: "quota_window_definition_new d = Inr d" "quota_sample_new p = Inr p"
      "quota_sample_new s = Inr s"
    and eval: "evaluate_sample sha256 d (Some st) (Some p) s n = Inr e"
    and result: "e = Eval_AllowanceChanged st' t \<or> e = Eval_Reset st' t"
    and fresh: "e = Eval_Reset st' t \<Longrightarrow> length (sa_observation_id s) = 32"
      "e = Eval_Reset st' t \<Longrightarrow> length (es_first_observation_id st) = 32"
      "e = Eval_Reset st' t \<Longrightarrow> sa_observation_id s \<noteq> es_first_observation_id st"
      "e = Eval_Reset st' t \<Longrightarrow> quota_key_ok (es_key st)"
    and digest: "\<And>m. length (sha256 m) = 32"
    and collision_free: "e = Eval_Reset st' t \<Longrightarrow> inj_on sha256
      {quota_epoch_message sha256 (es_key st) (es_epoch_definition_revision st) (es_first_observation_id st),
       quota_epoch_message sha256 (wd_key d) (wd_revision d) (sa_observation_id s)}"
  shows "quota_transition_restore sha256 t = Inr t"
proof -
  have guards: "sa_key s = wd_key d" "es_key st = wd_key d" "sa_observation_id p \<noteq> sa_observation_id s"
      "sa_observed_at_ms p < sa_observed_at_ms s" "evaluate_next sha256 d st p s n = Inr e"
    using eval result by (auto simp: evaluate_sample_Inr_iff state_follows_def split: if_splits)
  have rest: "quota_epoch_state_restore sha256 st = Inr st" using reach_restorable [OF reach] by simp
  have rev: "wd_revision d \<noteq> 0"
    using valid(1) by (simp add: quota_window_definition_new_def split: if_splits)
  have pos: "0 < sa_observed_at_ms p" using valid(2) by (simp add: quota_sample_new_iff)
  from result show ?thesis
  proof
    assume "e = Eval_AllowanceChanged st' t"
    with guards(5) obtain change where n: "unat n = unat (es_last_transition_sequence st) + 1" and
      st': "st' = (advance_epoch d st s)\<lparr>es_last_transition_sequence := n\<rparr>" and
      t: "t = make_transition sha256 d st st' p s n Kind_AllowanceChanged (Some change)
        (sa_confidence s) (Detection_Interval (sa_observed_at_ms p) (sa_observed_at_ms s))"
      by (auto simp: evaluate_next_Allowance)
    from n have "n \<noteq> 0" by auto
    with t show ?thesis
      by (simp only:) (rule make_transition_restorable [OF rest valid(2,3) rev],
        simp_all add: guards st' advance_epoch_fields valid_detection_time_def pos)
  next
    assume reset: "e = Eval_Reset st' t"
    note fresh = fresh [OF reset] and collision_free = collision_free [OF reset]
    from reset guards(5) obtain signal where n: "unat n = unat (es_last_transition_sequence st) + 1" and
      st': "st' = start_epoch_with_sequence sha256 d s n" and
      t: "t = make_transition sha256 d st st' p s n (reset_kind signal p s) (detect_allowance_change p s)
        (reset_confidence signal s) (reset_detection_time p s)"
      by (auto simp: evaluate_next_Reset)
    from n have "n \<noteq> 0" by auto
    have "quota_epoch_message sha256 (es_key st) (es_epoch_definition_revision st) (es_first_observation_id st) \<noteq>
        quota_epoch_message sha256 (wd_key d) (wd_revision d) (sa_observation_id s)"
      (is "?m \<noteq> ?m'")
    proof
      assume "?m = ?m'"
      from quota_epoch_message_inj [OF fresh(4) _ fresh(2,1) digest this] fresh(3,4) guards(2)
      show False by simp
    qed
    then have "es_epoch_id st \<noteq> es_epoch_id st'"
      using collision_free rest guards(1)
      by (simp add: st' start_epoch_with_sequence_def Let_def restore_iff quota_epoch_id_def
          inj_on_eq_iff)
    with t \<open>n \<noteq> 0\<close> show ?thesis
      by (simp only:) (rule make_transition_restorable [OF rest valid(2,3) rev],
        simp_all add: guards reset_kind_not_allowance reset_detection_valid valid)
  qed
qed

text \<open>A digest function that is injective on the messages at hand.\<close>

definition last_bytes :: "u8 list \<Rightarrow> digest" where
  "last_bytes m = take 32 (rev m @ replicate 32 0)"

theorem quota_transition_restorable_witness:
  "\<exists>st' t. evaluate_sample last_bytes sample_quota_definition
      (Some (start_epoch last_bytes sample_quota_definition (sample_quota_sample 1 10 400000)))
      (Some (sample_quota_sample 1 10 400000)) (sample_quota_sample 2 20 30000) 1 =
      Inr (Eval_Reset st' t) \<and> quota_transition_restore last_bytes t = Inr t"
proof -
  let ?d = sample_quota_definition and ?p = "sample_quota_sample 1 10 400000"
    and ?s = "sample_quota_sample 2 20 30000"
  let ?st = "start_epoch last_bytes ?d ?p"
  have reach: "quota_reach last_bytes ?st ?p [?p] []"
    by (rule quota_reach.started [OF sample_quota_valid(1) sample_quota_valid(2)])
      (simp_all add: evaluate_sample_Started sample_quota_definition_def sample_quota_sample_def)
  have "\<exists>st' t. evaluate_sample last_bytes ?d (Some ?st) (Some ?p) ?s 1 = Inr (Eval_Reset st' t)"
    by (simp add: evaluate_sample_Inr_iff evaluate_next_Reset start_epoch_def
        start_epoch_fields state_follows_def)
      (simp add: sample_quota_sample_def sample_quota_definition_def start_epoch_with_sequence_def
        detect_reset_signal_def threshold_transition_def)
  then obtain st' t where e: "evaluate_sample last_bytes ?d (Some ?st) (Some ?p) ?s 1 =
      Inr (Eval_Reset st' t)" by blast
  have len: "length (last_bytes m) = 32" for m by (simp add: last_bytes_def)
  have tail: "quota_epoch_message last_bytes k r x = m \<Longrightarrow> length x = 32 \<Longrightarrow> last_bytes m = rev x"
    for k r x m
    by (auto simp: quota_epoch_message_def update_field_def field_bytes_def last_bytes_def)
  have "last_bytes (quota_epoch_message last_bytes k r (replicate 32 1)) \<noteq>
      last_bytes (quota_epoch_message last_bytes k' r' (replicate 32 2))" for k r k' r'
    using tail [OF refl, of "replicate 32 1" k r] tail [OF refl, of "replicate 32 2" k' r'] by simp
  then have free: "inj_on last_bytes
      {quota_epoch_message last_bytes (es_key ?st) (es_epoch_definition_revision ?st)
         (es_first_observation_id ?st),
       quota_epoch_message last_bytes (wd_key ?d) (wd_revision ?d) (sa_observation_id ?s)}"
    by (auto simp: inj_on_def start_epoch_def start_epoch_fields sample_quota_sample_def dest: sym)
  have "quota_transition_restore last_bytes t = Inr t"
    by (rule quota_transition_restorable [OF reach sample_quota_valid(1) _ _ e disjI2 [OF refl] _ _ _ _ len free])
      (simp_all add: sample_quota_valid, simp_all add: start_epoch_def start_epoch_fields
        sample_quota_sample_def sample_quota_key_def quota_key_ok_def MAX_QUOTA_ID_BYTES_def)
  with e show ?thesis by blast
qed

text \<open>
  On a reachable state the detector refuses a sample only for the reasons the caller can
  cause: a sample or definition of another window, a definition revision going backwards, an
  observation identity reused for different content, or, when a transition is due, a number
  that is not the next one or none left.  In all other cases it returns an evaluation.
\<close>

theorem evaluate_sample_errors:
  assumes "quota_reach sha256 st p ss ts"
  shows "evaluate_sample sha256 d (Some st) (Some p) s n = Inl err \<longleftrightarrow>
    (if sa_key s \<noteq> wd_key d then err = SampleWindowMismatch
     else if es_key st \<noteq> wd_key d then err = StateWindowMismatch
     else if wd_revision d < es_definition_revision st then err = DefinitionRevisionRegressed
     else if sa_observation_id s = sa_observation_id p then s \<noteq> p \<and> err = DuplicateConflict
     else sa_observed_at_ms p < sa_observed_at_ms s \<and>
       (detect_reset_signal d p s \<noteq> None \<or> detect_allowance_change p s \<noteq> None) \<and>
       (if es_last_transition_sequence st = - 1 then err = TransitionSequenceOverflow
        else n \<noteq> es_last_transition_sequence st + 1 \<and> err = InvalidTransitionSequence))"
proof -
  have "state_follows st p" using reach_restorable [OF assms] by simp
  then have f: "sa_key p = es_key st" "es_last_observation_id st = sa_observation_id p"
    "es_last_observed_at_ms st = sa_observed_at_ms p"
    "es_provider_epoch_id st = sa_provider_epoch_id p"
    "es_advertised_resets_at_ms st = sa_advertised_resets_at_ms p"
    by (simp_all add: state_follows_def)
  show ?thesis
    unfolding evaluate_sample_def option.case f ok_or_simps and_then_simps
      exact_next_sequence_Inl_iff [symmetric]
    by (auto simp: evaluate_next_Inl_iff)
qed

theorem evaluate_sample_errors_witness:
  "quota_reach id sample_quota_state (sample_quota_sample 1 10 400000)
     [sample_quota_sample 1 10 400000] [] \<and>
   evaluate_sample id sample_quota_definition (Some sample_quota_state)
     (Some (sample_quota_sample 1 10 400000)) (sample_quota_sample 1 10 7) 1 = Inl DuplicateConflict"
proof
  have "sample_quota_sample 1 10 7 \<noteq> sample_quota_sample 1 10 400000"
    by (simp add: sample_quota_sample_def)
  then show "evaluate_sample id sample_quota_definition (Some sample_quota_state)
     (Some (sample_quota_sample 1 10 400000)) (sample_quota_sample 1 10 7) 1 = Inl DuplicateConflict"
    unfolding evaluate_sample_errors [OF sample_quota_reach]
    by (simp add: sample_quota_state_def start_epoch_def start_epoch_with_sequence_def)
      (simp add: sample_quota_sample_def sample_quota_definition_def)
qed (rule sample_quota_reach)

end
