(* ===== verification/Benefit.thy ===== *)
theory Benefit
  imports Quota
begin

text \<open>
  The benefit values of \<open>crates/domain/src/benefit.rs\<close>: lots, inventory observations,
  expiries, calendar dates and the reminder profile.  \<open>Parts\<close> structs share the record of the
  value they validate; deserialisation goes through the same constructors.
\<close>

section \<open>Limits and errors\<close>

definition MAX_BENEFIT_LOTS_PER_OBSERVATION :: nat where "MAX_BENEFIT_LOTS_PER_OBSERVATION = 64"
definition MAX_REMINDER_THRESHOLDS :: nat where "MAX_REMINDER_THRESHOLDS = 8"
definition MIN_REMINDER_LEAD_SECONDS :: u32 where "MIN_REMINDER_LEAD_SECONDS = 60"
definition MAX_REMINDER_LEAD_SECONDS :: u32 where "MAX_REMINDER_LEAD_SECONDS = 365 * 24 * 60 * 60"
definition RECOMMENDED_REMINDER_LEAD_SECONDS :: "u32 list" where
  "RECOMMENDED_REMINDER_LEAD_SECONDS =
     [7 * 24 * 60 * 60, 24 * 60 * 60, 12 * 60 * 60, 6 * 60 * 60, 60 * 60]"
definition MAX_BENEFIT_LABEL_KEY_BYTES :: nat where "MAX_BENEFIT_LABEL_KEY_BYTES = 128"
definition MAX_BENEFIT_TIME_ZONE_ID_BYTES :: nat where "MAX_BENEFIT_TIME_ZONE_ID_BYTES = 128"

datatype benefit_error =
    Benefit_InvalidId string
  | Benefit_InvalidLabelKey
  | InvalidTimeZoneId
  | InvalidLocalDate
  | InvalidLocalTime
  | InvalidExpiry
  | InvalidQuantity
  | InvalidGrantedTime
  | InvalidObservationTimes
  | DuplicateLotId
  | Benefit_CapacityExceeded nat
  | InvalidReminderLeadTime
  | InvalidReminderProfileRevision
  | InvalidSerializedValue

type_synonym benefit_lot_id = digest
type_synonym benefit_observation_id = digest

record benefit_scope =
  bs_provider_id :: usage_provider_id
  bs_account_id :: string
  bs_workspace_id :: "string option"

datatype benefit_kind =
  Kind_BankedRateLimitReset | Kind_UsageCredit | Kind_TemporaryUsage | Kind_Unknown
datatype benefit_state =
  Benefit_Available | Benefit_ActivationPending | Benefit_Activated | Benefit_Expired
  | Benefit_Revoked | Benefit_Ambiguous
datatype benefit_evidence_source =
  BSource_ProviderOfficial | BSource_ProviderLocal | BSource_Manual | BSource_Unknown
datatype benefit_confidence =
  BConfidence_High | BConfidence_Medium | BConfidence_Low | BConfidence_Unknown
datatype benefit_detail_kind = Detail_ProviderDetail | Detail_ProviderAggregate | Detail_Manual
datatype benefit_inventory_completeness =
  Inventory_Complete | Inventory_CompleteQuantityPartialDetails | Inventory_Partial
datatype benefit_target = Target_Provider | Target_QuotaWindow string

section \<open>Identifiers, dates and times\<close>

definition valid_ascii_identifier :: "string \<Rightarrow> nat \<Rightarrow> bool \<Rightarrow> bool" where
  "valid_ascii_identifier value max_bytes allow_slash \<longleftrightarrow>
     value \<noteq> [] \<and> length value \<le> max_bytes \<and>
     list_all (\<lambda>c. is_ascii_alphanumeric c \<or> c \<in> set ''._-+'' \<or> (allow_slash \<and> c = CHR ''/'')) value"

definition benefit_label_key_new :: "string \<Rightarrow> benefit_error + string" where
  "benefit_label_key_new value =
     (if \<not> valid_ascii_identifier value MAX_BENEFIT_LABEL_KEY_BYTES False
      then Inl Benefit_InvalidLabelKey else Inr value)"

fun contains_dot_dot :: "string \<Rightarrow> bool" where
  "contains_dot_dot (a # b # s) \<longleftrightarrow> (a = CHR ''.'' \<and> b = CHR ''.'') \<or> contains_dot_dot (b # s)"
| "contains_dot_dot _ \<longleftrightarrow> False"

definition starts_with :: "char \<Rightarrow> string \<Rightarrow> bool" where
  "starts_with c s \<longleftrightarrow> s \<noteq> [] \<and> hd s = c"

definition ends_with :: "char \<Rightarrow> string \<Rightarrow> bool" where
  "ends_with c s \<longleftrightarrow> s \<noteq> [] \<and> last s = c"

definition benefit_time_zone_id_new :: "string \<Rightarrow> benefit_error + string" where
  "benefit_time_zone_id_new value =
     (if \<not> valid_ascii_identifier value MAX_BENEFIT_TIME_ZONE_ID_BYTES True \<or>
         starts_with CHR ''.'' value \<or> ends_with CHR ''.'' value \<or> contains_dot_dot value \<or>
         starts_with CHR ''/'' value \<or> ends_with CHR ''/'' value
      then Inl InvalidTimeZoneId else Inr value)"

text \<open>Rust's \<open>%\<close> truncates; for divisibility tests the sign does not matter.\<close>

definition is_leap_year :: "int \<Rightarrow> bool" where
  "is_leap_year year \<longleftrightarrow> year mod 4 = 0 \<and> (year mod 100 \<noteq> 0 \<or> year mod 400 = 0)"

definition days_in_month :: "int \<Rightarrow> u8 \<Rightarrow> u8" where
  "days_in_month year month =
     (if month \<in> {1, 3, 5, 7, 8, 10, 12} then 31
      else if month \<in> {4, 6, 9, 11} then 30
      else if month = 2 \<and> is_leap_year year then 29
      else if month = 2 then 28
      else 0)"

record benefit_local_date =
  date_year :: int
  date_month :: u8
  date_day :: u8

definition benefit_local_date_new :: "int \<Rightarrow> u8 \<Rightarrow> u8 \<Rightarrow> benefit_error + benefit_local_date" where
  "benefit_local_date_new year month day =
     (if \<not> (1 \<le> year \<and> year \<le> 9999) \<or> \<not> (1 \<le> month \<and> month \<le> 12) \<or> day = 0 \<or>
         days_in_month year month < day
      then Inl InvalidLocalDate
      else Inr \<lparr>date_year = year, date_month = month, date_day = day\<rparr>)"

record benefit_local_time =
  time_hour :: u8
  time_minute :: u8
  time_second :: u8
  time_millisecond :: u16

definition benefit_local_time_new ::
  "u8 \<Rightarrow> u8 \<Rightarrow> u8 \<Rightarrow> u16 \<Rightarrow> benefit_error + benefit_local_time" where
  "benefit_local_time_new hour minute second millisecond =
     (if 23 < hour \<or> 59 < minute \<or> 59 < second \<or> 999 < millisecond then Inl InvalidLocalTime
      else Inr \<lparr>time_hour = hour, time_minute = minute, time_second = second,
                time_millisecond = millisecond\<rparr>)"

record benefit_local_date_time =
  dt_date :: benefit_local_date
  dt_time :: benefit_local_time

section \<open>Expiry\<close>

datatype benefit_expiry =
    ExactUtc i64
  | ProviderLocal benefit_local_date_time string
  | ProviderDate benefit_local_date "string option"
  | BoundedUtc i64 i64
  | Expiry_Unknown

definition expiry_exact_utc :: "i64 \<Rightarrow> benefit_error + benefit_expiry" where
  "expiry_exact_utc at_ms = (if at_ms \<le> 0 then Inl InvalidExpiry else Inr (ExactUtc at_ms))"

definition expiry_bounded_utc :: "i64 \<Rightarrow> i64 \<Rightarrow> benefit_error + benefit_expiry" where
  "expiry_bounded_utc earliest latest =
     (if earliest \<le> 0 \<or> latest < earliest then Inl InvalidExpiry
      else Inr (BoundedUtc earliest latest))"

definition conservative_utc_ms :: "benefit_expiry \<Rightarrow> i64 option" where
  "conservative_utc_ms e =
     (case e of
        ExactUtc at_ms \<Rightarrow> Some at_ms
      | BoundedUtc earliest _ \<Rightarrow> Some earliest
      | ProviderLocal _ _ \<Rightarrow> None | ProviderDate _ _ \<Rightarrow> None | Expiry_Unknown \<Rightarrow> None)"

text \<open>What the two checked constructors guarantee of every expiry.\<close>

definition expiry_ok :: "benefit_expiry \<Rightarrow> bool" where
  "expiry_ok e =
     (case e of
        ExactUtc at_ms \<Rightarrow> 0 < at_ms \<and> at_ms \<le> i64_max
      | BoundedUtc earliest latest \<Rightarrow> 0 < earliest \<and> earliest \<le> latest \<and> latest \<le> i64_max
      | _ \<Rightarrow> True)"

section \<open>Lots and inventories\<close>

record benefit_lot_observation =
  lot_id :: benefit_lot_id
  lot_kind :: benefit_kind
  lot_quantity :: u64
  lot_state :: benefit_state
  lot_target :: benefit_target
  lot_granted_at_ms :: "i64 option"
  lot_expiry :: benefit_expiry
  lot_source :: benefit_evidence_source
  lot_confidence :: benefit_confidence
  lot_detail_kind :: benefit_detail_kind
  lot_label_key :: string

definition benefit_lot_observation_new ::
  "benefit_lot_observation \<Rightarrow> benefit_error + benefit_lot_observation" where
  "benefit_lot_observation_new parts =
     (if lot_quantity parts = 0 \<or> i64_max_u64 < lot_quantity parts then Inl InvalidQuantity
      else if is_some_and (\<lambda>granted. granted \<le> 0) (lot_granted_at_ms parts)
      then Inl InvalidGrantedTime
      else Inr parts)"

record benefit_inventory_observation =
  io_scope :: benefit_scope
  io_observation_id :: benefit_observation_id
  io_observed_at_ms :: i64
  io_fresh_until_ms :: i64
  io_stale_after_ms :: i64
  io_completeness :: benefit_inventory_completeness
  io_lots :: "benefit_lot_observation list"

text \<open>\<open>any(|lot| !identities.insert(id))\<close>: an identity that was seen before.\<close>

fun has_repeat :: "digest set \<Rightarrow> digest list \<Rightarrow> bool" where
  "has_repeat seen [] = False"
| "has_repeat seen (x # xs) = (x \<in> seen \<or> has_repeat (insert x seen) xs)"

definition benefit_inventory_observation_new ::
  "benefit_inventory_observation \<Rightarrow> benefit_error + benefit_inventory_observation" where
  "benefit_inventory_observation_new parts =
     (if io_observed_at_ms parts \<le> 0 \<or> io_fresh_until_ms parts < io_observed_at_ms parts \<or>
         io_stale_after_ms parts < io_fresh_until_ms parts
      then Inl InvalidObservationTimes
      else if MAX_BENEFIT_LOTS_PER_OBSERVATION < length (io_lots parts)
      then Inl (Benefit_CapacityExceeded MAX_BENEFIT_LOTS_PER_OBSERVATION)
      else if has_repeat {} (map lot_id (io_lots parts)) then Inl DuplicateLotId
      else Inr parts)"

section \<open>Reminder profile\<close>

type_synonym reminder_lead_time = u32

definition reminder_lead_time_new :: "u32 \<Rightarrow> benefit_error + reminder_lead_time" where
  "reminder_lead_time_new seconds =
     (if \<not> (MIN_REMINDER_LEAD_SECONDS \<le> seconds \<and> seconds \<le> MAX_REMINDER_LEAD_SECONDS)
      then Inl InvalidReminderLeadTime else Inr seconds)"

definition reminder_profile_revision_new :: "u64 \<Rightarrow> benefit_error + u64" where
  "reminder_profile_revision_new v =
     (if v = 0 \<or> i64_max_u64 < v then Inl InvalidReminderProfileRevision else Inr v)"

datatype notification_channel = InApp | OsScheduled

text \<open>The derived \<open>Ord\<close> of \<open>NotificationChannel\<close>: declaration order.\<close>

instantiation notification_channel :: linorder
begin

definition less_eq_notification_channel :: "notification_channel \<Rightarrow> notification_channel \<Rightarrow> bool" where
  "less_eq_notification_channel a b \<longleftrightarrow> a = InApp \<or> b = OsScheduled"

definition less_notification_channel :: "notification_channel \<Rightarrow> notification_channel \<Rightarrow> bool" where
  "less_notification_channel a b \<longleftrightarrow> a = InApp \<and> b = OsScheduled"

instance
proof
  fix x y z :: notification_channel
  show "x < y \<longleftrightarrow> x \<le> y \<and> \<not> y \<le> x"
    by (cases x; cases y) (simp_all add: less_eq_notification_channel_def less_notification_channel_def)
  show "x \<le> x" by (cases x) (simp_all add: less_eq_notification_channel_def)
  show "x \<le> y \<Longrightarrow> y \<le> z \<Longrightarrow> x \<le> z"
    by (cases x; cases y; cases z) (simp_all add: less_eq_notification_channel_def)
  show "x \<le> y \<Longrightarrow> y \<le> x \<Longrightarrow> x = y"
    by (cases x; cases y) (simp_all add: less_eq_notification_channel_def)
  show "x \<le> y \<or> y \<le> x"
    by (cases x; cases y) (simp_all add: less_eq_notification_channel_def)
qed

end

record reminder_profile =
  rp_revision :: u64
  rp_lead_times :: "reminder_lead_time list"
  rp_channels :: "notification_channel list"

definition reminder_profile_new :: "reminder_profile \<Rightarrow> benefit_error + reminder_profile" where
  "reminder_profile_new parts =
     (let lead_times = remdups_adj (rev (sort (rp_lead_times parts)))
      in if MAX_REMINDER_THRESHOLDS < length lead_times
         then Inl (Benefit_CapacityExceeded MAX_REMINDER_THRESHOLDS)
         else Inr \<lparr>rp_revision = rp_revision parts, rp_lead_times = lead_times,
                   rp_channels = remdups_adj (sort (rp_channels parts))\<rparr>)"

definition reminder_profile_recommended :: "u64 \<Rightarrow> benefit_error + reminder_profile" where
  "reminder_profile_recommended revision =
     and_then (try_map reminder_lead_time_new RECOMMENDED_REMINDER_LEAD_SECONDS) (\<lambda>lead_times.
       reminder_profile_new \<lparr>rp_revision = revision, rp_lead_times = lead_times, rp_channels = [InApp]\<rparr>)"

section \<open>Lemmas\<close>

lemma has_repeat_iff: "has_repeat seen xs \<longleftrightarrow> \<not> (distinct xs \<and> set xs \<inter> seen = {})"
  by (induction xs arbitrary: seen) auto

lemma inventory_observation_new_iff:
  "benefit_inventory_observation_new p = Inr p' \<longleftrightarrow>
     p' = p \<and> 0 < io_observed_at_ms p \<and> io_observed_at_ms p \<le> io_fresh_until_ms p \<and>
     io_fresh_until_ms p \<le> io_stale_after_ms p \<and>
     length (io_lots p) \<le> MAX_BENEFIT_LOTS_PER_OBSERVATION \<and> distinct (map lot_id (io_lots p))"
  by (auto simp: benefit_inventory_observation_new_def has_repeat_iff)

lemma lot_observation_new_iff:
  "benefit_lot_observation_new p = Inr p' \<longleftrightarrow>
     p' = p \<and> lot_quantity p \<noteq> 0 \<and> lot_quantity p \<le> i64_max_u64 \<and>
     is_none_or (\<lambda>g. 0 < g) (lot_granted_at_ms p)"
  by (auto simp: benefit_lot_observation_new_def is_some_and_iff is_none_or_iff not_less not_le)

lemma sort_strict: "sorted_wrt (<) xs \<Longrightarrow> sort xs = xs"
  by (simp add: sorted_wrt_less_iff sorted_sort_id)

lemma remdups_adj_strict: "sorted_wrt (<) xs \<Longrightarrow> remdups_adj xs = (xs :: 'a::linorder list)"
  by (induction xs rule: remdups_adj.induct) auto

lemma reminder_profile_new_ok:
  assumes "reminder_profile_new p = Inr q"
  shows "rp_revision q = rp_revision p \<and> sorted_wrt (>) (rp_lead_times q) \<and>
    set (rp_lead_times q) = set (rp_lead_times p) \<and> sorted_wrt (<) (rp_channels q) \<and>
    set (rp_channels q) = set (rp_channels p) \<and>
    length (rp_lead_times q) \<le> MAX_REMINDER_THRESHOLDS"
  using assms
  by (auto simp: reminder_profile_new_def Let_def sorted_wrt_rev sort_remdups_adj_strict
      split: if_splits)

lemma channels_at_most_two:
  fixes cs :: "notification_channel list"
  assumes "distinct cs"
  shows "length cs \<le> 2"
proof -
  have "set cs \<subseteq> {InApp, OsScheduled}" using notification_channel.exhaust by blast
  then have "card (set cs) \<le> card {InApp, OsScheduled}" by (intro card_mono) simp_all
  with assms show ?thesis by (simp add: distinct_card)
qed

section \<open>Properties\<close>

text \<open>
  A reminder profile is canonical: the constructor keeps exactly the given lead times and
  channels as sets, orders lead times strictly downwards and channels strictly upwards, keeps
  at most eight lead times, and applied to its own result changes nothing, so a profile that
  was saved and read back is the same profile.
\<close>

theorem reminder_profile_canonical:
  assumes "reminder_profile_new p = Inr q"
  shows "reminder_profile_new q = Inr q \<and> sorted_wrt (>) (rp_lead_times q) \<and>
    set (rp_lead_times q) = set (rp_lead_times p) \<and> sorted_wrt (<) (rp_channels q) \<and>
    set (rp_channels q) = set (rp_channels p) \<and> length (rp_lead_times q) \<le> 8 \<and>
    length (rp_channels q) \<le> 2"
proof -
  note ok = reminder_profile_new_ok [OF assms]
  then have up: "sorted_wrt (<) (rev (rp_lead_times q))" by (simp add: sorted_wrt_rev)
  have "remdups_adj (rev (sort (rp_lead_times q))) = rp_lead_times q"
  proof -
    have "sort (rp_lead_times q) = rev (rp_lead_times q)"
      using up by (intro properties_for_sort) (simp_all add: sorted_wrt_less_iff)
    then show ?thesis using remdups_adj_strict [OF up] by (simp add: remdups_adj_rev)
  qed
  moreover have "remdups_adj (sort (rp_channels q)) = rp_channels q"
    using ok by (simp add: sort_strict remdups_adj_strict)
  ultimately have "reminder_profile_new q = Inr q"
    using ok by (simp add: reminder_profile_new_def)
  moreover have "length (rp_channels q) \<le> 2"
    using ok by (intro channels_at_most_two) (simp add: sorted_wrt_less_iff)
  ultimately show ?thesis using ok by (simp add: MAX_REMINDER_THRESHOLDS_def)
qed

theorem reminder_profile_canonical_witness:
  "reminder_profile_new \<lparr>rp_revision = 1, rp_lead_times = [60, 3600, 60], rp_channels = [OsScheduled, InApp]\<rparr> =
     Inr \<lparr>rp_revision = 1, rp_lead_times = [3600, 60], rp_channels = [InApp, OsScheduled]\<rparr> \<and>
   reminder_profile_new \<lparr>rp_revision = 1, rp_lead_times = [3600, 60], rp_channels = [InApp, OsScheduled]\<rparr> =
     Inr \<lparr>rp_revision = 1, rp_lead_times = [3600, 60], rp_channels = [InApp, OsScheduled]\<rparr>"
proof
  show new: "reminder_profile_new
      \<lparr>rp_revision = 1, rp_lead_times = [60, 3600, 60], rp_channels = [OsScheduled, InApp]\<rparr> =
     Inr \<lparr>rp_revision = 1, rp_lead_times = [3600, 60], rp_channels = [InApp, OsScheduled]\<rparr>"
    by (simp add: reminder_profile_new_def MAX_REMINDER_THRESHOLDS_def less_eq_notification_channel_def)
  from reminder_profile_canonical [OF new]
  show "reminder_profile_new
      \<lparr>rp_revision = 1, rp_lead_times = [3600, 60], rp_channels = [InApp, OsScheduled]\<rparr> =
     Inr \<lparr>rp_revision = 1, rp_lead_times = [3600, 60], rp_channels = [InApp, OsScheduled]\<rparr>" by simp
qed

end
