(* ===== verification/Ordered_Map.thy ===== *)
theory Ordered_Map
  imports Prelude
begin

text \<open>
  Rust's \<open>BTreeMap\<close> and \<open>BTreeSet\<close> as the components use them.  A map is the list of
  its entries in ascending key order; \<open>insert\<close> and \<open>remove\<close> return the previous value
  beside the new map, \<open>into_values\<close> is the projection of the entries.

  The locale \<open>ordered_map\<close> states what the clients rely on; \<open>bt\<close> interprets it on the
  list model.
\<close>

type_synonym ('k, 'v) btree_map = "('k \<times> 'v) list"

fun btree_insert :: "'k::linorder \<Rightarrow> 'v \<Rightarrow> ('k, 'v) btree_map \<Rightarrow> ('k, 'v) btree_map" where
  "btree_insert k v [] = [(k, v)]"
| "btree_insert k v ((k', v') # m) =
     (if k < k' then (k, v) # (k', v') # m
      else if k = k' then (k, v) # m
      else (k', v') # btree_insert k v m)"

fun btree_remove :: "'k::linorder \<Rightarrow> ('k, 'v) btree_map \<Rightarrow> ('k, 'v) btree_map" where
  "btree_remove k [] = []"
| "btree_remove k ((k', v') # m) = (if k = k' then m else (k', v') # btree_remove k m)"

definition btree_get :: "('k, 'v) btree_map \<Rightarrow> 'k \<Rightarrow> 'v option" where
  "btree_get m = map_of m"

definition btree_values :: "('k, 'v) btree_map \<Rightarrow> 'v list" where
  "btree_values m = map snd m"

definition btree_inv :: "('k::linorder, 'v) btree_map \<Rightarrow> bool" where
  "btree_inv m \<longleftrightarrow> sorted_wrt (<) (map fst m)"

text \<open>Inserting a list of entries one after the other, as \<open>collect\<close> does.\<close>

definition btree_collect :: "('k::linorder \<times> 'v) list \<Rightarrow> ('k, 'v) btree_map" where
  "btree_collect kvs = foldl (\<lambda>m (k, v). btree_insert k v m) [] kvs"

locale ordered_map =
  fixes empty :: 'm
    and insert :: "'k::linorder \<Rightarrow> 'v \<Rightarrow> 'm \<Rightarrow> 'm"
    and remove :: "'k \<Rightarrow> 'm \<Rightarrow> 'm"
    and get :: "'m \<Rightarrow> 'k \<Rightarrow> 'v option"
    and entries :: "'m \<Rightarrow> ('k \<times> 'v) list"
    and inv :: "'m \<Rightarrow> bool"
  assumes inv_empty: "inv empty"
    and get_empty: "get empty k = None"
    and inv_insert: "inv m \<Longrightarrow> inv (insert k v m)"
    and get_insert: "inv m \<Longrightarrow> get (insert k v m) = (get m)(k \<mapsto> v)"
    and inv_remove: "inv m \<Longrightarrow> inv (remove k m)"
    and get_remove: "inv m \<Longrightarrow> get (remove k m) = (get m)(k := None)"
    and entries_sorted: "inv m \<Longrightarrow> sorted_wrt (<) (map fst (entries m))"
    and get_entries: "inv m \<Longrightarrow> get m = map_of (entries m)"
begin

lemma entries_distinct: "inv m \<Longrightarrow> distinct (map fst (entries m))"
  using entries_sorted by (simp add: sorted_wrt_less_iff)

lemma get_iff_entries: "inv m \<Longrightarrow> get m k = Some v \<longleftrightarrow> (k, v) \<in> set (entries m)"
  by (simp add: get_entries map_of_eq_Some_iff entries_distinct)

lemma dom_get: "inv m \<Longrightarrow> dom (get m) = fst ` set (entries m)"
  by (simp add: get_entries dom_map_of_conv_image_fst)

text \<open>The entries are determined by the lookups.\<close>

lemma entries_eqI:
  assumes "inv m" "inv m'" "get m = get m'"
  shows "entries m = entries m'"
proof (rule map_sorted_distinct_set_unique [where f = fst])
  show "inj_on fst (set (entries m) \<union> set (entries m'))"
    using assms entries_distinct by (auto simp: inj_on_def get_iff_entries [symmetric])
  show "sorted (map fst (entries m))" "sorted (map fst (entries m'))"
       "distinct (map fst (entries m))" "distinct (map fst (entries m'))"
    using assms entries_sorted by (simp_all add: sorted_wrt_less_iff)
  show "set (entries m) = set (entries m')"
    using assms by (auto simp: get_iff_entries [symmetric])
qed

lemma fold_insert:
  assumes "inv m"
  shows "inv (foldl (\<lambda>m (k, v). insert k v m) m kvs) \<and>
         get (foldl (\<lambda>m (k, v). insert k v m) m kvs) = get m ++ map_of (rev kvs)"
  using assms
proof (induction kvs arbitrary: m)
  case Nil
  then show ?case by simp
next
  case (Cons kv kvs)
  obtain k v where kv: "kv = (k, v)" by force
  from Cons.IH [OF inv_insert [OF Cons.prems]] Cons.prems show ?case
    by (auto simp: kv get_insert map_add_def fun_eq_iff split: option.splits)
qed

lemma collect_distinct:
  assumes "distinct (map fst kvs)"
  shows "get (foldl (\<lambda>m (k, v). insert k v m) empty kvs) = map_of kvs"
proof -
  have "map_of (rev kvs) = map_of kvs"
    by (rule map_of_inject_set [THEN iffD2]) (use assms in \<open>simp_all add: rev_map [symmetric]\<close>)
  then show ?thesis
    using fold_insert [OF inv_empty, of kvs] by (simp add: fun_eq_iff get_empty map_add_def split: option.splits)
qed

end

section \<open>The list model\<close>

lemma btree_insert_keys: "fst ` set (btree_insert k v m) = insert k (fst ` set m)"
  by (induction k v m rule: btree_insert.induct) (simp_all add: insert_commute)

lemma btree_remove_keys: "fst ` set (btree_remove k m) \<subseteq> fst ` set m"
  by (induction k m rule: btree_remove.induct) (simp_all add: subset_insertI subset_insertI2)

lemma btree_inv_Nil [simp]: "btree_inv []"
  by (simp add: btree_inv_def)

lemma btree_inv_Cons:
  "btree_inv ((k, v) # m) \<longleftrightarrow> (\<forall>k' \<in> fst ` set m. k < k') \<and> btree_inv m"
  by (simp add: btree_inv_def)

lemma btree_inv_insert: "btree_inv m \<Longrightarrow> btree_inv (btree_insert k v m)"
proof (induction k v m rule: btree_insert.induct)
  case (2 k v k' v' m)
  then show ?case
    by (simp only: btree_insert.simps btree_inv_Cons btree_insert_keys split: if_split)
      (fastforce simp: btree_inv_Cons)
qed (simp add: btree_inv_Cons)

lemma btree_inv_remove: "btree_inv m \<Longrightarrow> btree_inv (btree_remove k m)"
proof (induction k m rule: btree_remove.induct)
  case (2 k k' v' m)
  then show ?case
    using btree_remove_keys [of k m] by (auto simp only: btree_remove.simps btree_inv_Cons split: if_split)
qed simp

lemma btree_get_insert: "btree_get (btree_insert k v m) = (btree_get m)(k \<mapsto> v)"
  by (induction m) (auto simp: btree_get_def fun_eq_iff)

lemma btree_get_remove:
  "btree_inv m \<Longrightarrow> btree_get (btree_remove k m) = (btree_get m)(k := None)"
proof (induction m)
  case (Cons a m)
  obtain k' v' where a: "a = (k', v')" by force
  have "k' \<notin> fst ` set m" using Cons.prems by (auto simp: a btree_inv_Cons)
  then have "map_of m k' = None" by (simp add: map_of_eq_None_iff)
  with Cons show ?case by (auto simp: a btree_get_def btree_inv_Cons fun_eq_iff)
qed (simp add: btree_get_def fun_eq_iff)

interpretation bt: ordered_map "[]" btree_insert btree_remove btree_get "\<lambda>m. m" btree_inv
  by unfold_locales
    (simp_all add: btree_inv_insert btree_get_insert btree_inv_remove btree_get_remove,
     simp_all add: btree_inv_def btree_get_def)

lemma btree_collect_inv: "btree_inv (btree_collect kvs)"
  using bt.fold_insert [of "[]" kvs] by (simp add: btree_collect_def)

lemma btree_collect_get:
  "distinct (map fst kvs) \<Longrightarrow> btree_get (btree_collect kvs) = map_of kvs"
  using bt.collect_distinct by (simp add: btree_collect_def)

lemma btree_collect_set:
  assumes "distinct (map fst kvs)"
  shows "set (btree_collect kvs) = set kvs"
proof -
  have "\<And>k v. (k, v) \<in> set (btree_collect kvs) \<longleftrightarrow> (k, v) \<in> set kvs"
    using bt.get_iff_entries [OF btree_collect_inv] btree_collect_get [OF assms] assms
    by (metis map_of_eq_Some_iff)
  then show ?thesis by auto
qed

lemma btree_collect_length:
  assumes "distinct (map fst kvs)"
  shows "length (btree_collect kvs) = length kvs"
proof -
  have "distinct (map fst (btree_collect kvs))"
    by (rule bt.entries_distinct [OF btree_collect_inv])
  then have "length (btree_collect kvs) = card (fst ` set (btree_collect kvs))"
    by (metis distinct_card length_map list.set_map)
  also have "\<dots> = length kvs"
    using assms by (metis btree_collect_set distinct_card length_map list.set_map)
  finally show ?thesis .
qed

text \<open>A map collected from entries already in key order is those entries.\<close>

lemma btree_collect_sorted:
  assumes "btree_inv kvs"
  shows "btree_collect kvs = kvs"
proof -
  have d: "distinct (map fst kvs)" using bt.entries_distinct [OF assms] .
  show ?thesis
    by (rule bt.entries_eqI [OF btree_collect_inv assms])
      (rule btree_collect_get [OF d, folded btree_get_def])
qed

end
