(* ===== verification/Counter.thy ===== *)
theory Counter
  imports Prelude
begin

text \<open>
  Checked counters.  Revisions, change sequences, request identifiers and snapshot generations
  are newtypes over \<open>u64\<close> with a \<open>next\<close> that fails at their limit.  The locale states that
  contract once; each counter interprets it in the theory of its component.
\<close>

text \<open>Numbering the elements of a list with successive counter values.\<close>

fun number_all :: "('s \<Rightarrow> 'e + 's) \<Rightarrow> ('s \<Rightarrow> 'x \<Rightarrow> 'y) \<Rightarrow> 's \<Rightarrow> 'x list \<Rightarrow> 'e + ('s \<times> 'y list)" where
  "number_all nxt f s [] = Inr (s, [])"
| "number_all nxt f s (x # xs) =
     and_then (nxt s) (\<lambda>s'.
     and_then (number_all nxt f s' xs) (\<lambda>(t, ys). Inr (t, f s' x # ys)))"

locale checked_counter =
  fixes val :: "'s \<Rightarrow> nat" and nxt :: "'s \<Rightarrow> 'e + 's" and limit :: nat
  assumes nxt_val: "nxt s = Inr s' \<Longrightarrow> val s' = val s + 1"
    and nxt_total: "val s < limit \<Longrightarrow> \<exists>s'. nxt s = Inr s'"
    and nxt_limit: "nxt s = Inr s' \<Longrightarrow> val s' \<le> limit"
begin

lemma number_all_vals:
  "number_all nxt f s xs = Inr (t, ys) \<Longrightarrow>
     val t = val s + length xs \<and>
     (\<exists>ss. ys = map2 f ss xs \<and> map val ss = [val s + 1 ..< val s + length xs + 1])"
proof (induction xs arbitrary: s ys)
  case Nil
  then show ?case by simp
next
  case (Cons x xs)
  from Cons.prems obtain s' ys' where n: "nxt s = Inr s'" "number_all nxt f s' xs = Inr (t, ys')"
      "ys = f s' x # ys'"
    by (auto simp: and_then_Inr_iff)
  from Cons.IH [OF n(2)] obtain ss where "val t = val s' + length xs" "ys' = map2 f ss xs"
      "map val ss = [val s' + 1 ..< val s' + length xs + 1]" by blast
  moreover have "[val s + 1 ..< val s + length (x # xs) + 1] =
      (val s + 1) # [val s + 1 + 1 ..< val s + 1 + length xs + 1]"
    by (simp add: upt_conv_Cons del: upt_Suc)
  ultimately show ?case
    using nxt_val [OF n(1)] n(3) by (auto intro!: exI [of _ "s' # ss"] simp del: upt_Suc)
qed

lemma number_all_total:
  "val s + length xs \<le> limit \<Longrightarrow> \<exists>r. number_all nxt f s xs = Inr r"
proof (induction xs arbitrary: s)
  case Nil
  then show ?case by simp
next
  case (Cons x xs)
  from Cons.prems nxt_total [of s] obtain s' where s': "nxt s = Inr s'" by auto
  with Cons.prems nxt_val [OF s'] have "val s' + length xs \<le> limit" by simp
  from Cons.IH [OF this] s' show ?case by auto
qed

end

end
