(* ===== verification/BenefitReconcile.thy ===== *)
theory BenefitReconcile
  imports Benefit Ordered_Map Counter
begin

text \<open>
  Benefit inventories: \<open>crates/benefits/src/identity.rs\<close> and \<open>reconcile.rs\<close>.  An inventory
  state holds the current lots in identity order; reconciling it with an observation produces
  the next state and a numbered change log.
\<close>

section \<open>Identities\<close>

definition BENEFIT_SCOPE_DOMAIN :: "u8 list" where
  "BENEFIT_SCOPE_DOMAIN = bytes_of ''tokenmaster.benefit.scope.v1''"
definition CHANGE_DOMAIN :: "u8 list" where
  "CHANGE_DOMAIN = bytes_of ''tokenmaster.benefit.change.v1''"
definition DELIVERY_DOMAIN :: "u8 list" where
  "DELIVERY_DOMAIN = bytes_of ''tokenmaster.benefit.delivery.v1''"

definition benefit_scope_message :: "benefit_scope \<Rightarrow> u8 list" where
  "benefit_scope_message scope =
     (let hasher = update_field [] BENEFIT_SCOPE_DOMAIN;
          hasher = update_field hasher (bytes_of (bs_provider_id scope));
          hasher = update_field hasher (bytes_of (bs_account_id scope))
      in case bs_workspace_id scope of
           Some workspace_id \<Rightarrow> update_field (update_field hasher [1]) (bytes_of workspace_id)
         | None \<Rightarrow> update_field hasher [0])"

definition benefit_scope_id :: "(u8 list \<Rightarrow> digest) \<Rightarrow> benefit_scope \<Rightarrow> digest" where
  "benefit_scope_id sha256 scope = sha256 (benefit_scope_message scope)"

definition benefit_change_id ::
  "(u8 list \<Rightarrow> digest) \<Rightarrow> digest \<Rightarrow> u64 \<Rightarrow> benefit_lot_id \<Rightarrow> u64 \<Rightarrow> u8 \<Rightarrow> digest" where
  "benefit_change_id sha256 scope_id seq lot revision kind_code =
     sha256 (foldl update_field []
       [CHANGE_DOMAIN, scope_id, be_bytes seq, lot, be_bytes revision, [kind_code]])"

definition notification_channel_code :: "notification_channel \<Rightarrow> u8" where
  "notification_channel_code channel = (case channel of InApp \<Rightarrow> 1 | OsScheduled \<Rightarrow> 2)"

definition reminder_delivery_id ::
  "(u8 list \<Rightarrow> digest) \<Rightarrow> benefit_scope \<Rightarrow> benefit_lot_id \<Rightarrow> u64 \<Rightarrow> reminder_lead_time
    \<Rightarrow> notification_channel \<Rightarrow> digest" where
  "reminder_delivery_id sha256 scope lot revision lead_time channel =
     sha256 (foldl update_field []
       [DELIVERY_DOMAIN, benefit_scope_id sha256 scope, lot, be_bytes revision,
        be_bytes lead_time, [notification_channel_code channel]])"

section \<open>Counters and state\<close>

datatype benefit_core_error =
  ScopeMismatch | ConflictingObservationIdentity | InvalidRevision | InvalidSequence
  | CapacityExceeded | InvalidTime

type_synonym benefit_revision = u64
type_synonym benefit_sequence = u64

definition benefit_revision_new :: "u64 \<Rightarrow> benefit_core_error + benefit_revision" where
  "benefit_revision_new v = (if i64_max_u64 < v then Inl InvalidRevision else Inr v)"

definition benefit_revision_next :: "benefit_revision \<Rightarrow> benefit_core_error + benefit_revision" where
  "benefit_revision_next r = and_then (ok_or InvalidRevision (checked_add r 1)) benefit_revision_new"

definition benefit_sequence_new :: "u64 \<Rightarrow> benefit_core_error + benefit_sequence" where
  "benefit_sequence_new v = (if i64_max_u64 < v then Inl InvalidSequence else Inr v)"

definition benefit_sequence_next :: "benefit_sequence \<Rightarrow> benefit_core_error + benefit_sequence" where
  "benefit_sequence_next r = and_then (ok_or InvalidSequence (checked_add r 1)) benefit_sequence_new"

record benefit_current_lot =
  cl_lot :: benefit_lot_observation
  cl_revision :: benefit_revision

definition benefit_current_lot_new ::
  "benefit_lot_observation \<Rightarrow> benefit_revision \<Rightarrow> benefit_core_error + benefit_current_lot" where
  "benefit_current_lot_new lot revision =
     (if revision = 0 then Inl InvalidRevision else Inr \<lparr>cl_lot = lot, cl_revision = revision\<rparr>)"

record benefit_inventory_state =
  is_scope :: benefit_scope
  is_scope_id :: digest
  is_revision :: benefit_revision
  is_last_change_sequence :: benefit_sequence
  is_last_observation_id :: "benefit_observation_id option"
  is_last_observed_at_ms :: "i64 option"
  is_lots :: "benefit_current_lot list"

definition benefit_inventory_state_empty ::
  "(u8 list \<Rightarrow> digest) \<Rightarrow> benefit_scope \<Rightarrow> benefit_inventory_state" where
  "benefit_inventory_state_empty sha256 scope =
     \<lparr>is_scope = scope, is_scope_id = benefit_scope_id sha256 scope, is_revision = 0,
      is_last_change_sequence = 0, is_last_observation_id = None, is_last_observed_at_ms = None,
      is_lots = []\<rparr>"

abbreviation current_lot_id :: "benefit_current_lot \<Rightarrow> benefit_lot_id" where
  "current_lot_id c \<equiv> lot_id (cl_lot c)"

definition benefit_inventory_state_from_parts ::
  "(u8 list \<Rightarrow> digest) \<Rightarrow> benefit_scope \<Rightarrow> benefit_revision \<Rightarrow> benefit_sequence
    \<Rightarrow> benefit_observation_id option \<Rightarrow> i64 option \<Rightarrow> benefit_current_lot list
    \<Rightarrow> benefit_core_error + benefit_inventory_state" where
  "benefit_inventory_state_from_parts sha256 scope revision last_change_sequence
       last_observation_id last_observed_at_ms lots =
     (if is_some_and (\<lambda>v. v \<le> 0) last_observed_at_ms \<or>
         (last_observation_id \<noteq> None) \<noteq> (last_observed_at_ms \<noteq> None) \<or>
         MAX_BENEFIT_LOTS_PER_OBSERVATION < length lots
      then Inl (if MAX_BENEFIT_LOTS_PER_OBSERVATION < length lots then CapacityExceeded else InvalidTime)
      else and_then
        (try_fold (\<lambda>keyed lot.
            if btree_get keyed (current_lot_id lot) \<noteq> None then Inl CapacityExceeded
            else Inr (btree_insert (current_lot_id lot) lot keyed)) [] lots)
        (\<lambda>keyed. Inr
           \<lparr>is_scope = scope, is_scope_id = benefit_scope_id sha256 scope, is_revision = revision,
            is_last_change_sequence = last_change_sequence,
            is_last_observation_id = last_observation_id,
            is_last_observed_at_ms = last_observed_at_ms, is_lots = btree_values keyed\<rparr>))"

section \<open>Changes\<close>

datatype benefit_change_kind =
  Awarded | QuantityChanged | StateChanged | ExpiryChanged | Corrected | DisappearedAmbiguous
  | Reappeared | RetiredTerminal

fun change_kind_code :: "benefit_change_kind \<Rightarrow> u8" where
  "change_kind_code Awarded = 1"
| "change_kind_code QuantityChanged = 2"
| "change_kind_code StateChanged = 3"
| "change_kind_code ExpiryChanged = 4"
| "change_kind_code Corrected = 5"
| "change_kind_code DisappearedAmbiguous = 6"
| "change_kind_code Reappeared = 7"
| "change_kind_code RetiredTerminal = 8"

record benefit_change =
  ch_id :: digest
  ch_sequence :: benefit_sequence
  ch_lot_id :: benefit_lot_id
  ch_lot_revision :: benefit_revision
  ch_kind :: benefit_change_kind
  ch_before :: "benefit_lot_observation option"
  ch_after :: "benefit_lot_observation option"

datatype benefit_reconciliation_status =
  Reconciled_Duplicate | Reconciled_Stale | Reconciled_FreshnessOnly | Reconciled_Changed

record benefit_reconciliation =
  rec_status :: benefit_reconciliation_status
  rec_state :: benefit_inventory_state
  rec_changes :: "benefit_change list"

definition is_terminal :: "benefit_state \<Rightarrow> bool" where
  "is_terminal s \<longleftrightarrow> s = Benefit_Activated \<or> s = Benefit_Expired \<or> s = Benefit_Revoked"

definition classify_change ::
  "benefit_lot_observation \<Rightarrow> benefit_lot_observation \<Rightarrow> benefit_change_kind" where
  "classify_change before after =
     (if lot_state before = Benefit_Ambiguous \<and> lot_state after \<noteq> Benefit_Ambiguous then Reappeared
      else
        let quantity_changed = (lot_quantity before \<noteq> lot_quantity after);
            state_changed = (lot_state before \<noteq> lot_state after);
            expiry_changed = (lot_expiry before \<noteq> lot_expiry after);
            other_changed =
              (lot_kind before \<noteq> lot_kind after \<or> lot_target before \<noteq> lot_target after \<or>
               lot_granted_at_ms before \<noteq> lot_granted_at_ms after \<or>
               lot_source before \<noteq> lot_source after \<or>
               lot_confidence before \<noteq> lot_confidence after \<or>
               lot_detail_kind before \<noteq> lot_detail_kind after \<or>
               lot_label_key before \<noteq> lot_label_key after)
        in case (quantity_changed, state_changed, expiry_changed, other_changed) of
             (True, False, False, False) \<Rightarrow> QuantityChanged
           | (False, True, False, False) \<Rightarrow> StateChanged
           | (False, False, True, False) \<Rightarrow> ExpiryChanged
           | _ \<Rightarrow> Corrected)"

type_synonym pending_change =
  "benefit_lot_id \<times> benefit_revision \<times> benefit_change_kind \<times>
   benefit_lot_observation option \<times> benefit_lot_observation option"

type_synonym lot_tree = "(benefit_lot_id, benefit_current_lot) btree_map"

text \<open>The body of the loop over the observed lots.\<close>

fun observed_step ::
  "lot_tree \<times> lot_tree \<times> pending_change list \<Rightarrow> benefit_lot_observation
    \<Rightarrow> benefit_core_error + (lot_tree \<times> lot_tree \<times> pending_change list)" where
  "observed_step (prior, nxt, pending) lot =
     (let key = lot_id lot in
      case btree_get prior key of
        None \<Rightarrow>
          and_then (benefit_revision_new 1) (\<lambda>revision.
          and_then (benefit_current_lot_new lot revision) (\<lambda>current.
            Inr (btree_remove key prior, btree_insert key current nxt,
                 pending @ [(lot_id lot, revision, Awarded, None, Some lot)])))
      | Some previous \<Rightarrow>
          if cl_lot previous = lot
          then Inr (btree_remove key prior, btree_insert key previous nxt, pending)
          else
            and_then (benefit_revision_next (cl_revision previous)) (\<lambda>revision.
              let kind = classify_change (cl_lot previous) lot in
              and_then (benefit_current_lot_new lot revision) (\<lambda>current.
                Inr (btree_remove key prior, btree_insert key current nxt,
                     pending @ [(lot_id lot, revision, kind, Some (cl_lot previous), Some lot)]))))"

text \<open>The body of the loop over the lots that were not observed.\<close>

fun missing_step ::
  "bool \<Rightarrow> lot_tree \<times> pending_change list \<Rightarrow> benefit_lot_id \<times> benefit_current_lot
    \<Rightarrow> benefit_core_error + (lot_tree \<times> pending_change list)" where
  "missing_step complete (nxt, pending) (key, previous) =
     (if \<not> complete then Inr (btree_insert key previous nxt, pending)
      else if is_terminal (lot_state (cl_lot previous)) then
        and_then (benefit_revision_next (cl_revision previous)) (\<lambda>revision.
          Inr (nxt, pending @ [(lot_id (cl_lot previous), revision, RetiredTerminal,
                                Some (cl_lot previous), None)]))
      else if lot_state (cl_lot previous) = Benefit_Ambiguous then
        Inr (btree_insert key previous nxt, pending)
      else
        and_then
          (case benefit_lot_observation_new ((cl_lot previous)\<lparr>lot_state := Benefit_Ambiguous\<rparr>) of
             Inl _ \<Rightarrow> Inl CapacityExceeded | Inr ambiguous \<Rightarrow> Inr ambiguous) (\<lambda>ambiguous.
        and_then (benefit_revision_next (cl_revision previous)) (\<lambda>revision.
        and_then (benefit_current_lot_new ambiguous revision) (\<lambda>current.
          Inr (btree_insert key current nxt,
               pending @ [(lot_id ambiguous, revision, DisappearedAmbiguous,
                           Some (cl_lot previous), Some ambiguous)])))))"

definition keyed_lots :: "benefit_current_lot list \<Rightarrow> lot_tree" where
  "keyed_lots lots = btree_collect (map (\<lambda>c. (current_lot_id c, c)) lots)"

definition reconcile_lots ::
  "benefit_current_lot list \<Rightarrow> benefit_inventory_observation
    \<Rightarrow> benefit_core_error + (lot_tree \<times> pending_change list)" where
  "reconcile_lots lots observation =
     and_then
       (try_fold observed_step (keyed_lots lots, [], []) (sort_key lot_id (io_lots observation)))
       (\<lambda>(prior, nxt, pending).
          try_fold (missing_step (io_completeness observation \<noteq> Inventory_Partial))
            (nxt, pending) prior)"

definition make_change ::
  "(u8 list \<Rightarrow> digest) \<Rightarrow> digest \<Rightarrow> benefit_sequence \<Rightarrow> pending_change \<Rightarrow> benefit_change" where
  "make_change sha256 scope_id seq p =
     (case p of (lot, lot_revision, kind, before, after) \<Rightarrow>
        \<lparr>ch_id = benefit_change_id sha256 scope_id seq lot lot_revision (change_kind_code kind),
         ch_sequence = seq, ch_lot_id = lot, ch_lot_revision = lot_revision, ch_kind = kind,
         ch_before = before, ch_after = after\<rparr>)"

definition reconcile_inventory ::
  "(u8 list \<Rightarrow> digest) \<Rightarrow> benefit_inventory_state \<Rightarrow> benefit_inventory_observation
    \<Rightarrow> benefit_core_error + benefit_reconciliation" where
  "reconcile_inventory sha256 current observation =
     (if is_scope current \<noteq> io_scope observation then Inl ScopeMismatch
      else if is_some_and (\<lambda>last. io_observed_at_ms observation < last) (is_last_observed_at_ms current)
      then Inr \<lparr>rec_status = Reconciled_Stale, rec_state = current, rec_changes = []\<rparr>
      else and_then (reconcile_lots (is_lots current) observation) (\<lambda>(nxt, pending).
        if MAX_BENEFIT_LOTS_PER_OBSERVATION < length nxt then Inl CapacityExceeded
        else if is_last_observation_id current = Some (io_observation_id observation)
        then (if pending = []
              then Inr \<lparr>rec_status = Reconciled_Duplicate, rec_state = current, rec_changes = []\<rparr>
              else Inl ConflictingObservationIdentity)
        else
          and_then (number_all benefit_sequence_next (make_change sha256 (is_scope_id current))
              (is_last_change_sequence current) pending) (\<lambda>(seq, changes).
          and_then (benefit_revision_next (is_revision current)) (\<lambda>revision.
            Inr \<lparr>rec_status = (if changes = [] then Reconciled_FreshnessOnly else Reconciled_Changed),
                 rec_state =
                   \<lparr>is_scope = is_scope current, is_scope_id = is_scope_id current,
                    is_revision = revision, is_last_change_sequence = seq,
                    is_last_observation_id = Some (io_observation_id observation),
                    is_last_observed_at_ms = Some (io_observed_at_ms observation),
                    is_lots = btree_values nxt\<rparr>,
                 rec_changes = changes\<rparr>))))"

section \<open>Counter lemmas\<close>

lemma le_i64_max_iff: "\<not> i64_max_u64 < w \<longleftrightarrow> unat w \<le> 2 ^ 63 - 1"
  by (simp add: i64_max_u64_def word_less_nat_alt) arith

lemma revision_next_iff:
  "benefit_revision_next r = Inr r' \<longleftrightarrow> unat r' = unat r + 1 \<and> unat r' \<le> 2 ^ 63 - 1"
  by (auto simp: benefit_revision_next_def benefit_revision_new_def and_then_Inr_iff ok_or_Inr_iff
      checked_add_iff if_Inr_iff le_i64_max_iff)

lemma sequence_next_iff:
  "benefit_sequence_next r = Inr r' \<longleftrightarrow> unat r' = unat r + 1 \<and> unat r' \<le> 2 ^ 63 - 1"
  by (auto simp: benefit_sequence_next_def benefit_sequence_new_def and_then_Inr_iff ok_or_Inr_iff
      checked_add_iff if_Inr_iff le_i64_max_iff)

lemma next_word_exists:
  assumes "unat (r :: u64) < 2 ^ 63 - 1"
  shows "\<exists>r' :: u64. unat r' = unat r + 1 \<and> unat r' \<le> 2 ^ 63 - 1"
proof -
  from assms have "checked_add r 1 \<noteq> None" by (simp add: checked_add_None_iff del: not_None_eq)
  then obtain c where "checked_add r 1 = Some c" by auto
  then have "unat c = unat r + 1" by (simp add: checked_add_iff)
  with assms show ?thesis by (intro exI [of _ c]) simp
qed

interpretation benefit_revisions: checked_counter unat benefit_revision_next "2 ^ 63 - 1"
  by unfold_locales (use next_word_exists in \<open>auto simp: revision_next_iff\<close>)

interpretation benefit_sequences: checked_counter unat benefit_sequence_next "2 ^ 63 - 1"
  by unfold_locales (use next_word_exists in \<open>auto simp: sequence_next_iff\<close>)

lemma revision_next_plus: "benefit_revision_next r = Inr r' \<Longrightarrow> r' = r + 1"
  by (simp add: benefit_revision_next_def benefit_revision_new_def checked_add_def
      split: if_splits)

lemma revision_next_nonzero: "benefit_revision_next r = Inr r' \<Longrightarrow> r' \<noteq> 0"
  using benefit_revisions.nxt_val by force

section \<open>Lot maps\<close>

text \<open>The abstract inventory: a finite map from lot identities to current lots.\<close>

type_synonym lot_map = "benefit_lot_id \<rightharpoonup> benefit_current_lot"

definition lots_map :: "benefit_current_lot list \<Rightarrow> lot_map" where
  "lots_map lots = map_of (map (\<lambda>c. (current_lot_id c, c)) lots)"

text \<open>A tree of lots: sorted, every lot under its own identity with a positive revision.\<close>

definition lot_tree_ok :: "lot_tree \<Rightarrow> bool" where
  "lot_tree_ok m \<longleftrightarrow>
     btree_inv m \<and> list_all (\<lambda>(k, c). current_lot_id c = k \<and> cl_revision c \<noteq> 0) m"

lemma lot_tree_okD: "lot_tree_ok m \<Longrightarrow> btree_inv m"
  by (simp add: lot_tree_ok_def)

lemma btree_insert_set: "set (btree_insert k v m) \<subseteq> insert (k, v) (set m)"
  by (induction k v m rule: btree_insert.induct) auto

lemma btree_remove_set: "set (btree_remove k m) \<subseteq> set m"
  by (induction k m rule: btree_remove.induct) auto

lemma lot_tree_ok_insert:
  "lot_tree_ok m \<Longrightarrow> current_lot_id c = k \<Longrightarrow> cl_revision c \<noteq> 0 \<Longrightarrow> lot_tree_ok (btree_insert k c m)"
  using btree_insert_set [of k c m] by (auto simp: lot_tree_ok_def btree_inv_insert list_all_iff)

lemma lot_tree_ok_remove: "lot_tree_ok m \<Longrightarrow> lot_tree_ok (btree_remove k m)"
  using btree_remove_set [of k m] by (auto simp: lot_tree_ok_def btree_inv_remove list_all_iff)

lemma lot_tree_ok_get:
  "lot_tree_ok m \<Longrightarrow> btree_get m k = Some c \<Longrightarrow> current_lot_id c = k \<and> cl_revision c \<noteq> 0"
  by (auto simp: lot_tree_ok_def bt.get_iff_entries list_all_iff)

lemma lot_tree_values:
  assumes "lot_tree_ok m"
  shows "map current_lot_id (btree_values m) = map fst m"
    and "map (\<lambda>c. (current_lot_id c, c)) (btree_values m) = m"
  using assms by (auto simp: lot_tree_ok_def btree_values_def list_all_iff intro!: map_idI)

lemma lots_map_values: "lot_tree_ok m \<Longrightarrow> lots_map (btree_values m) = btree_get m"
  by (simp add: lots_map_def lot_tree_values btree_get_def)

section \<open>The specification of a reconciliation\<close>

definition observe :: "benefit_current_lot option \<Rightarrow> benefit_lot_observation \<Rightarrow> benefit_current_lot" where
  "observe previous lot =
     (case previous of
        None \<Rightarrow> \<lparr>cl_lot = lot, cl_revision = 1\<rparr>
      | Some p \<Rightarrow> if cl_lot p = lot then p else \<lparr>cl_lot = lot, cl_revision = cl_revision p + 1\<rparr>)"

definition keep_missing :: "bool \<Rightarrow> benefit_current_lot \<Rightarrow> benefit_current_lot option" where
  "keep_missing complete c =
     (if \<not> complete then Some c
      else if is_terminal (lot_state (cl_lot c)) then None
      else if lot_state (cl_lot c) = Benefit_Ambiguous then Some c
      else Some \<lparr>cl_lot = (cl_lot c)\<lparr>lot_state := Benefit_Ambiguous\<rparr>, cl_revision = cl_revision c + 1\<rparr>)"

definition reconciled_map :: "benefit_inventory_observation \<Rightarrow> lot_map \<Rightarrow> lot_map" where
  "reconciled_map observation m k =
     (case map_of (map (\<lambda>l. (lot_id l, l)) (io_lots observation)) k of
        Some lot \<Rightarrow> Some (observe (m k) lot)
      | None \<Rightarrow> Option.bind (m k) (keep_missing (io_completeness observation \<noteq> Inventory_Partial)))"

text \<open>Replaying a change log on a lot map.\<close>

definition apply_change :: "lot_map \<Rightarrow> pending_change \<Rightarrow> lot_map" where
  "apply_change m p =
     (case p of (k, revision, _, _, after) \<Rightarrow>
        m(k := map_option (\<lambda>lot. \<lparr>cl_lot = lot, cl_revision = revision\<rparr>) after))"

lemma apply_change_eq:
  "apply_change m (k, revision, kind, before, after) =
     m(k := map_option (\<lambda>lot. \<lparr>cl_lot = lot, cl_revision = revision\<rparr>) after)"
  by (simp add: apply_change_def)

definition change_of :: "benefit_change \<Rightarrow> pending_change" where
  "change_of c = (ch_lot_id c, ch_lot_revision c, ch_kind c, ch_before c, ch_after c)"

text \<open>One step of each loop, as a step on the maps.\<close>

lemma observed_step_ok:
  assumes "observed_step (P, N, W) lot = Inr (P', N', W')" and "lot_tree_ok P" and "lot_tree_ok N"
  shows "P' = btree_remove (lot_id lot) P \<and>
    N' = btree_insert (lot_id lot) (observe (btree_get P (lot_id lot)) lot) N \<and>
    lot_tree_ok P' \<and> lot_tree_ok N' \<and>
    (if map_option cl_lot (btree_get P (lot_id lot)) = Some lot then W' = W
     else \<exists>kind before. W' = W @ [(lot_id lot, cl_revision (observe (btree_get P (lot_id lot)) lot),
            kind, before, Some lot)] \<and> before = map_option cl_lot (btree_get P (lot_id lot)) \<and>
            (kind = Awarded \<longleftrightarrow> before = None))"
proof (cases "btree_get P (lot_id lot)")
  case None
  with assms(1) have P': "P' = btree_remove (lot_id lot) P"
      "N' = btree_insert (lot_id lot) \<lparr>cl_lot = lot, cl_revision = 1\<rparr> N"
      "W' = W @ [(lot_id lot, 1, Awarded, None, Some lot)]"
    by (simp_all add: Let_def benefit_revision_new_def benefit_current_lot_new_def i64_max_u64_def)
  with None assms(2,3) show ?thesis
    by (simp add: observe_def lot_tree_ok_remove lot_tree_ok_insert)
next
  case (Some previous)
  note id = lot_tree_ok_get [OF assms(2) Some]
  show ?thesis
  proof (cases "cl_lot previous = lot")
    case True
    with assms Some id show ?thesis
      by (simp add: Let_def observe_def) (auto simp: lot_tree_ok_remove lot_tree_ok_insert)
  next
    case False
    with assms(1) Some obtain r where r: "benefit_revision_next (cl_revision previous) = Inr r"
        "P' = btree_remove (lot_id lot) P"
        "N' = btree_insert (lot_id lot) \<lparr>cl_lot = lot, cl_revision = r\<rparr> N"
        "W' = W @ [(lot_id lot, r, classify_change (cl_lot previous) lot, Some (cl_lot previous), Some lot)]"
      by (auto simp: Let_def and_then_Inr_iff benefit_current_lot_new_def if_Inr_iff)
    have "classify_change (cl_lot previous) lot \<noteq> Awarded"
      by (simp add: classify_change_def Let_def split: bool.split)
    with r False Some assms(2,3) revision_next_plus [OF r(1)] revision_next_nonzero [OF r(1)]
    show ?thesis by (simp add: observe_def lot_tree_ok_remove lot_tree_ok_insert)
  qed
qed

lemma missing_step_ok:
  assumes "missing_step complete (N, W) (k, c) = Inr (N', W')" and "lot_tree_ok N"
    and "current_lot_id c = k" and "cl_revision c \<noteq> 0"
  shows "N' = (case keep_missing complete c of None \<Rightarrow> N | Some c' \<Rightarrow> btree_insert k c' N) \<and>
    lot_tree_ok N' \<and>
    (if keep_missing complete c = Some c then W' = W
     else \<exists>kind. W' = W @ [(k, cl_revision c + 1, kind, Some (cl_lot c),
            map_option cl_lot (keep_missing complete c))] \<and>
            (kind = RetiredTerminal \<longleftrightarrow> keep_missing complete c = None) \<and> kind \<noteq> Awarded) \<and>
    (\<forall>c'. keep_missing complete c = Some c' \<longrightarrow> c' = c \<or> cl_revision c' = cl_revision c + 1)"
proof (cases "\<not> complete \<or> lot_state (cl_lot c) = Benefit_Ambiguous")
  case True
  with assms have "keep_missing complete c = Some c" "N' = btree_insert k c N" "W' = W"
    by (cases complete; simp add: keep_missing_def is_terminal_def)+
  with assms show ?thesis by (simp add: lot_tree_ok_insert)
next
  case False
  show ?thesis
  proof (cases "is_terminal (lot_state (cl_lot c))")
    case True
    with False assms(1) obtain r where "benefit_revision_next (cl_revision c) = Inr r" "N' = N"
        "W' = W @ [(lot_id (cl_lot c), r, RetiredTerminal, Some (cl_lot c), None)]"
      by (auto simp: and_then_Inr_iff)
    with True False assms(2,3) revision_next_plus show ?thesis by (simp add: keep_missing_def)
  next
    case alive: False
    let ?a = "(cl_lot c)\<lparr>lot_state := Benefit_Ambiguous\<rparr>"
    from False alive assms(1) obtain a r where
      a: "benefit_lot_observation_new ?a = Inr a" and r: "benefit_revision_next (cl_revision c) = Inr r" and
      N': "N' = btree_insert k \<lparr>cl_lot = a, cl_revision = r\<rparr> N" and
      W': "W' = W @ [(lot_id a, r, DisappearedAmbiguous, Some (cl_lot c), Some a)]"
      by (auto simp: and_then_Inr_iff benefit_current_lot_new_def if_Inr_iff split: sum.splits)
    from a have a_eq: "a = ?a" by (simp add: lot_observation_new_iff)
    have keep: "keep_missing complete c = Some \<lparr>cl_lot = ?a, cl_revision = cl_revision c + 1\<rparr>"
      using False alive by (simp add: keep_missing_def)
    have "\<lparr>cl_lot = ?a, cl_revision = cl_revision c + 1\<rparr> \<noteq> c"
      using False by (metis benefit_current_lot.select_convs(1) benefit_lot_observation.select_convs(4)
          benefit_lot_observation.surjective benefit_lot_observation.update_convs(4))
    with keep N' W' a_eq assms(2,3) revision_next_plus [OF r] revision_next_nonzero [OF r]
    show ?thesis by (simp add: lot_tree_ok_insert)
  qed
qed

section \<open>The two loops\<close>

lemma observed_loop:
  assumes "try_fold observed_step (P, N, W) os = Inr (P', N', W')"
    and "lot_tree_ok P" "lot_tree_ok N" "distinct (map lot_id os)"
  shows "lot_tree_ok P' \<and> lot_tree_ok N' \<and>
    btree_get P' = (\<lambda>k. if k \<in> lot_id ` set os then None else btree_get P k) \<and>
    btree_get N' = (\<lambda>k. case map_of (map (\<lambda>l. (lot_id l, l)) os) k of
        Some l \<Rightarrow> Some (observe (btree_get P k) l) | None \<Rightarrow> btree_get N k)"
  using assms
proof (induction os arbitrary: P N W)
  case Nil
  then show ?case by simp
next
  case (Cons l os)
  from Cons.prems(1) obtain P1 N1 W1 where step: "observed_step (P, N, W) l = Inr (P1, N1, W1)" and
    rest: "try_fold observed_step (P1, N1, W1) os = Inr (P', N', W')"
    by (auto simp: and_then_Inr_iff)
  note ok = observed_step_ok [OF step Cons.prems(2,3)]
  then have ok1: "lot_tree_ok P1" "lot_tree_ok N1" by blast+
  have P1: "btree_get P1 = (btree_get P)(lot_id l := None)"
    using ok Cons.prems(2) by (simp add: btree_get_remove lot_tree_okD)
  have N1: "btree_get N1 = (btree_get N)(lot_id l \<mapsto> observe (btree_get P (lot_id l)) l)"
    using ok by (simp add: btree_get_insert)
  have out: "map_of (map (\<lambda>l. (lot_id l, l)) os) (lot_id l) = None" "lot_id l \<notin> lot_id ` set os"
    using Cons.prems(4) by (force simp: map_of_eq_None_iff)+
  from Cons.IH [OF rest ok1] Cons.prems(4) show ?case
    by (auto simp: P1 N1 out fun_eq_iff split: option.split)
qed

lemma observed_loop_log:
  assumes "try_fold observed_step (P, N, W) os = Inr (P', N', W')"
    and "lot_tree_ok P" "lot_tree_ok N" "\<forall>k. btree_get P k = None \<or> btree_get N k = None"
    and "foldl apply_change C W = btree_get P ++ btree_get N"
  shows "(\<forall>k. btree_get P' k = None \<or> btree_get N' k = None) \<and>
    foldl apply_change C W' = btree_get P' ++ btree_get N'"
  using assms
proof (induction os arbitrary: P N W)
  case Nil
  then show ?case by simp
next
  case (Cons l os)
  from Cons.prems(1) obtain P1 N1 W1 where step: "observed_step (P, N, W) l = Inr (P1, N1, W1)" and
    rest: "try_fold observed_step (P1, N1, W1) os = Inr (P', N', W')"
    by (auto simp: and_then_Inr_iff)
  note ok = observed_step_ok [OF step Cons.prems(2,3)]
  let ?c = "observe (btree_get P (lot_id l)) l"
  have P1: "btree_get P1 = (btree_get P)(lot_id l := None)"
    using ok Cons.prems(2) by (simp add: btree_get_remove lot_tree_okD)
  have N1: "btree_get N1 = (btree_get N)(lot_id l \<mapsto> ?c)"
    using ok by (simp add: btree_get_insert)
  have dom: "\<forall>k. btree_get P1 k = None \<or> btree_get N1 k = None"
    using Cons.prems(4) by (simp add: P1 N1)
  have merged: "btree_get P1 ++ btree_get N1 = (btree_get P ++ btree_get N)(lot_id l \<mapsto> ?c)"
    by (auto simp: P1 N1 fun_eq_iff map_add_def split: option.split)
  have "foldl apply_change C W1 = btree_get P1 ++ btree_get N1"
  proof (cases "map_option cl_lot (btree_get P (lot_id l)) = Some l")
    case True
    then obtain p where p: "btree_get P (lot_id l) = Some p" "cl_lot p = l" by auto
    with Cons.prems(4) [rule_format, of "lot_id l"]
    have "(btree_get P ++ btree_get N) (lot_id l) = Some p" by (simp add: map_add_def)
    with p have "(btree_get P ++ btree_get N)(lot_id l \<mapsto> ?c) = btree_get P ++ btree_get N"
      by (simp add: observe_def map_upd_triv)
    with True ok Cons.prems(5) merged show ?thesis by simp
  next
    case False
    then have c: "?c = \<lparr>cl_lot = l, cl_revision = cl_revision ?c\<rparr>"
      by (auto simp: observe_def split: option.split)
    obtain kind before where "W1 = W @ [(lot_id l, cl_revision ?c, kind, before, Some l)]"
      using ok by (simp only: False if_False) blast
    with Cons.prems(5) merged c show ?thesis by (simp add: apply_change_eq)
  qed
  note IH = Cons.IH [OF rest _ _ dom this]
  from ok have "lot_tree_ok P1" "lot_tree_ok N1" by blast+
  then show ?case by (rule IH)
qed

lemma missing_loop:
  assumes "try_fold (missing_step complete) (N, W) es = Inr (N', W')"
    and "lot_tree_ok es" "lot_tree_ok N" "\<forall>k. map_of es k = None \<or> btree_get N k = None"
    and "foldl apply_change C W = map_of es ++ btree_get N"
  shows "lot_tree_ok N' \<and> foldl apply_change C W' = btree_get N' \<and>
    btree_get N' = (\<lambda>k. case btree_get N k of Some c \<Rightarrow> Some c
       | None \<Rightarrow> Option.bind (map_of es k) (keep_missing complete))"
  using assms
proof (induction es arbitrary: N W)
  case Nil
  then show ?case by (simp add: fun_eq_iff split: option.split)
next
  case (Cons e es)
  obtain k c where e: "e = (k, c)" by (cases e)
  from Cons.prems(1) obtain N1 W1 where step: "missing_step complete (N, W) (k, c) = Inr (N1, W1)" and
    rest: "try_fold (missing_step complete) (N1, W1) es = Inr (N', W')"
    by (auto simp: e and_then_Inr_iff)
  from Cons.prems(2) have c: "current_lot_id c = k" "cl_revision c \<noteq> 0" and es: "lot_tree_ok es" and
    k: "map_of es k = None"
    by (auto simp: e lot_tree_ok_def btree_inv_Cons map_of_eq_None_iff)
  have Nk: "btree_get N k = None" using Cons.prems(4) [rule_format, of k] by (simp add: e)
  note ok = missing_step_ok [OF step Cons.prems(3) c]
  have N1: "btree_get N1 = (btree_get N)(k := keep_missing complete c)"
    using ok Nk by (auto simp: btree_get_insert fun_eq_iff split: option.split)
  have dom: "\<forall>x. map_of es x = None \<or> btree_get N1 x = None"
    using Cons.prems(4) k by (auto simp: N1 e split: if_splits)
  have merged: "map_of es ++ btree_get N1 = (foldl apply_change C W)(k := keep_missing complete c)"
    unfolding Cons.prems(5)
    using k by (auto simp: N1 e fun_eq_iff map_add_def split: option.split)
  have "foldl apply_change C W1 = map_of es ++ btree_get N1"
  proof (cases "keep_missing complete c = Some c")
    case True
    have "foldl apply_change C W k = Some c"
      unfolding Cons.prems(5) using Nk by (simp add: e map_add_def)
    with True ok merged show ?thesis by (simp add: fun_upd_idem)
  next
    case False
    with ok obtain kind where
      W1: "W1 = W @ [(k, cl_revision c + 1, kind, Some (cl_lot c),
         map_option cl_lot (keep_missing complete c))]" by auto
    have "map_option (\<lambda>lot. \<lparr>cl_lot = lot, cl_revision = cl_revision c + 1\<rparr>)
        (map_option cl_lot (keep_missing complete c)) = keep_missing complete c"
      using False by (auto simp: keep_missing_def)
    with W1 merged show ?thesis by (simp add: apply_change_eq)
  qed
  note IH = Cons.IH [OF rest es _ dom this]
  from ok have "lot_tree_ok N1" by blast
  from IH [OF this] k Nk show ?case by (auto simp: N1 e fun_eq_iff split: option.split)
qed

section \<open>A reconciliation as a whole\<close>

text \<open>The invariant of an inventory state.\<close>

definition inventory_ok :: "(u8 list \<Rightarrow> digest) \<Rightarrow> benefit_inventory_state \<Rightarrow> bool" where
  "inventory_ok sha256 st \<longleftrightarrow>
     is_scope_id st = benefit_scope_id sha256 (is_scope st) \<and>
     lot_tree_ok (map (\<lambda>c. (current_lot_id c, c)) (is_lots st)) \<and>
     length (is_lots st) \<le> MAX_BENEFIT_LOTS_PER_OBSERVATION \<and>
     is_none_or (\<lambda>t. 0 < t) (is_last_observed_at_ms st) \<and>
     (is_last_observation_id st = None \<longleftrightarrow> is_last_observed_at_ms st = None)"

lemma keyed_lots_ok:
  assumes "lot_tree_ok (map (\<lambda>c. (current_lot_id c, c)) lots)"
  shows "keyed_lots lots = map (\<lambda>c. (current_lot_id c, c)) lots" "lot_tree_ok (keyed_lots lots)"
    "btree_get (keyed_lots lots) = lots_map lots"
proof -
  show eq: "keyed_lots lots = map (\<lambda>c. (current_lot_id c, c)) lots"
    unfolding keyed_lots_def by (rule btree_collect_sorted [OF lot_tree_okD [OF assms]])
  show "lot_tree_ok (keyed_lots lots)" using assms by (simp add: eq)
  show "btree_get (keyed_lots lots) = lots_map lots" by (simp add: eq btree_get_def lots_map_def)
qed

lemma map_of_sorted_lots:
  assumes "distinct (map lot_id ls)"
  shows "map_of (map (\<lambda>l. (lot_id l, l)) (sort_key lot_id ls)) = map_of (map (\<lambda>l. (lot_id l, l)) ls)"
proof (rule map_of_inject_set [THEN iffD2])
  have "mset (map lot_id (sort_key lot_id ls)) = mset (map lot_id ls)" by simp
  then have "distinct (map lot_id (sort_key lot_id ls))" using assms by (metis mset_eq_imp_distinct_iff)
  then show "distinct (map fst (map (\<lambda>l. (lot_id l, l)) (sort_key lot_id ls)))" by (simp add: comp_def)
  show "distinct (map fst (map (\<lambda>l. (lot_id l, l)) ls))" using assms by (simp add: comp_def)
qed simp

lemma reconcile_lots_ok:
  assumes rec: "reconcile_lots lots observation = Inr (N, W)"
    and lots: "lot_tree_ok (map (\<lambda>c. (current_lot_id c, c)) lots)"
    and obs: "distinct (map lot_id (io_lots observation))"
  shows "lot_tree_ok N \<and> btree_get N = reconciled_map observation (lots_map lots) \<and>
    foldl apply_change (lots_map lots) W = btree_get N"
proof -
  let ?os = "sort_key lot_id (io_lots observation)"
  let ?complete = "io_completeness observation \<noteq> Inventory_Partial"
  from rec obtain P1 N1 W1 where
    l1: "try_fold observed_step (keyed_lots lots, [], []) ?os = Inr (P1, N1, W1)" and
    l2: "try_fold (missing_step ?complete) (N1, W1) P1 = Inr (N, W)"
    by (auto simp: reconcile_lots_def and_then_Inr_iff)
  note keyed = keyed_lots_ok [OF lots]
  have empty: "lot_tree_ok []" "btree_get [] = Map.empty"
    by (simp_all add: lot_tree_ok_def btree_get_def)
  have os: "distinct (map lot_id ?os)" using obs by (metis mset_eq_imp_distinct_iff mset_map mset_sort)
  note loop1 = observed_loop [OF l1 keyed(2) empty(1) os]
  have log1: "(\<forall>k. btree_get P1 k = None \<or> btree_get N1 k = None) \<and>
      foldl apply_change (lots_map lots) W1 = btree_get P1 ++ btree_get N1"
    by (rule observed_loop_log [OF l1 keyed(2) empty(1)]) (simp_all add: empty keyed(3))
  have loop2: "lot_tree_ok N \<and> foldl apply_change (lots_map lots) W = btree_get N \<and>
      btree_get N = (\<lambda>k. case btree_get N1 k of Some c \<Rightarrow> Some c
        | None \<Rightarrow> Option.bind (map_of P1 k) (keep_missing ?complete))"
    by (rule missing_loop [OF l2]) (use loop1 log1 in \<open>simp_all add: btree_get_def\<close>)
  have "btree_get N = reconciled_map observation (lots_map lots)"
  proof
    fix k
    have P1: "map_of P1 k = (if k \<in> lot_id ` set (io_lots observation) then None else lots_map lots k)"
      using loop1 by (simp add: btree_get_def [symmetric] keyed(3))
    have N1: "btree_get N1 k = (case map_of (map (\<lambda>l. (lot_id l, l)) (io_lots observation)) k of
        Some l \<Rightarrow> Some (observe (lots_map lots k) l) | None \<Rightarrow> None)"
      using loop1 by (simp add: keyed(3) map_of_sorted_lots [OF obs] empty split: option.split)
    have "map_of (map (\<lambda>l. (lot_id l, l)) (io_lots observation)) k = None \<longleftrightarrow>
        k \<notin> lot_id ` set (io_lots observation)"
      by (simp add: map_of_eq_None_iff image_image)
    with P1 N1 loop2 show "btree_get N k = reconciled_map observation (lots_map lots) k"
      by (cases "map_of (map (\<lambda>l. (lot_id l, l)) (io_lots observation)) k")
        (simp_all add: reconciled_map_def)
  qed
  with loop2 show ?thesis by blast
qed

lemma reconcile_inventory_cases:
  assumes "reconcile_inventory h st obs = Inr r"
  obtains (unchanged) "rec_state r = st" "rec_changes r = []"
      "rec_status r = Reconciled_Stale \<or> rec_status r = Reconciled_Duplicate"
  | (applied) N W seq rev where "is_scope st = io_scope obs"
      "is_none_or (\<lambda>last. last \<le> io_observed_at_ms obs) (is_last_observed_at_ms st)"
      "reconcile_lots (is_lots st) obs = Inr (N, W)" "length N \<le> MAX_BENEFIT_LOTS_PER_OBSERVATION"
      "number_all benefit_sequence_next (make_change h (is_scope_id st)) (is_last_change_sequence st) W =
         Inr (seq, rec_changes r)"
      "benefit_revision_next (is_revision st) = Inr rev"
      "rec_status r = (if rec_changes r = [] then Reconciled_FreshnessOnly else Reconciled_Changed)"
      "rec_state r = \<lparr>is_scope = is_scope st, is_scope_id = is_scope_id st, is_revision = rev,
         is_last_change_sequence = seq, is_last_observation_id = Some (io_observation_id obs),
         is_last_observed_at_ms = Some (io_observed_at_ms obs), is_lots = btree_values N\<rparr>"
proof (cases "is_some_and (\<lambda>last. io_observed_at_ms obs < last) (is_last_observed_at_ms st)")
  case True
  with assms show ?thesis by (intro unchanged) (auto simp: reconcile_inventory_def if_Inr_iff)
next
  case False
  then have time: "is_none_or (\<lambda>last. last \<le> io_observed_at_ms obs) (is_last_observed_at_ms st)"
    by (cases "is_last_observed_at_ms st") simp_all
  from assms False obtain N W where l: "is_scope st = io_scope obs"
      "reconcile_lots (is_lots st) obs = Inr (N, W)" "length N \<le> MAX_BENEFIT_LOTS_PER_OBSERVATION"
    by (auto simp: reconcile_inventory_def and_then_Inr_iff if_Inr_iff not_less)
  show ?thesis
  proof (cases "is_last_observation_id st = Some (io_observation_id obs)")
    case True
    with assms False l show ?thesis
      by (intro unchanged) (auto simp: reconcile_inventory_def split: if_splits)
  next
    case fresh: False
    with assms False l obtain seq changes rev where
      "number_all benefit_sequence_next (make_change h (is_scope_id st)) (is_last_change_sequence st) W =
         Inr (seq, changes)" "benefit_revision_next (is_revision st) = Inr rev"
      "r = \<lparr>rec_status = (if changes = [] then Reconciled_FreshnessOnly else Reconciled_Changed),
         rec_state = \<lparr>is_scope = is_scope st, is_scope_id = is_scope_id st, is_revision = rev,
         is_last_change_sequence = seq, is_last_observation_id = Some (io_observation_id obs),
         is_last_observed_at_ms = Some (io_observed_at_ms obs), is_lots = btree_values N\<rparr>,
         rec_changes = changes\<rparr>"
      by (simp add: reconcile_inventory_def and_then_Inr_iff split_beta if_Inr_iff) (metis prod.collapse)
    with l time applied show ?thesis by simp
  qed
qed

lemma change_of_make: "change_of (make_change h i s p) = p"
  by (cases p) (simp add: make_change_def change_of_def)

lemma make_change_sequence: "ch_sequence (make_change h i s p) = s"
  by (cases p) (simp add: make_change_def)

lemma numbered_changes:
  assumes "number_all benefit_sequence_next (make_change h i) s W = Inr (t, cs)"
  shows "unat t = unat s + length W" "map change_of cs = W"
    "map (\<lambda>c. unat (ch_sequence c)) cs = [unat s + 1 ..< unat s + length W + 1]"
proof -
  from benefit_sequences.number_all_vals [OF assms] obtain ss where t: "unat t = unat s + length W" and
    cs: "cs = map2 (make_change h i) ss W" and
    ss: "map unat ss = [unat s + 1 ..< unat s + length W + 1]" by blast
  have len: "length ss = length W" using arg_cong [OF ss, of length] by (simp del: upt_Suc)
  show "unat t = unat s + length W" by (rule t)
  show "map change_of cs = W"
    using len by (simp add: cs change_of_make comp_def split_beta snd_def [symmetric])
  have "map (\<lambda>c. unat (ch_sequence c)) cs = map unat (map fst (zip ss W))"
    by (simp add: cs make_change_sequence comp_def split_beta)
  also have "map fst (zip ss W) = ss" using len by simp
  finally show "map (\<lambda>c. unat (ch_sequence c)) cs = [unat s + 1 ..< unat s + length W + 1]"
    by (simp only: ss)
qed

lemma reconciled_state_ok:
  assumes "reconcile_inventory h st obs = Inr r" "inventory_ok h st"
    and "benefit_inventory_observation_new obs = Inr obs"
  shows "inventory_ok h (rec_state r)"
  using assms(1)
proof (cases rule: reconcile_inventory_cases)
  case unchanged
  with assms(2) show ?thesis by simp
next
  case (applied N W seq rev)
  have "lot_tree_ok N"
    using reconcile_lots_ok [OF applied(3)] assms(2,3)
    by (simp add: inventory_ok_def inventory_observation_new_iff)
  moreover have "length (btree_values N) = length N" by (simp add: btree_values_def)
  moreover have "0 < io_observed_at_ms obs" using assms(3) by (simp add: inventory_observation_new_iff)
  moreover have "is_scope_id st = benefit_scope_id h (is_scope st)"
    using assms(2) by (simp add: inventory_ok_def)
  ultimately show ?thesis
    unfolding applied(8) inventory_ok_def using applied(4) by (simp add: lot_tree_values)
qed

text \<open>An observation that the inventory already reflects produces no change.\<close>

lemma observed_loop_settled:
  assumes "lot_tree_ok P" "distinct (map lot_id os)"
    and "\<forall>l\<in>set os. map_option cl_lot (btree_get P (lot_id l)) = Some l"
  shows "\<exists>P' N'. try_fold observed_step (P, N, W) os = Inr (P', N', W)"
  using assms
proof (induction os arbitrary: P N)
  case Nil
  then show ?case by simp
next
  case (Cons l os)
  then obtain p where p: "btree_get P (lot_id l) = Some p" "cl_lot p = l" by auto
  then have step: "observed_step (P, N, W) l =
      Inr (btree_remove (lot_id l) P, btree_insert (lot_id l) p N, W)" by (simp add: Let_def)
  have "\<forall>l'\<in>set os. map_option cl_lot (btree_get (btree_remove (lot_id l) P) (lot_id l')) = Some l'"
  proof
    fix l' assume "l' \<in> set os"
    moreover have "lot_id l \<notin> lot_id ` set os" using Cons.prems(2) by simp
    ultimately have "lot_id l' \<noteq> lot_id l" by (metis image_eqI)
    with Cons.prems(1) \<open>l' \<in> set os\<close> Cons.prems(3)
    show "map_option cl_lot (btree_get (btree_remove (lot_id l) P) (lot_id l')) = Some l'"
      by (simp add: btree_get_remove [OF lot_tree_okD] del: map_option_eq_Some)
  qed
  from Cons.IH [OF lot_tree_ok_remove [OF Cons.prems(1)] _ this] Cons.prems(2) step
  show ?case by simp
qed

lemma keep_missing_same:
  assumes "keep_missing complete c = Some c"
  shows "\<not> complete \<or> lot_state (cl_lot c) = Benefit_Ambiguous"
proof (rule ccontr)
  assume other: "\<not> (\<not> complete \<or> lot_state (cl_lot c) = Benefit_Ambiguous)"
  with assms have "\<lparr>cl_lot = (cl_lot c)\<lparr>lot_state := Benefit_Ambiguous\<rparr>, cl_revision = cl_revision c + 1\<rparr> = c"
    by (simp add: keep_missing_def split: if_splits)
  then have "lot_state (cl_lot \<lparr>cl_lot = (cl_lot c)\<lparr>lot_state := Benefit_Ambiguous\<rparr>,
      cl_revision = cl_revision c + 1\<rparr>) = lot_state (cl_lot c)" by (rule arg_cong)
  with other show False by simp
qed

lemma missing_loop_settled:
  assumes "\<forall>(k, c)\<in>set es. keep_missing complete c = Some c"
  shows "\<exists>N'. try_fold (missing_step complete) (N, W) es = Inr (N', W)"
  using assms
proof (induction es arbitrary: N)
  case Nil
  then show ?case by simp
next
  case (Cons e es)
  obtain k c where e: "e = (k, c)" by (cases e)
  from Cons.prems have "\<not> complete \<or> lot_state (cl_lot c) = Benefit_Ambiguous"
    using keep_missing_same [of complete c] by (simp add: e)
  then have "missing_step complete (N, W) (k, c) = Inr (btree_insert k c N, W)"
    by (cases complete) (simp_all add: is_terminal_def)
  with Cons show ?case by (simp add: e)
qed

lemma keep_missing_idem: "keep_missing complete c = Some c' \<Longrightarrow> keep_missing complete c' = Some c'"
  by (auto simp: keep_missing_def is_terminal_def split: if_splits)

lemma reconcile_lots_settled:
  assumes lots: "lot_tree_ok (map (\<lambda>c. (current_lot_id c, c)) lots)"
    and obs: "distinct (map lot_id (io_lots observation))"
    and m: "lots_map lots = reconciled_map observation m"
  shows "\<exists>N. reconcile_lots lots observation = Inr (N, []) \<and> length N = length lots"
proof -
  let ?os = "sort_key lot_id (io_lots observation)"
  let ?complete = "io_completeness observation \<noteq> Inventory_Partial"
  note keyed = keyed_lots_ok [OF lots]
  have os: "distinct (map lot_id ?os)" using obs by (metis mset_eq_imp_distinct_iff mset_map mset_sort)
  have "\<forall>l\<in>set ?os. map_option cl_lot (btree_get (keyed_lots lots) (lot_id l)) = Some l"
  proof
    fix l assume "l \<in> set ?os"
    then have "map_of (map (\<lambda>l. (lot_id l, l)) (io_lots observation)) (lot_id l) = Some l"
      using obs by (intro map_of_is_SomeI) (auto simp: comp_def)
    then show "map_option cl_lot (btree_get (keyed_lots lots) (lot_id l)) = Some l"
      unfolding keyed(3) m reconciled_map_def by (simp add: observe_def split: option.split)
  qed
  from observed_loop_settled [OF keyed(2) os this]
  obtain P1 N1 where l1: "try_fold observed_step (keyed_lots lots, [], []) ?os = Inr (P1, N1, [])" by blast
  have empty: "lot_tree_ok []" by (simp add: lot_tree_ok_def)
  note loop1 = observed_loop [OF l1 keyed(2) empty os]
  have P1: "btree_inv P1" "\<And>k. btree_get P1 k =
      (if k \<in> lot_id ` set (io_lots observation) then None else lots_map lots k)"
    using conjunct1 [OF loop1] conjunct1 [OF conjunct2 [OF conjunct2 [OF loop1]]]
    by (simp_all add: lot_tree_okD keyed(3))
  have "keep_missing ?complete c = Some c" if "(k, c) \<in> set P1" for k c
  proof -
    have "btree_get P1 k = Some c" using that bt.get_iff_entries [OF P1(1), of k c] by simp
    then have k: "k \<notin> lot_id ` set (io_lots observation)" "lots_map lots k = Some c"
      unfolding P1(2) by (simp_all split: if_splits)
    then have "map_of (map (\<lambda>l. (lot_id l, l)) (io_lots observation)) k = None"
      by (simp add: map_of_eq_None_iff image_image)
    with k(2) obtain c0 where "keep_missing ?complete c0 = Some c"
      unfolding m reconciled_map_def by (auto simp: bind_eq_Some_conv)
    then show ?thesis by (rule keep_missing_idem)
  qed
  then have "\<forall>(k, c)\<in>set P1. keep_missing ?complete c = Some c"
    by (intro ballI case_prodI2) simp
  from missing_loop_settled [OF this] obtain N where
    "try_fold (missing_step ?complete) (N1, []) P1 = Inr (N, [])" by blast
  with l1 have rec: "reconcile_lots lots observation = Inr (N, [])" by (simp add: reconcile_lots_def)
  note ok = reconcile_lots_ok [OF rec lots obs]
  from ok have "lot_tree_ok N" and "foldl apply_change (lots_map lots) [] = btree_get N" by blast+
  then have "N = keyed_lots lots"
    by (intro bt.entries_eqI) (simp_all add: lot_tree_okD keyed(2,3))
  with rec show ?thesis by (simp add: keyed(1))
qed

lemma from_parts_loop:
  assumes "distinct (map current_lot_id lots)" "\<forall>c\<in>set lots. btree_get acc (current_lot_id c) = None"
  shows "try_fold (\<lambda>keyed lot.
      if btree_get keyed (current_lot_id lot) \<noteq> None then Inl CapacityExceeded
      else Inr (btree_insert (current_lot_id lot) lot keyed)) acc lots =
    Inr (foldl (\<lambda>m (k, v). btree_insert k v m) acc (map (\<lambda>c. (current_lot_id c, c)) lots))"
  using assms
proof (induction lots arbitrary: acc)
  case Nil
  then show ?case by simp
next
  case (Cons c lots)
  have "current_lot_id c \<notin> current_lot_id ` set lots" using Cons.prems(1) by simp
  then have "\<forall>c'\<in>set lots. btree_get (btree_insert (current_lot_id c) c acc) (current_lot_id c') = None"
    using Cons.prems(2) by (simp add: btree_get_insert) (metis image_eqI)
  from Cons.IH [OF _ this] Cons.prems show ?case by simp
qed

lemma from_parts_roundtrip:
  assumes "inventory_ok h st"
  shows "benefit_inventory_state_from_parts h (is_scope st) (is_revision st)
    (is_last_change_sequence st) (is_last_observation_id st) (is_last_observed_at_ms st) (is_lots st) =
    Inr st"
proof -
  let ?kvs = "map (\<lambda>c. (current_lot_id c, c)) (is_lots st)"
  from assms have lots: "lot_tree_ok ?kvs" by (simp add: inventory_ok_def)
  have "distinct (map fst ?kvs)" by (rule bt.entries_distinct [OF lot_tree_okD [OF lots]])
  then have d: "distinct (map current_lot_id (is_lots st))" by (simp add: comp_def)
  have "foldl (\<lambda>m (k, v). btree_insert k v m) [] ?kvs = ?kvs"
    using keyed_lots_ok(1) [OF lots] by (simp only: keyed_lots_def btree_collect_def)
  moreover have "btree_values ?kvs = is_lots st" by (simp add: btree_values_def comp_def)
  moreover have "\<not> is_some_and (\<lambda>v. v \<le> 0) (is_last_observed_at_ms st)"
    "(is_last_observation_id st \<noteq> None) = (is_last_observed_at_ms st \<noteq> None)"
    "\<not> MAX_BENEFIT_LOTS_PER_OBSERVATION < length (is_lots st)"
    "is_scope_id st = benefit_scope_id h (is_scope st)"
    using assms by (auto simp: inventory_ok_def is_none_or_iff is_some_and_iff not_le)
  ultimately show ?thesis
    unfolding benefit_inventory_state_from_parts_def
    by (simp add: from_parts_loop [OF d] btree_get_def [of "[]"] del: not_None_eq)
qed

section \<open>Properties\<close>

text \<open>
  C5. Reconciling refines the map-level specification: whenever an observation is applied, the
  new inventory is, lot by lot, what the specification says.  An observed lot is taken over
  with its revision unchanged if it is identical, raised by one if it differs, and one if it is
  new; a lot that was not observed stays as it is when the observation is partial, and
  otherwise is dropped when terminal, kept when already ambiguous, and marked ambiguous with
  the next revision in every other case.
\<close>

theorem reconcile_refines_map:
  assumes "reconcile_inventory sha256 st obs = Inr r"
    and "rec_status r = Reconciled_Changed \<or> rec_status r = Reconciled_FreshnessOnly"
    and "inventory_ok sha256 st" and "benefit_inventory_observation_new obs = Inr obs"
  shows "lots_map (is_lots (rec_state r)) = reconciled_map obs (lots_map (is_lots st))"
  using assms(1)
proof (cases rule: reconcile_inventory_cases)
  case unchanged
  with assms(2) show ?thesis by auto
next
  case (applied N W seq rev)
  have "lot_tree_ok N \<and> btree_get N = reconciled_map obs (lots_map (is_lots st))"
    using reconcile_lots_ok [OF applied(3)] assms(3,4)
    by (simp add: inventory_ok_def inventory_observation_new_iff)
  then show ?thesis unfolding applied(8) by (simp add: lots_map_values)
qed

definition sample_scope :: benefit_scope where
  "sample_scope = \<lparr>bs_provider_id = ''codex'', bs_account_id = ''me'', bs_workspace_id = None\<rparr>"

definition sample_lot :: "u8 \<Rightarrow> benefit_state \<Rightarrow> i64 \<Rightarrow> benefit_lot_observation" where
  "sample_lot i state expires =
     \<lparr>lot_id = replicate 32 i, lot_kind = Kind_UsageCredit, lot_quantity = 1, lot_state = state,
      lot_target = Target_Provider, lot_granted_at_ms = None, lot_expiry = ExactUtc expires,
      lot_source = BSource_Manual, lot_confidence = BConfidence_High,
      lot_detail_kind = Detail_Manual, lot_label_key = ''credit''\<rparr>"

definition sample_observation ::
  "u8 \<Rightarrow> i64 \<Rightarrow> benefit_lot_observation list \<Rightarrow> benefit_inventory_observation" where
  "sample_observation i at_ms lots =
     \<lparr>io_scope = sample_scope, io_observation_id = replicate 32 i, io_observed_at_ms = at_ms,
      io_fresh_until_ms = at_ms, io_stale_after_ms = at_ms, io_completeness = Inventory_Complete,
      io_lots = lots\<rparr>"

definition sample_inventory :: benefit_inventory_state where
  "sample_inventory = benefit_inventory_state_empty id sample_scope"

lemma sample_inventory_ok: "inventory_ok id sample_inventory"
  by (simp add: inventory_ok_def sample_inventory_def benefit_inventory_state_empty_def
      lot_tree_ok_def)

lemma sample_observation_ok:
  "benefit_inventory_observation_new (sample_observation 7 100 [sample_lot 1 Benefit_Available 900]) =
     Inr (sample_observation 7 100 [sample_lot 1 Benefit_Available 900])"
  by (simp add: inventory_observation_new_iff sample_observation_def
      MAX_BENEFIT_LOTS_PER_OBSERVATION_def)

lemma sample_reconciliation:
  "\<exists>r. reconcile_inventory id sample_inventory
       (sample_observation 7 100 [sample_lot 1 Benefit_Available 900]) = Inr r \<and>
     rec_status r = Reconciled_Changed"
  by (simp add: reconcile_inventory_def sample_inventory_def benefit_inventory_state_empty_def
      sample_observation_def reconcile_lots_def keyed_lots_def btree_collect_def Let_def
      btree_get_def benefit_revision_new_def benefit_current_lot_new_def i64_max_u64_def
      MAX_BENEFIT_LOTS_PER_OBSERVATION_def benefit_sequence_next_def benefit_sequence_new_def
      benefit_revision_next_def checked_add_def)

theorem reconcile_refines_map_witness:
  "\<exists>r. reconcile_inventory id sample_inventory
       (sample_observation 7 100 [sample_lot 1 Benefit_Available 900]) = Inr r \<and>
     lots_map (is_lots (rec_state r)) (replicate 32 1) =
       Some \<lparr>cl_lot = sample_lot 1 Benefit_Available 900, cl_revision = 1\<rparr>"
proof -
  from sample_reconciliation obtain r where r: "reconcile_inventory id sample_inventory
      (sample_observation 7 100 [sample_lot 1 Benefit_Available 900]) = Inr r"
      "rec_status r = Reconciled_Changed" by blast
  from reconcile_refines_map [OF r(1) disjI1 [OF r(2)] sample_inventory_ok sample_observation_ok]
  have "lots_map (is_lots (rec_state r)) (replicate 32 1) =
      Some \<lparr>cl_lot = sample_lot 1 Benefit_Available 900, cl_revision = 1\<rparr>"
    by (simp add: reconciled_map_def sample_observation_def lots_map_def sample_inventory_def
        benefit_inventory_state_empty_def observe_def sample_lot_def)
  with r show ?thesis by blast
qed

text \<open>
  C21. The change log is complete and gapless: the changes of a reconciliation are numbered
  consecutively from the last number of the old state, the new state holds the last number, and
  replaying the log on the old inventory gives exactly the new one, so nothing changes without
  an entry and no entry records a change that did not happen.
\<close>

theorem reconcile_log_replays:
  assumes "reconcile_inventory sha256 st obs = Inr r"
    and "inventory_ok sha256 st" and "benefit_inventory_observation_new obs = Inr obs"
  shows "foldl apply_change (lots_map (is_lots st)) (map change_of (rec_changes r)) =
      lots_map (is_lots (rec_state r)) \<and>
    map (\<lambda>c. unat (ch_sequence c)) (rec_changes r) =
      [unat (is_last_change_sequence st) + 1 ..<
       unat (is_last_change_sequence st) + length (rec_changes r) + 1] \<and>
    unat (is_last_change_sequence (rec_state r)) =
      unat (is_last_change_sequence st) + length (rec_changes r)"
  using assms(1)
proof (cases rule: reconcile_inventory_cases)
  case unchanged
  then show ?thesis by simp
next
  case (applied N W seq rev)
  have "lot_tree_ok N \<and> foldl apply_change (lots_map (is_lots st)) W = btree_get N"
    using reconcile_lots_ok [OF applied(3)] assms(2,3)
    by (simp add: inventory_ok_def inventory_observation_new_iff)
  moreover note num = numbered_changes [OF applied(5)]
  have len: "length (rec_changes r) = length W" using arg_cong [OF num(2), of length] by simp
  moreover have "is_lots (rec_state r) = btree_values N" "is_last_change_sequence (rec_state r) = seq"
    by (simp_all add: applied(8))
  ultimately show ?thesis using num by (simp add: lots_map_values del: upt_Suc)
qed

theorem reconcile_log_replays_witness:
  "\<exists>r. reconcile_inventory id sample_inventory
       (sample_observation 7 100 [sample_lot 1 Benefit_Available 900]) = Inr r \<and>
     unat (is_last_change_sequence (rec_state r)) = length (rec_changes r)"
proof -
  from sample_reconciliation obtain r where r: "reconcile_inventory id sample_inventory
      (sample_observation 7 100 [sample_lot 1 Benefit_Available 900]) = Inr r" by blast
  from reconcile_log_replays [OF r sample_inventory_ok sample_observation_ok]
  have "unat (is_last_change_sequence (rec_state r)) = length (rec_changes r)"
    by (simp add: sample_inventory_def benefit_inventory_state_empty_def)
  with r show ?thesis by blast
qed

text \<open>
  Every reconciliation keeps the inventory well formed: lots in strictly ascending identity
  order, at most 64 of them, each with a positive revision, observation identity and time both
  present or both absent; and a well-formed state is exactly what reading its parts back gives.
\<close>

theorem reconcile_keeps_inventory:
  assumes "reconcile_inventory sha256 st obs = Inr r"
    and "inventory_ok sha256 st" and "benefit_inventory_observation_new obs = Inr obs"
  shows "inventory_ok sha256 (rec_state r) \<and>
    benefit_inventory_state_from_parts sha256 (is_scope (rec_state r)) (is_revision (rec_state r))
      (is_last_change_sequence (rec_state r)) (is_last_observation_id (rec_state r))
      (is_last_observed_at_ms (rec_state r)) (is_lots (rec_state r)) = Inr (rec_state r)"
  using reconciled_state_ok [OF assms] from_parts_roundtrip by blast

theorem reconcile_keeps_inventory_witness:
  "\<exists>r. reconcile_inventory id sample_inventory
       (sample_observation 7 100 [sample_lot 1 Benefit_Available 900]) = Inr r \<and>
     inventory_ok id (rec_state r)"
proof -
  from sample_reconciliation obtain r where r: "reconcile_inventory id sample_inventory
      (sample_observation 7 100 [sample_lot 1 Benefit_Available 900]) = Inr r" by blast
  from reconcile_keeps_inventory [OF r sample_inventory_ok sample_observation_ok] r
  show ?thesis by blast
qed

text \<open>
  Reconciling is idempotent: after an observation was applied, the same observation again is
  recognised as a duplicate and leaves the state and the log untouched, also when the first
  pass retired terminal lots or marked lots as ambiguous.
\<close>

theorem reconcile_idempotent:
  assumes "reconcile_inventory sha256 st obs = Inr r"
    and "rec_status r = Reconciled_Changed \<or> rec_status r = Reconciled_FreshnessOnly"
    and "inventory_ok sha256 st" and "benefit_inventory_observation_new obs = Inr obs"
  shows "reconcile_inventory sha256 (rec_state r) obs =
    Inr \<lparr>rec_status = Reconciled_Duplicate, rec_state = rec_state r, rec_changes = []\<rparr>"
  using assms(1)
proof (cases rule: reconcile_inventory_cases)
  case unchanged
  with assms(2) show ?thesis by auto
next
  case (applied N W seq rev)
  have ok: "lot_tree_ok N" "btree_get N = reconciled_map obs (lots_map (is_lots st))"
    and d: "distinct (map lot_id (io_lots obs))"
    using reconcile_lots_ok [OF applied(3)] assms(3,4)
    by (simp_all add: inventory_ok_def inventory_observation_new_iff)
  have lots: "is_lots (rec_state r) = btree_values N" by (simp add: applied(8))
  have "lot_tree_ok (map (\<lambda>c. (current_lot_id c, c)) (is_lots (rec_state r)))"
    unfolding lots using ok(1) by (simp add: lot_tree_values)
  from reconcile_lots_settled [OF this d] obtain N' where
    "reconcile_lots (is_lots (rec_state r)) obs = Inr (N', [])"
    "length N' = length (is_lots (rec_state r))"
    unfolding lots using lots_map_values [OF ok(1)] ok(2) by metis
  moreover have "length (is_lots (rec_state r)) \<le> MAX_BENEFIT_LOTS_PER_OBSERVATION"
    using applied(4) by (simp add: lots btree_values_def)
  moreover have "is_scope (rec_state r) = io_scope obs"
    "is_last_observation_id (rec_state r) = Some (io_observation_id obs)"
    "is_last_observed_at_ms (rec_state r) = Some (io_observed_at_ms obs)"
    using applied(1) by (simp_all add: applied(8))
  ultimately show ?thesis by (simp add: reconcile_inventory_def)
qed

theorem reconcile_idempotent_witness:
  "\<exists>r. reconcile_inventory id sample_inventory
       (sample_observation 7 100 [sample_lot 1 Benefit_Available 900]) = Inr r \<and>
     reconcile_inventory id (rec_state r)
       (sample_observation 7 100 [sample_lot 1 Benefit_Available 900]) =
       Inr \<lparr>rec_status = Reconciled_Duplicate, rec_state = rec_state r, rec_changes = []\<rparr>"
proof -
  from sample_reconciliation obtain r where r: "reconcile_inventory id sample_inventory
      (sample_observation 7 100 [sample_lot 1 Benefit_Available 900]) = Inr r"
      "rec_status r = Reconciled_Changed" by blast
  from reconcile_idempotent [OF r(1) disjI1 [OF r(2)] sample_inventory_ok sample_observation_ok] r
  show ?thesis by blast
qed

end
