(* ===== verification/Reminders.thy ===== *)
theory Reminders
  imports BenefitReconcile
begin

text \<open>
  Reminders for expiring benefits: \<open>crates/benefits/src/reminder.rs\<close>.  A schedule has one
  entry per available lot, lead time and channel; collapsing keeps, of the entries that are due
  and not yet expired, the one with the shortest lead time per lot and channel.
\<close>

section \<open>Scheduling\<close>

definition MAX_SCHEDULED_REMINDERS :: nat where
  "MAX_SCHEDULED_REMINDERS = MAX_BENEFIT_LOTS_PER_OBSERVATION * MAX_REMINDER_THRESHOLDS * 2"

definition MAX_DUE_REMINDER_PAGE_SIZE :: nat where "MAX_DUE_REMINDER_PAGE_SIZE = 256"

record reminder_due =
  rd_delivery_id :: digest
  rd_lot_id :: benefit_lot_id
  rd_lot_revision :: benefit_revision
  rd_lead_time :: reminder_lead_time
  rd_channel :: notification_channel
  rd_due_at_ms :: i64
  rd_expiry_at_ms :: i64

definition usize_checked_mul :: "nat \<Rightarrow> nat \<Rightarrow> nat option" where
  "usize_checked_mul a b = (if a * b < 2 ^ 64 then Some (a * b) else None)"

text \<open>\<open>expiry_at_ms.checked_sub(lead_millis).unwrap_or(i64::MIN)\<close>\<close>

definition due_time :: "i64 \<Rightarrow> i64 \<Rightarrow> i64" where
  "due_time expiry_at_ms lead_millis =
     (case i64_checked_sub expiry_at_ms lead_millis of Some t \<Rightarrow> t | None \<Rightarrow> i64_min)"

definition lead_reminders ::
  "(u8 list \<Rightarrow> digest) \<Rightarrow> benefit_scope \<Rightarrow> benefit_current_lot \<Rightarrow> i64 \<Rightarrow> notification_channel list
    \<Rightarrow> reminder_lead_time \<Rightarrow> benefit_core_error + reminder_due list" where
  "lead_reminders sha256 scope current expiry_at_ms channels lead_time =
     and_then (ok_or InvalidTime (i64_checked_mul (uint lead_time) 1000)) (\<lambda>lead_millis.
       Inr (map (\<lambda>channel.
         \<lparr>rd_delivery_id = reminder_delivery_id sha256 scope (current_lot_id current)
            (cl_revision current) lead_time channel,
          rd_lot_id = current_lot_id current, rd_lot_revision = cl_revision current,
          rd_lead_time = lead_time, rd_channel = channel,
          rd_due_at_ms = due_time expiry_at_ms lead_millis,
          rd_expiry_at_ms = expiry_at_ms\<rparr>) channels))"

definition lot_reminders ::
  "(u8 list \<Rightarrow> digest) \<Rightarrow> benefit_scope \<Rightarrow> reminder_profile \<Rightarrow> benefit_current_lot
    \<Rightarrow> benefit_core_error + reminder_due list" where
  "lot_reminders sha256 scope profile current =
     (if lot_state (cl_lot current) \<noteq> Benefit_Available then Inr []
      else case conservative_utc_ms (lot_expiry (cl_lot current)) of
             None \<Rightarrow> Inr []
           | Some expiry_at_ms \<Rightarrow>
               and_then (try_map (lead_reminders sha256 scope current expiry_at_ms (rp_channels profile))
                   (rp_lead_times profile))
                 (\<lambda>rs. Inr (concat rs)))"

definition schedule_key :: "reminder_due \<Rightarrow> i64 \<times> i64 \<times> benefit_lot_id \<times> u8" where
  "schedule_key r =
     (rd_due_at_ms r, rd_expiry_at_ms r, rd_lot_id r, notification_channel_code (rd_channel r))"

definition schedule_reminders ::
  "(u8 list \<Rightarrow> digest) \<Rightarrow> benefit_scope \<Rightarrow> benefit_current_lot list \<Rightarrow> reminder_profile
    \<Rightarrow> benefit_core_error + reminder_due list" where
  "schedule_reminders sha256 scope lots profile =
     and_then (ok_or CapacityExceeded
         (Option.bind (usize_checked_mul (length lots) (length (rp_lead_times profile)))
            (\<lambda>v. usize_checked_mul v (length (rp_channels profile))))) (\<lambda>capacity.
       if MAX_SCHEDULED_REMINDERS < capacity then Inl CapacityExceeded
       else and_then (try_map (lot_reminders sha256 scope profile) lots) (\<lambda>scheduled.
         Inr (sort_key schedule_key (concat scheduled))))"

section \<open>Collapsing\<close>

definition due_key :: "reminder_due \<Rightarrow> benefit_lot_id \<times> u8" where
  "due_key r = (rd_lot_id r, notification_channel_code (rd_channel r))"

definition is_due :: "i64 \<Rightarrow> reminder_due \<Rightarrow> bool" where
  "is_due now_ms r \<longleftrightarrow> \<not> (now_ms < rd_due_at_ms r \<or> rd_expiry_at_ms r \<le> now_ms)"

definition collapse_step ::
  "i64 \<Rightarrow> (benefit_lot_id \<times> u8, reminder_due) btree_map \<Rightarrow> reminder_due
    \<Rightarrow> (benefit_lot_id \<times> u8, reminder_due) btree_map" where
  "collapse_step now_ms selected entry =
     (if \<not> is_due now_ms entry then selected
      else case btree_get selected (due_key entry) of
             Some current \<Rightarrow>
               if rd_lead_time current \<le> rd_lead_time entry then selected
               else btree_insert (due_key entry) entry selected
           | None \<Rightarrow> btree_insert (due_key entry) entry selected)"

definition page_key :: "reminder_due \<Rightarrow> i64 \<times> benefit_lot_id \<times> u8" where
  "page_key r = (rd_expiry_at_ms r, rd_lot_id r, notification_channel_code (rd_channel r))"

definition collapse_due_reminders ::
  "reminder_due list \<Rightarrow> i64 \<Rightarrow> nat \<Rightarrow> benefit_core_error + reminder_due list" where
  "collapse_due_reminders scheduled now_ms max_rows =
     (if now_ms \<le> 0 \<or> max_rows = 0 \<or> MAX_DUE_REMINDER_PAGE_SIZE < max_rows
      then Inl (if now_ms \<le> 0 then InvalidTime else CapacityExceeded)
      else
        let selected = foldl (collapse_step now_ms) [] scheduled;
            due = sort_key page_key (btree_values selected)
        in Inr (take max_rows due))"

section \<open>Lemmas on scheduling\<close>

lemma try_map_Inr: "(\<And>x. x \<in> set xs \<Longrightarrow> f x = Inr (g x)) \<Longrightarrow> try_map f xs = Inr (map g xs)"
  by (induction xs) simp_all

lemma channel_code_inj: "notification_channel_code a = notification_channel_code b \<longleftrightarrow> a = b"
  by (cases a; cases b) (simp_all add: notification_channel_code_def)

definition reminder_for ::
  "(u8 list \<Rightarrow> digest) \<Rightarrow> benefit_scope \<Rightarrow> benefit_current_lot \<Rightarrow> i64 \<Rightarrow> reminder_lead_time
    \<Rightarrow> notification_channel \<Rightarrow> reminder_due" where
  "reminder_for sha256 scope c expiry lead channel =
     \<lparr>rd_delivery_id = reminder_delivery_id sha256 scope (current_lot_id c) (cl_revision c) lead channel,
      rd_lot_id = current_lot_id c, rd_lot_revision = cl_revision c, rd_lead_time = lead,
      rd_channel = channel, rd_due_at_ms = expiry - uint lead * 1000,
      rd_expiry_at_ms = expiry\<rparr>"

lemma uint_u32_less: "0 \<le> uint (w :: u32) \<and> uint w < 4294967296"
  using uint_bounded [of w] by simp

lemma due_time_exact:
  assumes "0 < e" "e \<le> i64_max"
  shows "due_time e (uint (l :: u32) * 1000) = e - uint l * 1000"
proof -
  have "0 \<le> uint l \<and> uint l < 4294967296" by (rule uint_u32_less)
  then have "in_i64 (e - uint l * 1000)"
    using assms unfolding in_i64_def i64_min_def i64_max_def by linarith
  then show ?thesis by (simp add: due_time_def i64_checked_sub_def)
qed

lemma lead_reminders_eq:
  assumes "0 < e" "e \<le> i64_max"
  shows "lead_reminders h scope c e channels lead = Inr (map (reminder_for h scope c e lead) channels)"
proof -
  have "0 \<le> uint lead \<and> uint lead < 4294967296" by (rule uint_u32_less)
  then have "in_i64 (uint lead * 1000)"
    unfolding in_i64_def i64_min_def i64_max_def by linarith
  then have "i64_checked_mul (uint lead) 1000 = Some (uint lead * 1000)"
    by (simp add: i64_checked_mul_def)
  then show ?thesis
    using due_time_exact [OF assms, of lead] by (simp add: lead_reminders_def reminder_for_def)
qed

definition lot_schedule ::
  "(u8 list \<Rightarrow> digest) \<Rightarrow> benefit_scope \<Rightarrow> reminder_profile \<Rightarrow> benefit_current_lot \<Rightarrow> reminder_due list" where
  "lot_schedule sha256 scope profile c =
     (if lot_state (cl_lot c) \<noteq> Benefit_Available then []
      else case conservative_utc_ms (lot_expiry (cl_lot c)) of
             None \<Rightarrow> []
           | Some e \<Rightarrow> concat (map (\<lambda>lead. map (reminder_for sha256 scope c e lead) (rp_channels profile))
                              (rp_lead_times profile)))"

lemma conservative_positive:
  "expiry_ok x \<Longrightarrow> conservative_utc_ms x = Some e \<Longrightarrow> 0 < e \<and> e \<le> i64_max"
  by (auto simp: expiry_ok_def conservative_utc_ms_def split: benefit_expiry.splits)

lemma lot_reminders_eq:
  assumes "expiry_ok (lot_expiry (cl_lot c))"
  shows "lot_reminders h scope profile c = Inr (lot_schedule h scope profile c)"
proof (cases "conservative_utc_ms (lot_expiry (cl_lot c))")
  case None
  then show ?thesis by (simp add: lot_reminders_def lot_schedule_def)
next
  case (Some e)
  from conservative_positive [OF assms Some] have e: "0 < e" "e \<le> i64_max" by simp_all
  have "try_map (lead_reminders h scope c e (rp_channels profile)) (rp_lead_times profile) =
      Inr (map (\<lambda>lead. map (reminder_for h scope c e lead) (rp_channels profile)) (rp_lead_times profile))"
    by (rule try_map_Inr) (rule lead_reminders_eq [OF e])
  then show ?thesis using Some by (simp add: lot_reminders_def lot_schedule_def)
qed

lemma lot_schedule_set:
  "r \<in> set (lot_schedule h scope profile c) \<longleftrightarrow>
     lot_state (cl_lot c) = Benefit_Available \<and>
     (\<exists>e lead channel. conservative_utc_ms (lot_expiry (cl_lot c)) = Some e \<and>
        lead \<in> set (rp_lead_times profile) \<and> channel \<in> set (rp_channels profile) \<and>
        r = reminder_for h scope c e lead channel)"
  by (cases "conservative_utc_ms (lot_expiry (cl_lot c))") (auto simp: lot_schedule_def)

text \<open>The sort key tells the entries of a schedule apart.\<close>

lemma schedule_key_lot:
  "r \<in> set (lot_schedule h scope profile c) \<Longrightarrow> rd_lot_id r = current_lot_id c"
  by (auto simp: lot_schedule_set reminder_for_def)

lemma reminder_key_inj:
  "schedule_key (reminder_for h scope c e lead channel) =
     schedule_key (reminder_for h scope c e lead' channel') \<longleftrightarrow> lead = lead' \<and> channel = channel'"
  by (auto simp: schedule_key_def reminder_for_def channel_code_inj dest: word_uint_eq_iff [THEN iffD2])

lemma distinct_concat_map:
  assumes "distinct xs" "\<And>x. x \<in> set xs \<Longrightarrow> distinct (f x)"
    and "\<And>x y. x \<in> set xs \<Longrightarrow> y \<in> set xs \<Longrightarrow> x \<noteq> y \<Longrightarrow> set (f x) \<inter> set (f y) = {}"
  shows "distinct (concat (map f xs))"
  using assms
proof (induction xs)
  case Nil
  then show ?case by simp
next
  case (Cons x xs)
  have "set (f x) \<inter> set (concat (map f xs)) = {}"
    using Cons.prems(1,3) by (fastforce simp: disjoint_iff)
  with Cons show ?case by simp
qed

lemma lot_schedule_keys:
  assumes "distinct (rp_lead_times profile)" "distinct (rp_channels profile)"
  shows "distinct (map schedule_key (lot_schedule h scope profile c))"
proof -
  have "distinct (concat (map (\<lambda>lead. map (\<lambda>ch. schedule_key (reminder_for h scope c e lead ch))
      (rp_channels profile)) (rp_lead_times profile)))" for e
    by (rule distinct_concat_map)
      (use assms in \<open>auto simp: distinct_map inj_on_def reminder_key_inj\<close>)
  then show ?thesis
    by (simp add: lot_schedule_def map_concat comp_def split: option.split)
qed

lemma schedule_keys:
  assumes "distinct (map current_lot_id lots)"
    and "distinct (rp_lead_times profile)" "distinct (rp_channels profile)"
  shows "distinct (map schedule_key (concat (map (lot_schedule h scope profile) lots)))"
proof -
  have lots: "distinct lots" using assms(1) by (simp add: distinct_map)
  have "distinct (concat (map (\<lambda>c. map schedule_key (lot_schedule h scope profile c)) lots))"
  proof (rule distinct_concat_map [OF lots lot_schedule_keys [OF assms(2,3)]])
    fix c d assume cd: "c \<in> set lots" "d \<in> set lots" "c \<noteq> d"
    then have ids: "current_lot_id c \<noteq> current_lot_id d"
      using assms(1) by (metis distinct_map inj_on_eq_iff)
    have "fst (snd (snd k)) = current_lot_id x" if "k \<in> schedule_key ` set (lot_schedule h scope profile x)"
      for k x
      using that schedule_key_lot by (auto simp: schedule_key_def)
    with ids show "set (map schedule_key (lot_schedule h scope profile c)) \<inter>
        set (map schedule_key (lot_schedule h scope profile d)) = {}"
      by (metis disjoint_iff list.set_map)
  qed
  then show ?thesis by (simp add: map_concat comp_def)
qed

lemma lot_schedule_length:
  "length (lot_schedule h scope profile c) \<le> length (rp_lead_times profile) * length (rp_channels profile)"
  by (simp add: lot_schedule_def length_concat comp_def sum_list_triv split: option.split)

lemma schedule_reminders_eq:
  assumes "\<forall>c\<in>set lots. expiry_ok (lot_expiry (cl_lot c))"
    and "length lots \<le> MAX_BENEFIT_LOTS_PER_OBSERVATION"
    and "length (rp_lead_times profile) \<le> MAX_REMINDER_THRESHOLDS" "length (rp_channels profile) \<le> 2"
  shows "schedule_reminders h scope lots profile =
    Inr (sort_key schedule_key (concat (map (lot_schedule h scope profile) lots)))"
proof -
  let ?l = "length lots" and ?t = "length (rp_lead_times profile)" and ?c = "length (rp_channels profile)"
  have lt: "?l * ?t \<le> 64 * 8"
    using assms(2,3) by (intro mult_le_mono)
      (simp_all add: MAX_BENEFIT_LOTS_PER_OBSERVATION_def MAX_REMINDER_THRESHOLDS_def)
  have ltc: "?l * ?t * ?c \<le> 64 * 8 * 2" by (rule mult_le_mono [OF lt assms(4)])
  have "try_map (lot_reminders h scope profile) lots = Inr (map (lot_schedule h scope profile) lots)"
    using assms(1) by (intro try_map_Inr lot_reminders_eq) blast
  then show ?thesis
    using lt ltc
    by (simp add: schedule_reminders_def usize_checked_mul_def MAX_SCHEDULED_REMINDERS_def
        MAX_BENEFIT_LOTS_PER_OBSERVATION_def MAX_REMINDER_THRESHOLDS_def)
qed

section \<open>Lemmas on collapsing\<close>

text \<open>What the selection knows about the entries seen so far.\<close>

definition selection_ok ::
  "i64 \<Rightarrow> reminder_due list \<Rightarrow> (benefit_lot_id \<times> u8, reminder_due) btree_map \<Rightarrow> bool" where
  "selection_ok now xs sel \<longleftrightarrow>
     btree_inv sel \<and>
     (\<forall>k e. btree_get sel k = Some e \<longrightarrow>
        e \<in> set xs \<and> is_due now e \<and> due_key e = k \<and>
        (\<forall>x\<in>set xs. is_due now x \<and> due_key x = k \<longrightarrow> rd_lead_time e \<le> rd_lead_time x)) \<and>
     (\<forall>x\<in>set xs. is_due now x \<longrightarrow> btree_get sel (due_key x) \<noteq> None)"

lemma selection_get:
  "selection_ok now xs sel \<Longrightarrow> btree_get sel k = Some e \<Longrightarrow>
     e \<in> set xs \<and> is_due now e \<and> due_key e = k \<and>
     (\<forall>x\<in>set xs. is_due now x \<and> due_key x = k \<longrightarrow> rd_lead_time e \<le> rd_lead_time x)"
  unfolding selection_ok_def by blast

lemma selection_covers:
  "selection_ok now xs sel \<Longrightarrow> x \<in> set xs \<Longrightarrow> is_due now x \<Longrightarrow> \<exists>e. btree_get sel (due_key x) = Some e"
  by (simp add: selection_ok_def)

lemma selection_skip:
  "selection_ok now xs sel \<Longrightarrow> \<not> is_due now x \<Longrightarrow> selection_ok now (xs @ [x]) sel"
  by (auto simp: selection_ok_def)

lemma selection_keep:
  assumes "selection_ok now xs sel" "is_due now x" "btree_get sel (due_key x) = Some e"
    "rd_lead_time e \<le> rd_lead_time x"
  shows "selection_ok now (xs @ [x]) sel"
  using assms by (auto simp: selection_ok_def)

lemma selection_insert:
  assumes "selection_ok now xs sel" "is_due now x"
    "\<forall>e. btree_get sel (due_key x) = Some e \<longrightarrow> rd_lead_time x \<le> rd_lead_time e"
  shows "selection_ok now (xs @ [x]) (btree_insert (due_key x) x sel)"
proof -
  have inv: "btree_inv (btree_insert (due_key x) x sel)"
    using assms(1) by (simp add: selection_ok_def btree_inv_insert)
  have least: "rd_lead_time x \<le> rd_lead_time y"
    if "y \<in> set xs" "is_due now y" "due_key y = due_key x" for y
  proof -
    from assms(1) that obtain e where e: "btree_get sel (due_key x) = Some e"
      unfolding selection_ok_def by (metis not_None_eq)
    with assms(1) that have "rd_lead_time e \<le> rd_lead_time y"
      unfolding selection_ok_def by blast
    moreover have "rd_lead_time x \<le> rd_lead_time e" using assms(3) e by blast
    ultimately show ?thesis by simp
  qed
  show ?thesis
    using assms(1,2) least unfolding selection_ok_def
    by (auto simp: inv btree_get_insert split: if_splits)
qed

lemma collapse_step_ok:
  "selection_ok now xs sel \<Longrightarrow> selection_ok now (xs @ [x]) (collapse_step now sel x)"
  by (cases "is_due now x"; cases "btree_get sel (due_key x)")
    (auto simp: collapse_step_def selection_skip intro: selection_keep selection_insert)

lemma collapse_fold_ok:
  "selection_ok now ys sel \<Longrightarrow> selection_ok now (ys @ xs) (foldl (collapse_step now) sel xs)"
proof (induction xs arbitrary: ys sel)
  case Nil
  then show ?case by simp
next
  case (Cons x xs)
  from Cons.IH [OF collapse_step_ok [OF Cons.prems]] show ?case by simp
qed

lemma selected_ok: "selection_ok now xs (foldl (collapse_step now) [] xs)"
  using collapse_fold_ok [of now "[]" "[]" xs] by (simp add: selection_ok_def btree_get_def)

lemma selected_values:
  assumes "selection_ok now xs sel"
  shows "map due_key (btree_values sel) = map fst sel" "distinct (map due_key (btree_values sel))"
    "e \<in> set (btree_values sel) \<longleftrightarrow> btree_get sel (due_key e) = Some e"
proof -
  have inv: "btree_inv sel" using assms by (simp add: selection_ok_def)
  have key: "due_key v = k" if "(k, v) \<in> set sel" for k v
    using assms that bt.get_iff_entries [OF inv, of k v] unfolding selection_ok_def by blast
  then show keys: "map due_key (btree_values sel) = map fst sel"
    by (auto simp: btree_values_def)
  show "distinct (map due_key (btree_values sel))"
    unfolding keys by (rule bt.entries_distinct [OF inv])
  show "e \<in> set (btree_values sel) \<longleftrightarrow> btree_get sel (due_key e) = Some e"
    unfolding bt.get_iff_entries [OF inv] btree_values_def using key by force
qed

lemma page_key_due: "page_key r = (rd_expiry_at_ms r, due_key r)"
  by (simp add: page_key_def due_key_def)

lemma distinct_page_keys: "distinct (map due_key xs) \<Longrightarrow> distinct (map page_key xs)"
  by (auto simp: distinct_map inj_on_def page_key_due)

section \<open>Properties\<close>

text \<open>
  C18. For an inventory within its limits and a canonical profile, scheduling always succeeds and
  the schedule is exact: its entries are precisely one per available lot with a known expiry,
  lead time and channel, due the lead time before the conservative expiry and computed without
  overflow; and it is strictly ordered by due time, expiry, lot and channel, so the order does
  not depend on how ties are broken.
\<close>

theorem schedule_exact:
  assumes "\<forall>c\<in>set lots. expiry_ok (lot_expiry (cl_lot c))"
    and "distinct (map current_lot_id lots)" and "length lots \<le> MAX_BENEFIT_LOTS_PER_OBSERVATION"
    and "reminder_profile_new parts = Inr profile"
  shows "\<exists>rs. schedule_reminders sha256 scope lots profile = Inr rs \<and>
    sorted_wrt (\<lambda>a b. schedule_key a < schedule_key b) rs \<and>
    (\<forall>r. r \<in> set rs \<longleftrightarrow>
       (\<exists>c e lead channel. c \<in> set lots \<and> lot_state (cl_lot c) = Benefit_Available \<and>
          conservative_utc_ms (lot_expiry (cl_lot c)) = Some e \<and>
          lead \<in> set (rp_lead_times parts) \<and> channel \<in> set (rp_channels parts) \<and>
          r = \<lparr>rd_delivery_id = reminder_delivery_id sha256 scope (current_lot_id c) (cl_revision c) lead channel,
               rd_lot_id = current_lot_id c, rd_lot_revision = cl_revision c, rd_lead_time = lead,
               rd_channel = channel, rd_due_at_ms = e - uint lead * 1000, rd_expiry_at_ms = e\<rparr>))"
proof -
  note profile = reminder_profile_new_ok [OF assms(4)]
  then have d: "distinct (rp_lead_times profile)" "distinct (rp_channels profile)"
    using sorted_wrt_less_iff [of "rev (rp_lead_times profile)"]
    by (simp_all add: sorted_wrt_rev sorted_wrt_less_iff)
  let ?xs = "concat (map (lot_schedule sha256 scope profile) lots)"
  have "schedule_reminders sha256 scope lots profile = Inr (sort_key schedule_key ?xs)"
    using profile channels_at_most_two [OF d(2)] by (intro schedule_reminders_eq assms) simp_all
  moreover have "sorted_wrt (\<lambda>a b. schedule_key a < schedule_key b) (sort_key schedule_key ?xs)"
    by (rule sort_key_strict [OF schedule_keys [OF assms(2) d], unfolded sorted_wrt_map])
  moreover have "r \<in> set (sort_key schedule_key ?xs) \<longleftrightarrow>
       (\<exists>c e lead channel. c \<in> set lots \<and> lot_state (cl_lot c) = Benefit_Available \<and>
          conservative_utc_ms (lot_expiry (cl_lot c)) = Some e \<and>
          lead \<in> set (rp_lead_times parts) \<and> channel \<in> set (rp_channels parts) \<and>
          r = reminder_for sha256 scope c e lead channel)" for r
    using profile by (auto simp: lot_schedule_set)
  ultimately show ?thesis by (simp add: reminder_for_def)
qed

theorem schedule_exact_witness:
  "\<exists>rs. schedule_reminders id sample_scope
      [\<lparr>cl_lot = sample_lot 1 Benefit_Available 9000000, cl_revision = 1\<rparr>]
      \<lparr>rp_revision = 1, rp_lead_times = [3600], rp_channels = [InApp]\<rparr> = Inr rs \<and>
    (\<exists>r\<in>set rs. rd_due_at_ms r = 5400000)"
proof -
  let ?c = "\<lparr>cl_lot = sample_lot 1 Benefit_Available 9000000, cl_revision = 1\<rparr>"
  let ?p = "\<lparr>rp_revision = 1, rp_lead_times = [3600], rp_channels = [InApp]\<rparr> :: reminder_profile"
  have p: "reminder_profile_new ?p = Inr ?p"
    by (simp add: reminder_profile_new_def MAX_REMINDER_THRESHOLDS_def)
  have "\<forall>c\<in>set [?c]. expiry_ok (lot_expiry (cl_lot c))" "distinct (map current_lot_id [?c])"
    "length [?c] \<le> MAX_BENEFIT_LOTS_PER_OBSERVATION"
    by (simp_all add: expiry_ok_def sample_lot_def i64_max_def MAX_BENEFIT_LOTS_PER_OBSERVATION_def)
  from schedule_exact [OF this p, of id sample_scope] obtain rs where
    rs: "schedule_reminders id sample_scope [?c] ?p = Inr rs" and
    all: "\<And>r. r \<in> set rs \<longleftrightarrow>
       (\<exists>c e lead channel. c \<in> set [?c] \<and> lot_state (cl_lot c) = Benefit_Available \<and>
          conservative_utc_ms (lot_expiry (cl_lot c)) = Some e \<and>
          lead \<in> set (rp_lead_times ?p) \<and> channel \<in> set (rp_channels ?p) \<and>
          r = \<lparr>rd_delivery_id = reminder_delivery_id id sample_scope (current_lot_id c) (cl_revision c) lead channel,
               rd_lot_id = current_lot_id c, rd_lot_revision = cl_revision c, rd_lead_time = lead,
               rd_channel = channel, rd_due_at_ms = e - uint lead * 1000, rd_expiry_at_ms = e\<rparr>)"
    by blast
  have "\<exists>r\<in>set rs. rd_due_at_ms r = 5400000"
    unfolding Bex_def all by (simp add: sample_lot_def conservative_utc_ms_def)
  with rs show ?thesis by blast
qed

text \<open>
  C35. Collapsing a schedule shows each lot at most once per channel: every shown entry comes from
  the schedule, is due and not expired, and has the shortest lead time of all due entries of
  its lot and channel; entries are strictly ordered by expiry, lot and channel, never more than
  the page size; and as long as the page is not full, every lot and channel with a due entry is
  on it.
\<close>

theorem collapse_exact:
  assumes "collapse_due_reminders scheduled now_ms max_rows = Inr due"
  shows "length due \<le> max_rows \<and> distinct (map due_key due) \<and>
    sorted_wrt (\<lambda>a b. page_key a < page_key b) due \<and>
    (\<forall>e\<in>set due. e \<in> set scheduled \<and> rd_due_at_ms e \<le> now_ms \<and> now_ms < rd_expiry_at_ms e \<and>
       (\<forall>x\<in>set scheduled. is_due now_ms x \<and> due_key x = due_key e \<longrightarrow>
          rd_lead_time e \<le> rd_lead_time x)) \<and>
    (length due < max_rows \<longrightarrow>
       (\<forall>x\<in>set scheduled. is_due now_ms x \<longrightarrow> due_key x \<in> due_key ` set due))"
proof -
  let ?sel = "foldl (collapse_step now_ms) [] scheduled"
  let ?all = "sort_key page_key (btree_values ?sel)"
  have due: "due = take max_rows ?all"
    using assms by (simp add: collapse_due_reminders_def Let_def split: if_splits)
  note sel = selected_ok [of now_ms scheduled]
  note vals = selected_values [OF sel]
  have strict: "sorted_wrt (\<lambda>a b. page_key a < page_key b) ?all"
    by (rule sort_key_strict [OF distinct_page_keys [OF vals(2)], unfolded sorted_wrt_map])
  have "distinct (map due_key ?all)"
    using vals(2) by (metis mset_eq_imp_distinct_iff mset_map mset_sort)
  then have keys: "distinct (map due_key due)" unfolding due by (simp add: take_map [symmetric])
  have entry: "e \<in> set scheduled \<and> is_due now_ms e \<and>
      (\<forall>x\<in>set scheduled. is_due now_ms x \<and> due_key x = due_key e \<longrightarrow> rd_lead_time e \<le> rd_lead_time x)"
    if "e \<in> set due" for e
  proof -
    from that have "e \<in> set (btree_values ?sel)" unfolding due by (metis in_set_takeD set_sort)
    then have "btree_get ?sel (due_key e) = Some e" by (simp only: vals(3))
    from selection_get [OF sel this] show ?thesis by simp
  qed
  have complete: "due_key x \<in> due_key ` set due"
    if "length due < max_rows" "x \<in> set scheduled" "is_due now_ms x" for x
  proof -
    from that(1) have "due = ?all" unfolding due by simp
    then have set: "set due = set (btree_values ?sel)" by simp
    from selection_covers [OF sel that(2,3)] obtain e where "btree_get ?sel (due_key x) = Some e" by blast
    with selection_get [OF sel this] have "e \<in> set due" "due_key e = due_key x"
      unfolding set vals(3) by simp_all
    then show ?thesis by (metis image_eqI)
  qed
  have order: "sorted_wrt (\<lambda>a b. page_key a < page_key b) due"
    unfolding due by (rule sorted_wrt_take [OF strict])
  have window: "rd_due_at_ms e \<le> now_ms \<and> now_ms < rd_expiry_at_ms e" if "e \<in> set due" for e
    using entry [OF that] by (simp add: is_due_def)
  have "length due \<le> max_rows" by (simp add: due)
  then show ?thesis
    by (intro conjI ballI impI keys order) (use entry window complete in simp_all)
qed

definition sample_reminder :: "u8 \<Rightarrow> u32 \<Rightarrow> i64 \<Rightarrow> reminder_due" where
  "sample_reminder i lead due_at_ms =
     \<lparr>rd_delivery_id = [], rd_lot_id = [i], rd_lot_revision = 1, rd_lead_time = lead,
      rd_channel = InApp, rd_due_at_ms = due_at_ms, rd_expiry_at_ms = 1000\<rparr>"

theorem collapse_exact_witness:
  "collapse_due_reminders [sample_reminder 1 600 10, sample_reminder 1 60 20, sample_reminder 2 60 900] 50 5 =
     Inr [sample_reminder 1 60 20] \<and>
   distinct (map due_key [sample_reminder 1 60 20])"
proof
  show c: "collapse_due_reminders
      [sample_reminder 1 600 10, sample_reminder 1 60 20, sample_reminder 2 60 900] 50 5 =
     Inr [sample_reminder 1 60 20]"
    by (simp add: collapse_due_reminders_def MAX_DUE_REMINDER_PAGE_SIZE_def collapse_step_def is_due_def
        sample_reminder_def btree_get_def due_key_def btree_values_def)
  from collapse_exact [OF c] show "distinct (map due_key [sample_reminder 1 60 20])" by blast
qed

end
