(* ===== verification/Pricing.thy ===== *)
theory Pricing
  imports Prelude
begin

text \<open>
  The price arithmetic and the embedded catalogue, from \<open>crates/pricing/src/lib.rs\<close>.

  Rates are micro-dollars per million tokens and amounts are micro-dollars, both \<open>u64\<close>;
  the products are formed in \<open>u128\<close>.  The main results: the amount is the exact
  rational cost rounded half up, whatever the intermediate sums, and the rate parser accepts
  exactly the decimal texts with at most six fractional digits and computes their value.
\<close>

section \<open>Values\<close>

definition CATALOG_ID :: string where
  "CATALOG_ID = ''openai-api-2026-07-16-v1''"

definition MAX_RATE_MICROS_PER_MILLION :: u64 where
  "MAX_RATE_MICROS_PER_MILLION = 1000000000000"

definition TOKENS_PER_MILLION :: u128 where
  "TOKENS_PER_MILLION = 1000000"

definition HALF_TOKEN_MILLION :: u128 where
  "HALF_TOKEN_MILLION = TOKENS_PER_MILLION div 2"

datatype service_tier = StandardReported | StandardAssumed | Priority | UnknownTier

datatype context_class = Context_Short | Context_Long | Context_Unavailable

datatype price_error =
    ModelUnpriced
  | TierUnknown
  | ContextUnavailable
  | TierContextUnsupported
  | TokenBasisUnavailable
  | InconsistentTokenBasis
  | InvalidRate
  | ArithmeticOverflow
  | InvalidPriceRow
  | TooManyPriceRows

type_synonym usd_micros = u64
type_synonym usd_per_million = u64

section \<open>Parsing a rate\<close>

definition split_once :: "char \<Rightarrow> string \<Rightarrow> (string \<times> string) option" where
  "split_once c s =
     (if c \<in> set s then Some (takeWhile (\<lambda>x. x \<noteq> c) s, tl (dropWhile (\<lambda>x. x \<noteq> c) s)) else None)"

definition is_ascii_digit :: "char \<Rightarrow> bool" where
  "is_ascii_digit c \<longleftrightarrow> 48 \<le> (of_char c :: nat) \<and> (of_char c :: nat) \<le> 57"

definition digit_value :: "char \<Rightarrow> nat" where
  "digit_value c = of_char c - 48"

definition parse_ascii_u64 :: "string \<Rightarrow> price_error + u64" where
  "parse_ascii_u64 value' =
     try_fold (\<lambda>result byte.
         ok_or InvalidRate
           (Option.bind (checked_mul result 10)
             (\<lambda>current. checked_add current (of_nat (digit_value byte)))))
       0 value'"

definition usd_per_million_parse :: "string \<Rightarrow> price_error + usd_per_million" where
  "usd_per_million_parse value' =
     (let (whole, fractional) =
        (case split_once (CHR ''.'') value' of
           None \<Rightarrow> (value', None)
         | Some (before, after) \<Rightarrow> (before, Some after))
      in if whole = [] \<or> \<not> list_all is_ascii_digit whole
            \<or> 1 < length (filter (\<lambda>c. c = CHR ''.'') value')
            \<or> is_some_and (\<lambda>digits. digits = [] \<or> 6 < length digits
                 \<or> \<not> list_all is_ascii_digit digits) fractional
         then Inl InvalidRate
         else
           and_then (parse_ascii_u64 whole) (\<lambda>whole'.
           and_then (ok_or InvalidRate (checked_mul whole' 1000000)) (\<lambda>whole_micros.
           and_then
             (case fractional of
                Some digits \<Rightarrow>
                  and_then (parse_ascii_u64 digits) (\<lambda>parsed.
                    ok_or InvalidRate
                      (checked_mul parsed
                        (10 ^ unat (saturating_sub 6 (of_nat (length digits)) :: u32))))
              | None \<Rightarrow> Inr 0) (\<lambda>fractional_micros.
           ok_or InvalidRate
             (filter_option (\<lambda>v. v \<le> MAX_RATE_MICROS_PER_MILLION)
               (checked_add whole_micros fractional_micros))))))"

section \<open>The token basis\<close>

record token_price_basis =
  tb_uncached_input_tokens :: u64
  tb_cached_input_tokens :: u64
  tb_billable_output_tokens :: u64

definition token_price_basis_new :: "u64 \<Rightarrow> u64 \<Rightarrow> u64 \<Rightarrow> token_price_basis" where
  "token_price_basis_new uncached cached billable =
     \<lparr> tb_uncached_input_tokens = uncached, tb_cached_input_tokens = cached,
       tb_billable_output_tokens = billable \<rparr>"

record observed_tokens =
  ot_input :: "u64 option"
  ot_cached_input :: "u64 option"
  ot_output :: "u64 option"
  ot_reasoning :: "u64 option"
  ot_total :: "u64 option"

definition derive_price_basis :: "observed_tokens \<Rightarrow> price_error + token_price_basis" where
  "derive_price_basis self =
     and_then (ok_or TokenBasisUnavailable (ot_input self)) (\<lambda>input.
     and_then (ok_or TokenBasisUnavailable (ot_cached_input self)) (\<lambda>cached.
     and_then (ok_or InconsistentTokenBasis (checked_sub input cached)) (\<lambda>uncached.
     and_then
       (case (ot_output self, ot_reasoning self) of
          (Some output, Some reasoning) \<Rightarrow>
            and_then (ok_or ArithmeticOverflow (checked_add output reasoning)) (\<lambda>s. Inr (Some s))
        | _ \<Rightarrow> Inr None) (\<lambda>observed_output.
     and_then
       (case ot_total self of
          Some tot \<Rightarrow>
            and_then (ok_or InconsistentTokenBasis (checked_sub tot input)) (\<lambda>derived.
              if is_some_and (\<lambda>observed. observed \<noteq> derived) observed_output
              then Inl InconsistentTokenBasis
              else Inr derived)
        | None \<Rightarrow> ok_or TokenBasisUnavailable observed_output) (\<lambda>billable_output.
     Inr (token_price_basis_new uncached cached billable_output))))))"

section \<open>The cost of a basis\<close>

record price_rates =
  pr_uncached_input :: usd_per_million
  pr_cached_input :: usd_per_million
  pr_billable_output :: usd_per_million

definition calculate_numerator :: "price_rates \<Rightarrow> token_price_basis \<Rightarrow> price_error + u128" where
  "calculate_numerator rates basis =
     try_fold (\<lambda>numerator (tokens, rate).
         and_then
           (ok_or ArithmeticOverflow (checked_mul (ucast (tokens :: u64)) (ucast (rate :: u64))))
           (\<lambda>comp. ok_or ArithmeticOverflow (checked_add numerator comp)))
       0
       [(tb_uncached_input_tokens basis, pr_uncached_input rates),
        (tb_cached_input_tokens basis, pr_cached_input rates),
        (tb_billable_output_tokens basis, pr_billable_output rates)]"

definition u64_try_from_u128 :: "u128 \<Rightarrow> u64 option" where
  "u64_try_from_u128 w = (if unat w < 2 ^ 64 then Some (ucast w) else None)"

definition round_numerator :: "u128 \<Rightarrow> price_error + usd_micros" where
  "round_numerator numerator =
     and_then (ok_or ArithmeticOverflow (checked_add numerator HALF_TOKEN_MILLION)) (\<lambda>s.
       ok_or ArithmeticOverflow (u64_try_from_u128 (s div TOKENS_PER_MILLION)))"

definition calculate_cost :: "price_rates \<Rightarrow> token_price_basis \<Rightarrow> price_error + usd_micros" where
  "calculate_cost rates basis = and_then (calculate_numerator rates basis) round_numerator"

section \<open>The embedded catalogue\<close>

record model_rule =
  mr_canonical_model :: string
  mr_aliases :: "string list"
  mr_standard_short :: price_rates
  mr_standard_long :: "price_rates option"
  mr_priority_short :: "price_rates option"
  mr_priority_long :: "price_rates option"

definition select_rule_rates ::
  "model_rule \<Rightarrow> service_tier \<Rightarrow> context_class \<Rightarrow> price_error + price_rates" where
  "select_rule_rates rule tier context =
     (case (tier, context) of
        (UnknownTier, _) \<Rightarrow> Inl TierUnknown
      | (_, Context_Unavailable) \<Rightarrow> Inl ContextUnavailable
      | (StandardReported, Context_Short) \<Rightarrow> Inr (mr_standard_short rule)
      | (StandardAssumed, Context_Short) \<Rightarrow> Inr (mr_standard_short rule)
      | (StandardReported, Context_Long) \<Rightarrow> ok_or TierContextUnsupported (mr_standard_long rule)
      | (StandardAssumed, Context_Long) \<Rightarrow> ok_or TierContextUnsupported (mr_standard_long rule)
      | (Priority, Context_Short) \<Rightarrow> ok_or TierContextUnsupported (mr_priority_short rule)
      | (Priority, Context_Long) \<Rightarrow> ok_or TierContextUnsupported (mr_priority_long rule))"

definition rates_of :: "u64 \<Rightarrow> u64 \<Rightarrow> u64 \<Rightarrow> price_rates" where
  "rates_of input cached output =
     \<lparr> pr_uncached_input = input, pr_cached_input = cached, pr_billable_output = output \<rparr>"

definition model_rule_of ::
  "string \<Rightarrow> string list \<Rightarrow> price_rates \<Rightarrow> price_rates option \<Rightarrow> price_rates option
     \<Rightarrow> price_rates option \<Rightarrow> model_rule" where
  "model_rule_of canonical_model aliases standard_short standard_long priority_short priority_long =
     \<lparr> mr_canonical_model = canonical_model, mr_aliases = aliases,
       mr_standard_short = standard_short, mr_standard_long = standard_long,
       mr_priority_short = priority_short, mr_priority_long = priority_long \<rparr>"

definition CATALOG :: "model_rule list" where
  "CATALOG =
    [model_rule_of ''gpt-5.6-sol'' [''gpt-5.6'']
       (rates_of 5000000 500000 30000000)
       (Some (rates_of 10000000 1000000 45000000))
       (Some (rates_of 10000000 1000000 60000000))
       None,
     model_rule_of ''gpt-5.6-terra'' []
       (rates_of 2500000 250000 15000000)
       (Some (rates_of 5000000 500000 22500000))
       (Some (rates_of 5000000 500000 30000000))
       None,
     model_rule_of ''gpt-5.6-luna'' []
       (rates_of 1000000 100000 6000000)
       (Some (rates_of 2000000 200000 9000000))
       (Some (rates_of 2000000 200000 12000000))
       None,
     model_rule_of ''gpt-5.5'' [''gpt-5.5-2026-04-23'']
       (rates_of 5000000 500000 30000000)
       (Some (rates_of 10000000 1000000 45000000))
       (Some (rates_of 12500000 1250000 75000000))
       None,
     model_rule_of ''gpt-5.5-pro'' [''gpt-5.5-pro-2026-04-23'']
       (rates_of 30000000 30000000 180000000)
       None
       None
       None,
     model_rule_of ''gpt-5.4'' [''gpt-5.4-2026-03-05'']
       (rates_of 2500000 250000 15000000)
       (Some (rates_of 5000000 500000 22500000))
       (Some (rates_of 5000000 500000 30000000))
       None,
     model_rule_of ''gpt-5.4-pro'' [''gpt-5.4-pro-2026-03-05'']
       (rates_of 30000000 30000000 180000000)
       (Some (rates_of 60000000 60000000 270000000))
       None
       None,
     model_rule_of ''gpt-5.4-mini'' [''gpt-5.4-mini-2026-03-17'']
       (rates_of 750000 75000 4500000)
       None
       (Some (rates_of 1500000 150000 9000000))
       None,
     model_rule_of ''gpt-5.4-nano'' [''gpt-5.4-nano-2026-03-17'']
       (rates_of 200000 20000 1250000)
       None
       None
       None,
     model_rule_of ''gpt-5.3-codex'' []
       (rates_of 1750000 175000 14000000)
       None
       None
       None,
     model_rule_of ''gpt-5.2'' [''gpt-5.2-2025-12-11'', ''gpt-5.2-codex'']
       (rates_of 1750000 175000 14000000)
       None
       (Some (rates_of 3500000 350000 28000000))
       None,
     model_rule_of ''gpt-5.1'' [''gpt-5.1-codex'', ''gpt-5.1-codex-max'']
       (rates_of 1250000 125000 10000000)
       None
       (Some (rates_of 2500000 250000 20000000))
       None,
     model_rule_of ''gpt-5'' [''gpt-5-2025-08-07'', ''gpt-5-codex'']
       (rates_of 1250000 125000 10000000)
       None
       (Some (rates_of 2500000 250000 20000000))
       None,
     model_rule_of ''gpt-5-mini'' [''gpt-5-mini-2025-08-07'']
       (rates_of 250000 25000 2000000)
       None
       (Some (rates_of 450000 45000 3600000))
       None,
     model_rule_of ''gpt-5-nano'' [''gpt-5-nano-2025-08-07'']
       (rates_of 50000 5000 400000)
       None
       None
       None]"

record price_quote =
  pq_amount :: usd_micros
  pq_canonical_model :: string
  pq_assumed_standard :: bool

definition embedded_catalog_price ::
  "string \<Rightarrow> service_tier \<Rightarrow> context_class \<Rightarrow> token_price_basis \<Rightarrow> price_error + price_quote" where
  "embedded_catalog_price model tier context basis =
     and_then
       (ok_or ModelUnpriced
         (find (\<lambda>rule. mr_canonical_model rule = model \<or> model \<in> set (mr_aliases rule)) CATALOG))
       (\<lambda>rule.
     and_then (select_rule_rates rule tier context) (\<lambda>rates.
     and_then (calculate_cost rates basis) (\<lambda>amount.
     Inr \<lparr> pq_amount = amount, pq_canonical_model = mr_canonical_model rule,
           pq_assumed_standard = (tier = StandardAssumed) \<rparr>)))"

section \<open>Exact cost\<close>

text \<open>The exact numerator: token counts times rates, as natural numbers.\<close>

definition cost_numerator :: "price_rates \<Rightarrow> token_price_basis \<Rightarrow> nat" where
  "cost_numerator rates basis =
     unat (tb_uncached_input_tokens basis) * unat (pr_uncached_input rates)
     + unat (tb_cached_input_tokens basis) * unat (pr_cached_input rates)
     + unat (tb_billable_output_tokens basis) * unat (pr_billable_output rates)"

definition half_up :: "nat \<Rightarrow> nat" where
  "half_up n = (n + 500000) div 1000000"

lemma unat_u64_u128 [simp]: "unat (ucast (w :: u64) :: u128) = unat w"
  by (rule unat_ucast_widen) simp

lemma u64_bound: "unat (w :: u64) < 18446744073709551616"
  using unat_less_pow [of w] by simp

lemma u64_product_fits: "unat (a :: u64) * unat (b :: u64) < 2 ^ 128"
proof -
  have "unat a * unat b \<le> 18446744073709551615 * 18446744073709551615"
    using u64_bound [of a] u64_bound [of b] by (intro mult_le_mono) simp_all
  then show ?thesis by simp
qed

lemma checked_mul_u64_u128:
  "\<exists>c :: u128. checked_mul (ucast (a :: u64)) (ucast (b :: u64)) = Some c \<and> unat c = unat a * unat b"
proof -
  have "checked_mul (ucast a :: u128) (ucast b) \<noteq> None"
    using u64_product_fits [of a b] by (simp add: checked_mul_None_iff)
  then obtain c where c: "checked_mul (ucast a :: u128) (ucast b) = Some c" by blast
  then have "unat c = unat a * unat b" by (simp add: checked_mul_iff)
  with c show ?thesis by blast
qed

lemma add_product_step:
  "(\<exists>c :: u128. unat c = n + unat (a :: u64) * unat (b :: u64) \<and>
      and_then (ok_or ArithmeticOverflow (checked_mul (ucast a) (ucast b)))
        (\<lambda>comp. ok_or ArithmeticOverflow (checked_add acc comp)) = Inr c) \<or>
   2 ^ 128 \<le> n + unat a * unat b \<and>
      and_then (ok_or ArithmeticOverflow (checked_mul (ucast a) (ucast b)))
        (\<lambda>comp. ok_or ArithmeticOverflow (checked_add acc comp)) = Inl ArithmeticOverflow"
  if "unat (acc :: u128) = n"
proof -
  obtain c :: u128 where c: "checked_mul (ucast a) (ucast b) = Some c" "unat c = unat a * unat b"
    using checked_mul_u64_u128 [of a b] by blast
  show ?thesis
  proof (cases "checked_add acc c")
    case None
    moreover from this have "2 ^ 128 \<le> n + unat a * unat b"
      using c that by (simp add: checked_add_None_iff)
    ultimately show ?thesis using c by simp
  next
    case (Some d)
    then have "unat d = n + unat a * unat b" using c that by (simp add: checked_add_iff)
    with Some c show ?thesis by auto
  qed
qed

text \<open>The loop computes the exact numerator, or reports overflow when it does not fit.\<close>

lemma calculate_numerator_exact:
  "(\<exists>w. calculate_numerator rates basis = Inr w \<and> unat w = cost_numerator rates basis) \<or>
   calculate_numerator rates basis = Inl ArithmeticOverflow \<and> 2 ^ 128 \<le> cost_numerator rates basis"
proof -
  let ?p = "unat (tb_uncached_input_tokens basis) * unat (pr_uncached_input rates)"
  let ?q = "unat (tb_cached_input_tokens basis) * unat (pr_cached_input rates)"
  let ?r = "unat (tb_billable_output_tokens basis) * unat (pr_billable_output rates)"
  let ?f = "\<lambda>acc a b. and_then (ok_or ArithmeticOverflow (checked_mul (ucast (a :: u64)) (ucast (b :: u64))))
        (\<lambda>comp. ok_or ArithmeticOverflow (checked_add (acc :: u128) comp))"
  let ?f1 = "?f 0 (tb_uncached_input_tokens basis) (pr_uncached_input rates)"
  let ?f2 = "\<lambda>acc. ?f acc (tb_cached_input_tokens basis) (pr_cached_input rates)"
  let ?f3 = "\<lambda>acc. ?f acc (tb_billable_output_tokens basis) (pr_billable_output rates)"
  have run: "calculate_numerator rates basis =
      and_then ?f1 (\<lambda>a. and_then (?f2 a) (\<lambda>b. and_then (?f3 b) Inr))"
    by (simp add: calculate_numerator_def)
  consider (a) x where "?f1 = Inr x" "unat x = ?p" | (b) "?f1 = Inl ArithmeticOverflow" "2 ^ 128 \<le> ?p"
    using add_product_step [of 0 0 "tb_uncached_input_tokens basis" "pr_uncached_input rates"] by auto
  then show ?thesis
  proof cases
    case b
    then show ?thesis unfolding run cost_numerator_def by simp
  next
    case a
    consider (c) y where "?f2 x = Inr y" "unat y = ?p + ?q"
      | (d) "?f2 x = Inl ArithmeticOverflow" "2 ^ 128 \<le> ?p + ?q"
      using add_product_step [OF a(2), of "tb_cached_input_tokens basis" "pr_cached_input rates"] by blast
    then show ?thesis
    proof cases
      case d
      with a(1) show ?thesis unfolding run cost_numerator_def by simp
    next
      case c
      from add_product_step [OF c(2), of "tb_billable_output_tokens basis" "pr_billable_output rates"]
      show ?thesis unfolding run cost_numerator_def a(1) and_then_simps c(1) by auto
    qed
  qed
qed

text \<open>Rounding is exact, and fails exactly when the rounded amount exceeds a \<open>u64\<close>.\<close>

lemma round_numerator_exact:
  "round_numerator w =
     (if half_up (unat w) < 2 ^ 64 then Inr (of_nat (half_up (unat w))) else Inl ArithmeticOverflow)"
proof (cases "checked_add w HALF_TOKEN_MILLION")
  case None
  then have "2 ^ 128 \<le> unat w + 500000"
    by (simp add: checked_add_None_iff HALF_TOKEN_MILLION_def TOKENS_PER_MILLION_def unat_div)
  then have "2 ^ 64 \<le> half_up (unat w)" unfolding half_up_def by simp
  with None show ?thesis by (simp add: round_numerator_def)
next
  case (Some s)
  then have s: "unat s = unat w + 500000"
    by (simp add: checked_add_iff HALF_TOKEN_MILLION_def TOKENS_PER_MILLION_def unat_div)
  have "unat (s div TOKENS_PER_MILLION) = half_up (unat w)"
    by (simp add: unat_div s half_up_def TOKENS_PER_MILLION_def)
  moreover from this have "half_up (unat w) < 2 ^ 64 \<Longrightarrow>
      ucast (s div TOKENS_PER_MILLION) = (of_nat (half_up (unat w)) :: u64)"
    by (metis of_nat_unat)
  ultimately show ?thesis by (simp add: round_numerator_def Some u64_try_from_u128_def)
qed

lemma half_up_big: "2 ^ 128 \<le> n \<Longrightarrow> 2 ^ 64 \<le> half_up n"
  unfolding half_up_def by simp

text \<open>
  C34. The cost of a token basis is the exact rational cost in micro-dollars rounded half up: for
  all token counts and rates the result is the sum of the three products divided by a million,
  rounded half up, and the only error is \<open>ArithmeticOverflow\<close>, given exactly when that rounded
  amount does not fit 64 bits.  No intermediate sum or product of the code changes this.
\<close>

theorem calculate_cost_exact:
  "calculate_cost rates basis =
     (if half_up (cost_numerator rates basis) < 2 ^ 64
      then Inr (of_nat (half_up (cost_numerator rates basis)))
      else Inl ArithmeticOverflow)"
  using calculate_numerator_exact [of rates basis]
proof (elim disjE exE conjE)
  fix w
  assume "calculate_numerator rates basis = Inr w" "unat w = cost_numerator rates basis"
  then show ?thesis by (simp add: calculate_cost_def round_numerator_exact)
next
  assume "calculate_numerator rates basis = Inl ArithmeticOverflow"
    "2 ^ 128 \<le> cost_numerator rates basis"
  then show ?thesis using half_up_big by (fastforce simp: calculate_cost_def)
qed

section \<open>Decimal rates\<close>

text \<open>The number a digit string denotes.\<close>

definition decimal :: "string \<Rightarrow> nat" where
  "decimal = foldl (\<lambda>n c. n * 10 + digit_value c) 0"

lemma foldl_digits_ge: "n \<le> foldl (\<lambda>n c. n * 10 + digit_value c) n s"
proof (induction s arbitrary: n)
  case (Cons c s)
  have "n \<le> n * 10 + digit_value c" by simp
  also have "\<dots> \<le> foldl (\<lambda>n c. n * 10 + digit_value c) (n * 10 + digit_value c) s" by (rule Cons.IH)
  finally show ?case by simp
qed simp

lemma ex_unat_iff: "(\<exists>w :: 'a::len word. unat w = n) \<longleftrightarrow> n < 2 ^ LENGTH('a)"
proof
  assume "n < 2 ^ LENGTH('a)"
  then have "unat (of_nat n :: 'a word) = n" by (simp add: unat_of_nat)
  then show "\<exists>w :: 'a word. unat w = n" by blast
qed (use unat_less_pow in auto)

lemma digit_value_small: "digit_value c < 256"
  unfolding digit_value_def using nat_of_char_less_256 [of c] by linarith

lemma parse_ascii_step:
  "Option.bind (checked_mul result 10) (\<lambda>current. checked_add current (of_nat (digit_value c))) = Some r
   \<longleftrightarrow> unat r = unat result * 10 + digit_value c"
  for r result :: u64
proof -
  have d: "unat (of_nat (digit_value c) :: u64) = digit_value c"
    using digit_value_small [of c] by (simp add: unat_of_nat)
  have "(\<exists>x :: u64. unat x = unat result * 10 \<and> unat r = unat x + digit_value c) \<longleftrightarrow>
      unat r = unat result * 10 + digit_value c" (is "?l \<longleftrightarrow> ?r")
  proof
    assume ?r
    then have "unat result * 10 < 2 ^ LENGTH(64)" using unat_less_pow [of r] by simp
    then obtain x :: u64 where "unat x = unat result * 10" using ex_unat_iff by blast
    with \<open>?r\<close> show ?l by auto
  qed auto
  then show ?thesis by (simp add: bind_eq_Some_conv checked_mul_iff checked_add_iff d)
qed

lemma parse_ascii_fold:
  "try_fold (\<lambda>result byte.
       ok_or InvalidRate (Option.bind (checked_mul result 10)
         (\<lambda>current. checked_add current (of_nat (digit_value byte))))) acc s = Inr (r :: u64)
   \<longleftrightarrow> unat r = foldl (\<lambda>n c. n * 10 + digit_value c) (unat acc) s"
proof (induction s arbitrary: acc)
  case Nil
  then show ?case by (auto simp: word_unat_eq_iff)
next
  case (Cons c s)
  have "(\<exists>a :: u64. unat a = unat acc * 10 + digit_value c \<and>
          unat r = foldl (\<lambda>n c. n * 10 + digit_value c) (unat a) s) \<longleftrightarrow>
        unat r = foldl (\<lambda>n c. n * 10 + digit_value c) (unat acc * 10 + digit_value c) s"
    (is "?l \<longleftrightarrow> ?r")
  proof
    assume ?r
    then have "unat acc * 10 + digit_value c < 2 ^ LENGTH(64)"
      using foldl_digits_ge [of "unat acc * 10 + digit_value c" s] unat_less_pow [of r] by simp
    then obtain a :: u64 where "unat a = unat acc * 10 + digit_value c"
      using ex_unat_iff by blast
    with \<open>?r\<close> show ?l by auto
  qed auto
  then show ?case by (simp add: result_simps Cons.IH parse_ascii_step)
qed

lemma parse_ascii_u64_iff: "parse_ascii_u64 s = Inr r \<longleftrightarrow> unat r = decimal s"
  by (simp add: parse_ascii_u64_def decimal_def parse_ascii_fold)

lemma split_once_absent: "c \<notin> set s \<Longrightarrow> split_once c s = None"
  by (simp add: split_once_def)

lemma split_once_present: "c \<notin> set a \<Longrightarrow> split_once c (a @ c # b) = Some (a, b)"
  by (induction a) (auto simp: split_once_def)

lemma digits_no_point: "list_all is_ascii_digit s \<Longrightarrow> CHR ''.'' \<notin> set s"
  by (auto simp: list_all_iff is_ascii_digit_def)

lemma no_point_filter: "CHR ''.'' \<notin> set s \<Longrightarrow> filter (\<lambda>c. c = CHR ''.'') s = []"
  by (induction s) auto

text \<open>The value of a rate text in micro-dollars: the point is moved six places.\<close>

definition rate_value :: "string \<Rightarrow> string \<Rightarrow> nat" where
  "rate_value whole frac = decimal whole * 1000000 + decimal frac * 10 ^ (6 - length frac)"

definition rate_text_ok :: "string \<Rightarrow> string \<Rightarrow> bool" where
  "rate_text_ok whole frac \<longleftrightarrow> whole \<noteq> [] \<and> list_all is_ascii_digit whole \<and>
     list_all is_ascii_digit frac \<and> length frac \<le> 6 \<and> rate_value whole frac \<le> 1000000000000"

lemma rate_scale:
  "length frac \<le> 6 \<Longrightarrow>
    unat (10 ^ unat (saturating_sub 6 (of_nat (length frac)) :: u32) :: u64) = 10 ^ (6 - length frac)"
proof -
  assume l: "length frac \<le> 6"
  have "unat (of_nat (length frac) :: u32) = length frac" using l by (simp add: unat_of_nat)
  then have e: "unat (saturating_sub 6 (of_nat (length frac)) :: u32) = 6 - length frac"
    by (simp add: unat_saturating_sub)
  have "(10 :: nat) ^ (6 - length frac) \<le> 10 ^ 6" by (rule power_increasing) simp_all
  then have "(10 :: nat) ^ (6 - length frac) < 2 ^ 64" by simp
  then have "unat (of_nat (10 ^ (6 - length frac)) :: u64) = 10 ^ (6 - length frac)"
    by (simp only: unat_of_nat) simp
  then show ?thesis by (simp add: e)
qed

lemma parse_sum_iff:
  assumes "\<And>c. F = Inr c \<longleftrightarrow> unat c = k"
  shows "and_then (parse_ascii_u64 whole) (\<lambda>whole'.
      and_then (ok_or InvalidRate (checked_mul whole' 1000000)) (\<lambda>whole_micros.
      and_then F (\<lambda>fractional_micros.
      ok_or InvalidRate
        (filter_option (\<lambda>v. v \<le> MAX_RATE_MICROS_PER_MILLION)
          (checked_add whole_micros fractional_micros))))) = Inr r \<longleftrightarrow>
    unat r = decimal whole * 1000000 + k \<and> decimal whole * 1000000 + k \<le> 1000000000000"
  (is "?l \<longleftrightarrow> ?r")
proof
  assume ?l
  then show ?r
    by (auto simp: result_simps assms parse_ascii_u64_iff checked_mul_iff checked_add_iff
        filter_option_Some_iff word_le_nat_alt MAX_RATE_MICROS_PER_MILLION_def)
next
  assume r: ?r
  then have "decimal whole < 2 ^ LENGTH(64)" "decimal whole * 1000000 < 2 ^ LENGTH(64)"
    "k < 2 ^ LENGTH(64)" by simp_all
  then obtain a b c :: u64 where
    w: "unat a = decimal whole" "unat b = decimal whole * 1000000" "unat c = k"
    using ex_unat_iff by metis
  have "parse_ascii_u64 whole = Inr a" by (simp add: parse_ascii_u64_iff w)
  moreover have "checked_mul a 1000000 = Some b" by (simp add: checked_mul_iff w)
  moreover have "F = Inr c" by (simp add: assms w)
  moreover have "checked_add b c = Some r" using r by (simp add: checked_add_iff w)
  moreover have "r \<le> MAX_RATE_MICROS_PER_MILLION"
    using r by (simp add: word_le_nat_alt MAX_RATE_MICROS_PER_MILLION_def)
  ultimately show ?l by simp
qed

lemma parse_fraction_iff:
  assumes "length frac \<le> 6"
  shows "and_then (parse_ascii_u64 frac) (\<lambda>parsed.
      ok_or InvalidRate (checked_mul parsed
        (10 ^ unat (saturating_sub 6 (of_nat (length frac)) :: u32)))) = Inr c \<longleftrightarrow>
    unat c = decimal frac * 10 ^ (6 - length frac)"
proof -
  have "(\<exists>x :: u64. unat x = decimal frac \<and> unat c = decimal frac * 10 ^ (6 - length frac)) \<longleftrightarrow>
      unat c = decimal frac * 10 ^ (6 - length frac)" (is "?l \<longleftrightarrow> ?r")
  proof
    assume r: ?r
    have "decimal frac * 1 \<le> decimal frac * 10 ^ (6 - length frac)" by (intro mult_le_mono) simp_all
    then have "decimal frac < 2 ^ LENGTH(64)" using r unat_less_pow [of c] by linarith
    with r show ?l using ex_unat_iff by blast
  qed auto
  then show ?thesis
    by (auto simp: result_simps parse_ascii_u64_iff checked_mul_iff rate_scale [OF assms])
qed

lemma parse_whole_iff:
  assumes "CHR ''.'' \<notin> set whole"
  shows "usd_per_million_parse whole = Inr r \<longleftrightarrow>
    rate_text_ok whole [] \<and> unat r = rate_value whole []"
proof -
  have z: "(Inr 0 :: price_error + u64) = Inr c \<longleftrightarrow> unat c = 0" for c
    by (auto simp: unat_eq_0)
  show ?thesis
    using assms parse_sum_iff [OF z, of whole r]
    by (auto simp: usd_per_million_parse_def split_once_absent no_point_filter
        rate_text_ok_def rate_value_def decimal_def)
qed

lemma parse_point_iff:
  assumes "CHR ''.'' \<notin> set whole"
  shows "usd_per_million_parse (whole @ CHR ''.'' # frac) = Inr r \<longleftrightarrow>
    frac \<noteq> [] \<and> rate_text_ok whole frac \<and> unat r = rate_value whole frac"
proof (cases "whole = [] \<or> \<not> list_all is_ascii_digit whole \<or> frac = [] \<or> 6 < length frac
    \<or> \<not> list_all is_ascii_digit frac")
  case True
  then show ?thesis using assms
    by (auto simp: usd_per_million_parse_def split_once_present rate_text_ok_def)
next
  case False
  then have f: "CHR ''.'' \<notin> set frac" and l: "length frac \<le> 6" by (auto dest: digits_no_point)
  show ?thesis
    using False assms parse_sum_iff [OF parse_fraction_iff [OF l], of whole r]
    by (simp add: usd_per_million_parse_def split_once_present no_point_filter f
        rate_text_ok_def rate_value_def) blast
qed

lemma usd_per_million_parse_error: "usd_per_million_parse v = Inl e \<Longrightarrow> e = InvalidRate"
proof -
  have fold: "try_fold (\<lambda>result byte.
       ok_or InvalidRate (Option.bind (checked_mul result 10)
         (\<lambda>current. checked_add current (of_nat (digit_value byte))))) acc s = Inl e \<Longrightarrow>
       e = InvalidRate" for acc :: u64 and s
    by (induction s arbitrary: acc) (auto simp: result_simps)
  assume "usd_per_million_parse v = Inl e"
  then show ?thesis
    by (auto simp: usd_per_million_parse_def Let_def result_simps parse_ascii_u64_def
        dest: fold split: prod.splits option.splits if_splits)
qed

text \<open>
  C39. The rate parser accepts exactly the decimal texts of a non-empty digit string, optionally
  followed by a point and one to six digits, whose value is at most a million dollars per million
  tokens; the rate it returns is that value in micro-dollars, exactly.  Every other text is refused
  as \<open>InvalidRate\<close>.
\<close>

theorem usd_per_million_parse_exact:
  "(usd_per_million_parse v = Inr r \<longleftrightarrow>
     (\<exists>whole frac. rate_text_ok whole frac \<and>
        (v = whole \<and> frac = [] \<or> v = whole @ CHR ''.'' # frac \<and> frac \<noteq> []) \<and>
        unat r = rate_value whole frac)) \<and>
   (usd_per_million_parse v = Inl InvalidRate \<or> (\<exists>r. usd_per_million_parse v = Inr r))"
  (is "(?p \<longleftrightarrow> ?q) \<and> ?e")
proof (intro conjI iffI)
  assume p: ?p
  show ?q
  proof (cases "CHR ''.'' \<in> set v")
    case False
    with p show ?thesis by (auto simp: parse_whole_iff)
  next
    case True
    then obtain whole frac where "v = whole @ CHR ''.'' # frac" "CHR ''.'' \<notin> set whole"
      by (metis split_list_first)
    with p show ?thesis by (auto simp: parse_point_iff)
  qed
next
  assume ?q
  then obtain whole frac where ok: "rate_text_ok whole frac"
    "v = whole \<and> frac = [] \<or> v = whole @ CHR ''.'' # frac \<and> frac \<noteq> []"
    "unat r = rate_value whole frac" by blast
  moreover have "CHR ''.'' \<notin> set whole" using ok(1) by (simp add: rate_text_ok_def digits_no_point)
  ultimately show ?p by (auto simp: parse_whole_iff parse_point_iff)
next
  show ?e by (cases "usd_per_million_parse v") (auto dest: usd_per_million_parse_error)
qed


section \<open>Deriving the basis\<close>

text \<open>
  C40. A token basis is derived exactly from consistent observations: input and cached input must be
  known, cached plus uncached tokens are the input, and the billable output is the total less the
  input when a total is known, which output plus reasoning, if both are known, must equal; without
  a total it is output plus reasoning, both of which must then be known.  Everything is computed
  without wrap-around.
\<close>

theorem derive_price_basis_exact:
  "derive_price_basis observed = Inr basis \<longleftrightarrow>
    (\<exists>input cached. ot_input observed = Some input \<and> ot_cached_input observed = Some cached \<and>
       tb_cached_input_tokens basis = cached \<and>
       unat (tb_uncached_input_tokens basis) + unat cached = unat input \<and>
       (case zip_option (ot_output observed) (ot_reasoning observed) of
          Some (output, reasoning) \<Rightarrow> unat output + unat reasoning = unat (tb_billable_output_tokens basis)
        | None \<Rightarrow> ot_total observed \<noteq> None) \<and>
       is_none_or (\<lambda>tot. unat tot = unat input + unat (tb_billable_output_tokens basis)) (ot_total observed))"
proof (cases "ot_input observed = None \<or> ot_cached_input observed = None")
  case True
  then show ?thesis by (auto simp: derive_price_basis_def result_simps)
next
  case False
  then obtain input cached where i: "ot_input observed = Some input" "ot_cached_input observed = Some cached"
    by auto
  have b: "token_price_basis_new u c k = basis \<longleftrightarrow> tb_uncached_input_tokens basis = u \<and>
      tb_cached_input_tokens basis = c \<and> tb_billable_output_tokens basis = k" for u c k
    by (cases basis) (auto simp: token_price_basis_new_def)
  show ?thesis
  proof (cases "zip_option (ot_output observed) (ot_reasoning observed)")
    case None
    then have "(case (ot_output observed, ot_reasoning observed) of
          (Some output, Some reasoning) \<Rightarrow>
            and_then (ok_or ArithmeticOverflow (checked_add output reasoning)) (\<lambda>s. Inr (Some s))
        | _ \<Rightarrow> Inr None) = (Inr None :: price_error + u64 option)"
      by (cases "ot_output observed"; cases "ot_reasoning observed") simp_all
    then show ?thesis
      unfolding derive_price_basis_def i None
      by (cases "ot_total observed") (auto simp: result_simps checked_sub_iff b)
  next
    case (Some p)
    then have o: "ot_output observed = Some (fst p)" "ot_reasoning observed = Some (snd p)"
      by (simp_all add: zip_option_Some_iff)
    have ex: "(\<exists>xa. (\<exists>x. P x \<and> Some x = xa) \<and> Q xa) \<longleftrightarrow> (\<exists>x. P x \<and> Q (Some x))"
      for P :: "u64 \<Rightarrow> bool" and Q by blast
    show ?thesis
      unfolding derive_price_basis_def i Some o
      by (cases "ot_total observed"; cases p)
        (auto simp: result_simps checked_sub_iff checked_add_iff b ex
          intro!: exI [of _ "tb_uncached_input_tokens basis"])
  qed
qed

end
