(* ===== verification/PriceOverrides.thy ===== *)
theory PriceOverrides
  imports Pricing Usage Encoding Binary_Search
begin

text \<open>
  User price overrides and the pricing engine, from \<open>crates/pricing/src/overrides.rs\<close>.

  A snapshot is built from drafts: the checks of the keys, the merge of each patch with the
  embedded rule, the one-hop rule for aliases, and the two sorted tables that the engine
  searches by binary search.  The results: the engine resolves a model exactly as a plain scan
  of the drafts over the embedded catalogue would, an engine with no overrides agrees with the
  embedded catalogue, and the revision identifies the effective overrides.
\<close>

section \<open>Drafts\<close>

definition MAX_OVERRIDE_ENTRIES :: nat where "MAX_OVERRIDE_ENTRIES = 512"
definition MAX_OVERRIDE_MODEL_BYTES :: nat where "MAX_OVERRIDE_MODEL_BYTES = 64"

datatype override_error =
  TooManyEntries | InvalidKey | DuplicateKey | KeyConflict | IncompleteRule | AliasChain
  | AliasTargetUnknown

record price_rates_override =
  po_uncached_input :: "usd_per_million option"
  po_cached_input :: "usd_per_million option"
  po_billable_output :: "usd_per_million option"

definition has_value :: "price_rates_override \<Rightarrow> bool" where
  "has_value self \<longleftrightarrow> po_uncached_input self \<noteq> None \<or> po_cached_input self \<noteq> None
     \<or> po_billable_output self \<noteq> None"

record model_override_draft =
  md_model :: string
  md_standard_short :: "price_rates_override option"
  md_standard_long :: "price_rates_override option"
  md_priority_short :: "price_rates_override option"
  md_priority_long :: "price_rates_override option"

record alias_override_draft =
  ad_alias :: string
  ad_target :: string

datatype override_draft = ModelDraft model_override_draft | AliasDraft alias_override_draft

fun override_draft_key :: "override_draft \<Rightarrow> string" where
  "override_draft_key (ModelDraft draft) = md_model draft"
| "override_draft_key (AliasDraft draft) = ad_alias draft"

section \<open>Rules\<close>

record effective_model_rule =
  em_canonical_model :: string
  em_standard_short :: price_rates
  em_standard_long :: "price_rates option"
  em_priority_short :: "price_rates option"
  em_priority_long :: "price_rates option"

record alias_rule =
  ar_alias :: string
  ar_target :: string

record override_snapshot =
  os_models :: "effective_model_rule list"
  os_aliases :: "alias_rule list"
  os_entry_count :: nat
  os_revision :: digest

definition merge_rates ::
  "price_rates option \<Rightarrow> price_rates_override option \<Rightarrow> override_error + price_rates option" where
  "merge_rates base patch =
     (case patch of
        None \<Rightarrow> Inr base
      | Some patch \<Rightarrow>
          (let uncached_input = (case po_uncached_input patch of
                 None \<Rightarrow> map_option pr_uncached_input base | some \<Rightarrow> some);
               cached_input = (case po_cached_input patch of
                 None \<Rightarrow> map_option pr_cached_input base | some \<Rightarrow> some);
               billable_output = (case po_billable_output patch of
                 None \<Rightarrow> map_option pr_billable_output base | some \<Rightarrow> some)
           in case (uncached_input, cached_input, billable_output) of
                (Some u, Some c, Some b) \<Rightarrow>
                  Inr (Some \<lparr> pr_uncached_input = u, pr_cached_input = c, pr_billable_output = b \<rparr>)
              | _ \<Rightarrow> Inl IncompleteRule))"

definition is_valid_model_key :: "string \<Rightarrow> bool" where
  "is_valid_model_key v \<longleftrightarrow> v \<noteq> [] \<and> length v \<le> MAX_OVERRIDE_MODEL_BYTES
     \<and> list_all (\<lambda>byte. is_ascii_alphanumeric byte
          \<or> byte \<in> {CHR ''.'', CHR ''_'', CHR ''-'', CHR ''/'', CHR '':''}) v"

definition embedded_rule :: "string \<Rightarrow> model_rule option" where
  "embedded_rule model = find (\<lambda>rule. mr_canonical_model rule = model) CATALOG"

definition embedded_alias_target :: "string \<Rightarrow> string option" where
  "embedded_alias_target alias =
     map_option mr_canonical_model (find (\<lambda>rule. alias \<in> set (mr_aliases rule)) CATALOG)"

section \<open>The revision\<close>

definition hash_string :: "u8 list \<Rightarrow> string \<Rightarrow> u8 list" where
  "hash_string hasher v = hasher @ [word_of_nat (length v)] @ bytes_of v"

definition hash_rates :: "u8 list \<Rightarrow> price_rates option \<Rightarrow> u8 list" where
  "hash_rates hasher rates =
     (case rates of
        None \<Rightarrow> hasher @ [0]
      | Some rates \<Rightarrow>
          foldl (\<lambda>h rate. h @ le_bytes (rate :: u64)) (hasher @ [1])
            [pr_uncached_input rates, pr_cached_input rates, pr_billable_output rates])"

definition REVISION_DOMAIN :: "u8 list" where
  "REVISION_DOMAIN = bytes_of ''tokenmaster-pricing-overrides-v1'' @ [0]"

definition hash_model :: "u8 list \<Rightarrow> effective_model_rule \<Rightarrow> u8 list" where
  "hash_model hasher rule =
     (let hasher = hasher @ bytes_of ''model'' @ [0];
          hasher = hash_string hasher (em_canonical_model rule);
          hasher = hash_rates hasher (Some (em_standard_short rule));
          hasher = hash_rates hasher (em_standard_long rule);
          hasher = hash_rates hasher (em_priority_short rule)
      in hash_rates hasher (em_priority_long rule))"

definition hash_alias :: "u8 list \<Rightarrow> alias_rule \<Rightarrow> u8 list" where
  "hash_alias hasher alias =
     (let hasher = hasher @ bytes_of ''alias'' @ [0];
          hasher = hash_string hasher (ar_alias alias)
      in hash_string hasher (ar_target alias))"

definition revision_message :: "effective_model_rule list \<Rightarrow> alias_rule list \<Rightarrow> u8 list" where
  "revision_message models aliases =
     foldl hash_alias (foldl hash_model REVISION_DOMAIN models) aliases"

definition revision_for ::
  "(u8 list \<Rightarrow> digest) \<Rightarrow> effective_model_rule list \<Rightarrow> alias_rule list \<Rightarrow> digest" where
  "revision_for sha256 models aliases = sha256 (revision_message models aliases)"

section \<open>Building a snapshot\<close>

definition from_validated ::
  "(u8 list \<Rightarrow> digest) \<Rightarrow> effective_model_rule list \<Rightarrow> alias_rule list \<Rightarrow> nat \<Rightarrow> override_snapshot" where
  "from_validated sha256 models aliases entry_count =
     \<lparr> os_models = models, os_aliases = aliases, os_entry_count = entry_count,
       os_revision = revision_for sha256 models aliases \<rparr>"

definition override_snapshot_empty :: "(u8 list \<Rightarrow> digest) \<Rightarrow> override_snapshot" where
  "override_snapshot_empty sha256 = from_validated sha256 [] [] 0"

text \<open>The first loop of \<open>build\<close>: one draft against the keys seen so far.\<close>

definition check_draft :: "string set \<Rightarrow> override_draft \<Rightarrow> override_error + string set" where
  "check_draft candidate_keys draft =
     (let key = override_draft_key draft
      in if \<not> is_valid_model_key key then Inl InvalidKey
         else if key \<in> candidate_keys then Inl DuplicateKey
         else case draft of
             ModelDraft model \<Rightarrow>
               if embedded_alias_target (md_model model) \<noteq> None then Inl KeyConflict
               else Inr (insert key candidate_keys)
           | AliasDraft alias \<Rightarrow>
               if embedded_rule (ad_alias alias) \<noteq> None
                  \<or> embedded_alias_target (ad_alias alias) \<noteq> None then Inl KeyConflict
               else if \<not> is_valid_model_key (ad_target alias) then Inl InvalidKey
               else Inr (insert key candidate_keys))"

definition model_drafts :: "override_draft list \<Rightarrow> model_override_draft list" where
  "model_drafts drafts =
     List.map_filter (\<lambda>draft. case draft of ModelDraft d \<Rightarrow> Some d | AliasDraft _ \<Rightarrow> None) drafts"

definition alias_drafts :: "override_draft list \<Rightarrow> alias_override_draft list" where
  "alias_drafts drafts =
     List.map_filter (\<lambda>draft. case draft of AliasDraft d \<Rightarrow> Some d | ModelDraft _ \<Rightarrow> None) drafts"

text \<open>The second loop: a model draft merged with the embedded rule of the same name.\<close>

definition effective_rule :: "model_override_draft \<Rightarrow> override_error + effective_model_rule" where
  "effective_rule draft =
     (let patches = [md_standard_short draft, md_standard_long draft, md_priority_short draft,
            md_priority_long draft];
          has_patch = list_ex (is_some_and has_value) patches;
          base = embedded_rule (md_model draft)
      in if \<not> has_patch then Inl IncompleteRule
         else
           and_then (merge_rates (map_option mr_standard_short base) (md_standard_short draft)) (\<lambda>ss.
           and_then (ok_or IncompleteRule ss) (\<lambda>standard_short.
           and_then (merge_rates (Option.bind base mr_standard_long) (md_standard_long draft)) (\<lambda>standard_long.
           and_then (merge_rates (Option.bind base mr_priority_short) (md_priority_short draft)) (\<lambda>priority_short.
           and_then (merge_rates (Option.bind base mr_priority_long) (md_priority_long draft)) (\<lambda>priority_long.
           Inr \<lparr> em_canonical_model = md_model draft, em_standard_short = standard_short,
                 em_standard_long = standard_long, em_priority_short = priority_short,
                 em_priority_long = priority_long \<rparr>))))))"

text \<open>The third loop: an alias draft against the other aliases and the known models.\<close>

definition check_alias ::
  "string set \<Rightarrow> effective_model_rule list \<Rightarrow> alias_override_draft \<Rightarrow> override_error + alias_rule" where
  "check_alias alias_keys models draft =
     (if ad_target draft \<in> alias_keys \<or> embedded_alias_target (ad_target draft) \<noteq> None
      then Inl AliasChain
      else if embedded_rule (ad_target draft) = None
              \<and> (case binary_search_by (\<lambda>rule. cmp (em_canonical_model rule) (ad_target draft)) models of
                   Inr _ \<Rightarrow> False | Inl _ \<Rightarrow> True)
      then Inl AliasTargetUnknown
      else Inr \<lparr> ar_alias = ad_alias draft, ar_target = ad_target draft \<rparr>)"

definition override_snapshot_build ::
  "(u8 list \<Rightarrow> digest) \<Rightarrow> override_draft list \<Rightarrow> override_error + override_snapshot" where
  "override_snapshot_build sha256 drafts =
     (if length drafts > MAX_OVERRIDE_ENTRIES then Inl TooManyEntries
      else
        and_then (try_fold check_draft {} drafts) (\<lambda>_.
        and_then (try_map effective_rule (model_drafts drafts)) (\<lambda>models.
        let models = sort_key em_canonical_model models;
            alias_keys = set (map ad_alias (alias_drafts drafts))
        in and_then (try_map (check_alias alias_keys models) (alias_drafts drafts)) (\<lambda>aliases.
           Inr (from_validated sha256 models (sort_key ar_alias aliases) (length drafts))))))"

section \<open>The engine\<close>

datatype rule_source = Source_Embedded | Source_Override

record resolved_price_rule =
  rs_canonical_model :: string
  rs_rates :: price_rates
  rs_source :: rule_source
  rs_assumed_standard :: bool

record pricing_engine =
  pe_overrides :: override_snapshot

definition pricing_engine_embedded :: "(u8 list \<Rightarrow> digest) \<Rightarrow> pricing_engine" where
  "pricing_engine_embedded sha256 = \<lparr> pe_overrides = override_snapshot_empty sha256 \<rparr>"

definition select_effective_rates ::
  "effective_model_rule \<Rightarrow> service_tier \<Rightarrow> context_class \<Rightarrow> price_error + price_rates" where
  "select_effective_rates rule tier context =
     (case (tier, context) of
        (UnknownTier, _) \<Rightarrow> Inl TierUnknown
      | (_, Context_Unavailable) \<Rightarrow> Inl ContextUnavailable
      | (StandardReported, Context_Short) \<Rightarrow> Inr (em_standard_short rule)
      | (StandardAssumed, Context_Short) \<Rightarrow> Inr (em_standard_short rule)
      | (StandardReported, Context_Long) \<Rightarrow> ok_or TierContextUnsupported (em_standard_long rule)
      | (StandardAssumed, Context_Long) \<Rightarrow> ok_or TierContextUnsupported (em_standard_long rule)
      | (Priority, Context_Short) \<Rightarrow> ok_or TierContextUnsupported (em_priority_short rule)
      | (Priority, Context_Long) \<Rightarrow> ok_or TierContextUnsupported (em_priority_long rule))"

definition engine_canonical_model :: "pricing_engine \<Rightarrow> string \<Rightarrow> string" where
  "engine_canonical_model self model =
     (let aliases = os_aliases (pe_overrides self);
          canonical_model =
            (case binary_search_by (\<lambda>alias. cmp (ar_alias alias) model) aliases of
               Inr index \<Rightarrow> ar_target (aliases ! index) | Inl _ \<Rightarrow> model)
      in case embedded_alias_target canonical_model of
           Some target \<Rightarrow> target | None \<Rightarrow> canonical_model)"

definition engine_resolve ::
  "pricing_engine \<Rightarrow> string \<Rightarrow> service_tier \<Rightarrow> context_class \<Rightarrow> price_error + resolved_price_rule" where
  "engine_resolve self model tier context =
     (let canonical_model = engine_canonical_model self model;
          models = os_models (pe_overrides self)
      in case binary_search_by (\<lambda>rule. cmp (em_canonical_model rule) canonical_model) models of
           Inr index \<Rightarrow>
             (let rule = models ! index
              in and_then (select_effective_rates rule tier context) (\<lambda>rates.
                 Inr \<lparr> rs_canonical_model = em_canonical_model rule, rs_rates = rates,
                       rs_source = Source_Override, rs_assumed_standard = (tier = StandardAssumed) \<rparr>))
         | Inl _ \<Rightarrow>
             and_then (ok_or ModelUnpriced (embedded_rule canonical_model)) (\<lambda>rule.
             and_then (select_rule_rates rule tier context) (\<lambda>rates.
             Inr \<lparr> rs_canonical_model = mr_canonical_model rule, rs_rates = rates,
                   rs_source = Source_Embedded, rs_assumed_standard = (tier = StandardAssumed) \<rparr>)))"

record engine_quote =
  eq_amount :: usd_micros
  eq_canonical_model :: string
  eq_source :: rule_source
  eq_override_revision :: digest

definition engine_price ::
  "pricing_engine \<Rightarrow> string \<Rightarrow> service_tier \<Rightarrow> context_class \<Rightarrow> token_price_basis
     \<Rightarrow> price_error + engine_quote" where
  "engine_price self model tier context basis =
     and_then (engine_resolve self model tier context) (\<lambda>resolved.
     and_then (calculate_cost (rs_rates resolved) basis) (\<lambda>amount.
     Inr \<lparr> eq_amount = amount, eq_canonical_model = rs_canonical_model resolved,
           eq_source = rs_source resolved,
           eq_override_revision = os_revision (pe_overrides self) \<rparr>))"


section \<open>The embedded catalogue is unambiguous\<close>

definition rule_names :: "model_rule \<Rightarrow> string list" where
  "rule_names rule = mr_canonical_model rule # mr_aliases rule"

lemma catalog_names_distinct: "distinct (concat (map rule_names CATALOG))"
  by code_simp

lemma rule_of_name_unique:
  "distinct (concat (map rule_names rules)) \<Longrightarrow> r \<in> set rules \<Longrightarrow> r' \<in> set rules \<Longrightarrow>
   n \<in> set (rule_names r) \<Longrightarrow> n \<in> set (rule_names r') \<Longrightarrow> r = r'"
  by (induction rules) auto

lemmas catalog_name_unique = rule_of_name_unique [OF catalog_names_distinct]

lemma find_unique:
  assumes "x \<in> set xs" "P x" "\<And>y. y \<in> set xs \<Longrightarrow> P y \<Longrightarrow> y = x"
  shows "find P xs = Some x"
proof (cases "find P xs")
  case None
  with assms(1,2) show ?thesis by (auto simp: find_None_iff)
next
  case (Some y)
  then have "y \<in> set xs" "P y" by (auto simp: find_Some_iff)
  with assms(3) Some show ?thesis by simp
qed

lemma embedded_rule_canonical: "r \<in> set CATALOG \<Longrightarrow> embedded_rule (mr_canonical_model r) = Some r"
  unfolding embedded_rule_def
  by (rule find_unique) (auto intro: catalog_name_unique [of _ r "mr_canonical_model r"] simp: rule_names_def)

lemma embedded_rule_SomeD: "embedded_rule m = Some r \<Longrightarrow> r \<in> set CATALOG \<and> mr_canonical_model r = m"
  by (auto simp: embedded_rule_def find_Some_iff)

lemma embedded_alias_target_Some_iff:
  "embedded_alias_target m = Some t \<longleftrightarrow>
     (\<exists>r \<in> set CATALOG. m \<in> set (mr_aliases r) \<and> t = mr_canonical_model r)"
proof
  assume "\<exists>r \<in> set CATALOG. m \<in> set (mr_aliases r) \<and> t = mr_canonical_model r"
  then obtain r where r: "r \<in> set CATALOG" "m \<in> set (mr_aliases r)" "t = mr_canonical_model r" by blast
  have "find (\<lambda>rule. m \<in> set (mr_aliases rule)) CATALOG = Some r"
    using r by (intro find_unique) (auto intro: catalog_name_unique [of _ r m] simp: rule_names_def)
  with r show "embedded_alias_target m = Some t" by (simp add: embedded_alias_target_def)
qed (auto simp: embedded_alias_target_def find_Some_iff)

lemma embedded_alias_target_canonical:
  "r \<in> set CATALOG \<Longrightarrow> embedded_alias_target (mr_canonical_model r) = None"
proof (rule ccontr)
  assume r: "r \<in> set CATALOG" and "embedded_alias_target (mr_canonical_model r) \<noteq> None"
  then obtain r' where r': "r' \<in> set CATALOG" "mr_canonical_model r \<in> set (mr_aliases r')"
    using embedded_alias_target_Some_iff by blast
  then have "r = r'"
    using r by (intro catalog_name_unique [of r r' "mr_canonical_model r"]) (auto simp: rule_names_def)
  moreover have "distinct (rule_names r)"
    using catalog_names_distinct r by (auto simp: distinct_concat_iff)
  ultimately show False using r' by (simp add: rule_names_def)
qed

text \<open>One scan for name or alias finds the rule that alias resolution followed by a name scan finds.\<close>

lemma catalog_scan_eq:
  "find (\<lambda>rule. mr_canonical_model rule = m \<or> m \<in> set (mr_aliases rule)) CATALOG =
   embedded_rule (case embedded_alias_target m of Some t \<Rightarrow> t | None \<Rightarrow> m)"
proof (cases "embedded_alias_target m")
  case (Some t)
  then obtain r where r: "r \<in> set CATALOG" "m \<in> set (mr_aliases r)" "t = mr_canonical_model r"
    by (auto simp: embedded_alias_target_Some_iff)
  have "find (\<lambda>rule. mr_canonical_model rule = m \<or> m \<in> set (mr_aliases rule)) CATALOG = Some r"
    using r by (intro find_unique) (auto intro: catalog_name_unique [of _ r m] simp: rule_names_def)
  with r Some show ?thesis by (simp add: embedded_rule_canonical)
next
  case None
  then have "\<forall>rule \<in> set CATALOG. m \<notin> set (mr_aliases rule)"
    using embedded_alias_target_Some_iff [of m] by auto
  then have "find (\<lambda>rule. mr_canonical_model rule = m \<or> m \<in> set (mr_aliases rule)) CATALOG =
      find (\<lambda>rule. mr_canonical_model rule = m) CATALOG"
    by (intro find_cong) auto
  with None show ?thesis by (simp add: embedded_rule_def)
qed

text \<open>
  C24. The two ways to price a model agree: an engine without overrides and the embedded catalogue
  give, for every model name or alias, tier, context and token basis, the same amount under the
  same canonical name, or the same error, and the engine names the catalogue as its source.
\<close>

theorem embedded_engine_agrees:
  "map_sum id (\<lambda>q. (eq_amount q, eq_canonical_model q, eq_source q))
     (engine_price (pricing_engine_embedded sha256) model tier context basis) =
   map_sum id (\<lambda>q. (pq_amount q, pq_canonical_model q, Source_Embedded))
     (embedded_catalog_price model tier context basis)"
proof -
  let ?e = "pricing_engine_embedded sha256"
  let ?m = "case embedded_alias_target model of Some t \<Rightarrow> t | None \<Rightarrow> model"
  have "engine_canonical_model ?e model = ?m"
    by (simp add: engine_canonical_model_def pricing_engine_embedded_def override_snapshot_empty_def
        from_validated_def binary_search_by_def)
  then have "engine_resolve ?e model tier context =
      and_then (ok_or ModelUnpriced (embedded_rule ?m)) (\<lambda>rule.
      and_then (select_rule_rates rule tier context) (\<lambda>rates.
      Inr \<lparr> rs_canonical_model = mr_canonical_model rule, rs_rates = rates,
            rs_source = Source_Embedded, rs_assumed_standard = (tier = StandardAssumed) \<rparr>))"
    by (simp add: engine_resolve_def pricing_engine_embedded_def override_snapshot_empty_def
        from_validated_def binary_search_by_def)
  then show ?thesis
    unfolding engine_price_def embedded_catalog_price_def catalog_scan_eq
    by (simp add: and_then_def ok_or_def split: sum.split option.split)
qed


section \<open>What a successful build guarantees\<close>

definition draft_ok :: "override_draft \<Rightarrow> bool" where
  "draft_ok draft \<longleftrightarrow> is_valid_model_key (override_draft_key draft) \<and>
     embedded_alias_target (override_draft_key draft) = None \<and>
     (case draft of ModelDraft _ \<Rightarrow> True
      | AliasDraft alias \<Rightarrow> embedded_rule (ad_alias alias) = None \<and> is_valid_model_key (ad_target alias))"

lemma check_draft_Inr_iff:
  "check_draft keys draft = Inr keys' \<longleftrightarrow> draft_ok draft \<and> override_draft_key draft \<notin> keys \<and>
     keys' = insert (override_draft_key draft) keys"
  by (cases draft) (auto simp: check_draft_def draft_ok_def Let_def)

lemma check_drafts_ok:
  "try_fold check_draft keys drafts = Inr keys' \<Longrightarrow>
     distinct (map override_draft_key drafts) \<and> set (map override_draft_key drafts) \<inter> keys = {} \<and>
     list_all draft_ok drafts"
  by (induction drafts arbitrary: keys) (auto simp: result_simps check_draft_Inr_iff)

lemma model_drafts_simps [simp]:
  "model_drafts [] = []"
  "model_drafts (ModelDraft d # ds) = d # model_drafts ds"
  "model_drafts (AliasDraft a # ds) = model_drafts ds"
  by (simp_all add: model_drafts_def List.map_filter_simps)

lemma alias_drafts_simps [simp]:
  "alias_drafts [] = []"
  "alias_drafts (ModelDraft d # ds) = alias_drafts ds"
  "alias_drafts (AliasDraft a # ds) = a # alias_drafts ds"
  by (simp_all add: alias_drafts_def List.map_filter_simps)

lemma draft_in_model_drafts: "d \<in> set (model_drafts ds) \<longleftrightarrow> ModelDraft d \<in> set ds"
proof (induction ds)
  case (Cons x ds)
  then show ?case by (cases x) auto
qed simp

lemma draft_in_alias_drafts: "d \<in> set (alias_drafts ds) \<longleftrightarrow> AliasDraft d \<in> set ds"
proof (induction ds)
  case (Cons x ds)
  then show ?case by (cases x) auto
qed simp

lemma distinct_draft_keys:
  "distinct (map override_draft_key ds) \<Longrightarrow>
     distinct (map md_model (model_drafts ds)) \<and> distinct (map ad_alias (alias_drafts ds))"
proof (induction ds)
  case (Cons x ds)
  have "md_model ` set (model_drafts ds) \<subseteq> override_draft_key ` set ds"
    and "ad_alias ` set (alias_drafts ds) \<subseteq> override_draft_key ` set ds"
    by (force simp: draft_in_model_drafts draft_in_alias_drafts)+
  with Cons show ?case by (cases x) auto
qed simp

lemma effective_rule_name: "effective_rule d = Inr rule \<Longrightarrow> em_canonical_model rule = md_model d"
  by (auto simp: effective_rule_def Let_def result_simps)

lemma check_alias_name:
  "check_alias keys models d = Inr rule \<Longrightarrow> ar_alias rule = ad_alias d \<and> ar_target rule = ad_target d \<and>
     ad_target d \<notin> keys \<and> embedded_alias_target (ad_target d) = None"
  by (auto simp: check_alias_def split: if_splits)

lemma list_all2_map_eq:
  "list_all2 R xs ys \<Longrightarrow> (\<And>x y. R x y \<Longrightarrow> f x = g y) \<Longrightarrow> map f xs = map g ys"
  by (induction xs ys rule: list_all2_induct) auto

lemma list_all2_set2D: "list_all2 R xs ys \<Longrightarrow> y \<in> set ys \<Longrightarrow> \<exists>x \<in> set xs. R x y"
  by (induction xs ys rule: list_all2_induct) auto

lemma find_list_all2:
  "list_all2 R xs ys \<Longrightarrow> (\<And>x y. R x y \<Longrightarrow> f x = g y) \<Longrightarrow>
   rel_option R (find (\<lambda>x. f x = k) xs) (find (\<lambda>y. g y = k) ys)"
  by (induction xs ys rule: list_all2_induct) auto

text \<open>Looking up the sorted table by binary search is a scan of the list it was sorted from.\<close>

lemma sorted_table_lookup:
  fixes f :: "'a \<Rightarrow> 'b::linorder"
  assumes "distinct (map f xs)"
  shows "(case binary_search_by (\<lambda>x. cmp (f x) k) (sort_key f xs) of
            Inr i \<Rightarrow> Some (sort_key f xs ! i) | Inl _ \<Rightarrow> None) = find (\<lambda>x. f x = k) xs"
proof -
  have d: "distinct (map f (sort_key f xs))"
    using sort_key_strict [OF assms] by (simp add: sorted_wrt_less_iff)
  show ?thesis
    unfolding binary_search_find [OF sort_key_strict [OF assms]]
    by (rule find_distinct_perm) (use assms d in simp_all)
qed

definition build_parts ::
  "override_draft list \<Rightarrow> effective_model_rule list \<Rightarrow> alias_rule list \<Rightarrow> bool" where
  "build_parts drafts models aliases \<longleftrightarrow>
     list_all draft_ok drafts \<and> distinct (map override_draft_key drafts) \<and>
     list_all2 (\<lambda>d rule. effective_rule d = Inr rule) (model_drafts drafts) models \<and>
     list_all2 (\<lambda>d rule. check_alias (set (map ad_alias (alias_drafts drafts)))
         (sort_key em_canonical_model models) d = Inr rule) (alias_drafts drafts) aliases"

lemma build_partsE:
  assumes "override_snapshot_build sha256 drafts = Inr s"
  obtains models aliases where "build_parts drafts models aliases"
    "s = from_validated sha256 (sort_key em_canonical_model models) (sort_key ar_alias aliases)
       (length drafts)"
  using assms
  by (auto simp: override_snapshot_build_def result_simps Let_def try_map_Inr_iff build_parts_def
      dest!: check_drafts_ok)

lemma build_parts_alias:
  assumes "build_parts drafts models aliases"
  shows "list_all2 (\<lambda>d rule. ad_alias d = ar_alias rule \<and> ad_target d = ar_target rule \<and>
     ad_target d \<notin> ad_alias ` set (alias_drafts drafts) \<and>
     embedded_alias_target (ad_target d) = None) (alias_drafts drafts) aliases"
proof -
  from assms have "list_all2 (\<lambda>d rule. check_alias (set (map ad_alias (alias_drafts drafts)))
         (sort_key em_canonical_model models) d = Inr rule) (alias_drafts drafts) aliases"
    by (simp add: build_parts_def)
  then show ?thesis by (rule list_all2_mono) (drule check_alias_name, simp)
qed

lemma build_parts_names:
  assumes "build_parts drafts models aliases"
  shows "map em_canonical_model models = map md_model (model_drafts drafts)"
    and "map ar_alias aliases = map ad_alias (alias_drafts drafts)"
    and "distinct (map em_canonical_model models)" and "distinct (map ar_alias aliases)"
proof -
  show m: "map em_canonical_model models = map md_model (model_drafts drafts)"
    using assms list_all2_map_eq [of _ "model_drafts drafts" models md_model em_canonical_model]
    by (auto simp: build_parts_def effective_rule_name)
  show a: "map ar_alias aliases = map ad_alias (alias_drafts drafts)"
    using list_all2_map_eq [OF build_parts_alias [OF assms], of ad_alias ar_alias] by simp
  from assms distinct_draft_keys show "distinct (map em_canonical_model models)"
    and "distinct (map ar_alias aliases)"
    unfolding m a by (auto simp: build_parts_def)
qed

section \<open>Resolution against a reference\<close>

text \<open>The reference: scan the drafts for the alias, then for the model, then use the catalogue.\<close>

definition reference_target :: "override_draft list \<Rightarrow> string \<Rightarrow> string" where
  "reference_target drafts model =
     (case find (\<lambda>d. ad_alias d = model) (alias_drafts drafts) of
        Some d \<Rightarrow> ad_target d
      | None \<Rightarrow> (case embedded_alias_target model of Some t \<Rightarrow> t | None \<Rightarrow> model))"

definition reference_rule :: "override_draft list \<Rightarrow> string \<Rightarrow> effective_model_rule option" where
  "reference_rule drafts model =
     Option.bind (find (\<lambda>d. md_model d = model) (model_drafts drafts))
       (\<lambda>d. case effective_rule d of Inr rule \<Rightarrow> Some rule | Inl _ \<Rightarrow> None)"

definition reference_resolve ::
  "override_draft list \<Rightarrow> string \<Rightarrow> service_tier \<Rightarrow> context_class \<Rightarrow> price_error + resolved_price_rule" where
  "reference_resolve drafts model tier context =
     (let name = reference_target drafts model
      in case reference_rule drafts name of
           Some rule \<Rightarrow>
             map_sum id (\<lambda>rates. \<lparr> rs_canonical_model = name, rs_rates = rates,
               rs_source = Source_Override, rs_assumed_standard = (tier = StandardAssumed) \<rparr>)
               (select_effective_rates rule tier context)
         | None \<Rightarrow>
             (case embedded_rule name of
                None \<Rightarrow> Inl ModelUnpriced
              | Some rule \<Rightarrow>
                  map_sum id (\<lambda>rates. \<lparr> rs_canonical_model = name, rs_rates = rates,
                    rs_source = Source_Embedded, rs_assumed_standard = (tier = StandardAssumed) \<rparr>)
                    (select_rule_rates rule tier context)))"

lemma engine_target_eq:
  assumes "build_parts drafts models aliases"
    and "s = from_validated sha256 (sort_key em_canonical_model models) (sort_key ar_alias aliases) n"
  shows "engine_canonical_model \<lparr> pe_overrides = s \<rparr> model = reference_target drafts model"
proof -
  note look = sorted_table_lookup [OF build_parts_names(4) [OF assms(1)], of model]
  have rel: "rel_option (\<lambda>d rule. ad_target d = ar_target rule \<and> embedded_alias_target (ad_target d) = None)
      (find (\<lambda>d. ad_alias d = model) (alias_drafts drafts)) (find (\<lambda>r. ar_alias r = model) aliases)"
    by (rule option.rel_mono_strong [OF find_list_all2 [OF build_parts_alias [OF assms(1)]]]) auto
  have "engine_canonical_model \<lparr> pe_overrides = s \<rparr> model =
      (let c = (case find (\<lambda>r. ar_alias r = model) aliases of Some r \<Rightarrow> ar_target r | None \<Rightarrow> model)
       in case embedded_alias_target c of Some t \<Rightarrow> t | None \<Rightarrow> c)"
    unfolding engine_canonical_model_def look [symmetric]
    by (simp add: assms(2) from_validated_def split: sum.split)
  with rel show ?thesis
    by (cases "find (\<lambda>r. ar_alias r = model) aliases";
        cases "find (\<lambda>d. ad_alias d = model) (alias_drafts drafts)")
      (simp_all add: reference_target_def)
qed

lemma engine_rule_eq:
  assumes "build_parts drafts models aliases"
  shows "(case binary_search_by (\<lambda>rule. cmp (em_canonical_model rule) name)
            (sort_key em_canonical_model models) of
            Inr i \<Rightarrow> Some (sort_key em_canonical_model models ! i) | Inl _ \<Rightarrow> None) =
         reference_rule drafts name"
proof -
  have "rel_option (\<lambda>d rule. effective_rule d = Inr rule)
      (find (\<lambda>d. md_model d = name) (model_drafts drafts)) (find (\<lambda>r. em_canonical_model r = name) models)"
    using assms by (intro find_list_all2) (auto simp: build_parts_def effective_rule_name)
  then show ?thesis
    unfolding sorted_table_lookup [OF build_parts_names(3) [OF assms]] reference_rule_def
    by (cases "find (\<lambda>r. em_canonical_model r = name) models";
        cases "find (\<lambda>d. md_model d = name) (model_drafts drafts)") simp_all
qed

lemma reference_rule_name: "reference_rule drafts name = Some rule \<Longrightarrow> em_canonical_model rule = name"
  by (cases "find (\<lambda>d. md_model d = name) (model_drafts drafts)")
    (auto simp: reference_rule_def find_Some_iff dest!: effective_rule_name split: sum.splits)

lemma engine_resolve_eq:
  assumes "build_parts drafts models aliases"
    and s: "s = from_validated sha256 (sort_key em_canonical_model models) (sort_key ar_alias aliases) n"
  shows "engine_resolve \<lparr> pe_overrides = s \<rparr> model tier context = reference_resolve drafts model tier context"
proof -
  let ?name = "reference_target drafts model"
  have "engine_resolve \<lparr> pe_overrides = s \<rparr> model tier context =
      (case reference_rule drafts ?name of
         Some rule \<Rightarrow> and_then (select_effective_rates rule tier context) (\<lambda>rates.
             Inr \<lparr> rs_canonical_model = em_canonical_model rule, rs_rates = rates,
                   rs_source = Source_Override, rs_assumed_standard = (tier = StandardAssumed) \<rparr>)
       | None \<Rightarrow> and_then (ok_or ModelUnpriced (embedded_rule ?name)) (\<lambda>rule.
             and_then (select_rule_rates rule tier context) (\<lambda>rates.
             Inr \<lparr> rs_canonical_model = mr_canonical_model rule, rs_rates = rates,
                   rs_source = Source_Embedded, rs_assumed_standard = (tier = StandardAssumed) \<rparr>)))"
    unfolding engine_resolve_def engine_target_eq [OF assms] engine_rule_eq [OF assms(1), symmetric]
    by (simp add: s from_validated_def Let_def split: sum.split)
  then show ?thesis
    by (auto simp: reference_resolve_def Let_def and_then_def dest: reference_rule_name embedded_rule_SomeD
        split: option.splits sum.splits)
qed

lemma reference_target_stable:
  assumes "build_parts drafts models aliases"
  shows "reference_target drafts (reference_target drafts model) = reference_target drafts model"
proof (cases "find (\<lambda>d. ad_alias d = model) (alias_drafts drafts)")
  case (Some d)
  then have d: "d \<in> set (alias_drafts drafts)" by (auto simp: find_Some_iff)
  from build_parts_alias [OF assms] d
  have t: "ad_target d \<notin> ad_alias ` set (alias_drafts drafts)" "embedded_alias_target (ad_target d) = None"
    by (auto simp: list_all2_conv_all_nth in_set_conv_nth)
  then have "find (\<lambda>d'. ad_alias d' = ad_target d) (alias_drafts drafts) = None"
    by (force simp: find_None_iff)
  with t(2) Some show ?thesis by (simp add: reference_target_def)
next
  case None
  show ?thesis
  proof (cases "embedded_alias_target model")
    case None
    with \<open>find _ _ = None\<close> show ?thesis by (simp add: reference_target_def)
  next
    case (Some t)
    then obtain r where r: "r \<in> set CATALOG" "t = mr_canonical_model r"
      by (auto simp: embedded_alias_target_Some_iff)
    have "ad_alias d \<noteq> t" if "d \<in> set (alias_drafts drafts)" for d
      using assms that r embedded_rule_canonical [OF r(1)]
      by (auto simp: build_parts_def list_all_iff draft_in_alias_drafts draft_ok_def dest!: bspec)
    then have "find (\<lambda>d. ad_alias d = t) (alias_drafts drafts) = None" by (auto simp: find_None_iff)
    with None Some r show ?thesis
      by (simp add: reference_target_def embedded_alias_target_canonical)
  qed
qed

text \<open>
  C17. Resolution through the sorted tables and binary searches equals the reference: for a snapshot
  built from drafts, every model name, tier and context resolves as a plain scan of the drafts says
  (alias draft, else catalogue alias; model draft merged with the catalogue rule, else the catalogue
  rule), with the same error otherwise.  Aliases resolve in one hop: resolving a resolved name gives
  the name itself.
\<close>

theorem override_resolution:
  assumes "override_snapshot_build sha256 drafts = Inr s"
  shows "engine_resolve \<lparr> pe_overrides = s \<rparr> model tier context =
           reference_resolve drafts model tier context \<and>
         engine_canonical_model \<lparr> pe_overrides = s \<rparr> (engine_canonical_model \<lparr> pe_overrides = s \<rparr> model) =
           engine_canonical_model \<lparr> pe_overrides = s \<rparr> model"
proof -
  from assms obtain models aliases where b: "build_parts drafts models aliases"
    "s = from_validated sha256 (sort_key em_canonical_model models) (sort_key ar_alias aliases)
       (length drafts)"
    by (rule build_partsE)
  show ?thesis
    using engine_resolve_eq [OF b] engine_target_eq [OF b] reference_target_stable [OF b(1)] by simp
qed


definition sample_patch :: price_rates_override where
  "sample_patch = \<lparr> po_uncached_input = Some 7, po_cached_input = None, po_billable_output = None \<rparr>"

definition sample_drafts :: "override_draft list" where
  "sample_drafts =
     [AliasDraft \<lparr> ad_alias = ''mine'', ad_target = ''gpt-5'' \<rparr>,
      ModelDraft \<lparr> md_model = ''gpt-5'', md_standard_short = Some sample_patch,
        md_standard_long = None, md_priority_short = None, md_priority_long = None \<rparr>]"

lemma sample_build:
  "override_snapshot_build id sample_drafts =
     Inr (from_validated id
       [\<lparr> em_canonical_model = ''gpt-5'', em_standard_short = rates_of 7 125000 10000000,
          em_standard_long = None, em_priority_short = Some (rates_of 2500000 250000 20000000),
          em_priority_long = None \<rparr>]
       [\<lparr> ar_alias = ''mine'', ar_target = ''gpt-5'' \<rparr>] 2)"
  by code_simp

theorem override_resolution_witness:
  "\<exists>s. override_snapshot_build id sample_drafts = Inr s \<and>
     engine_resolve \<lparr> pe_overrides = s \<rparr> ''mine'' StandardAssumed Context_Short =
       Inr \<lparr> rs_canonical_model = ''gpt-5'', rs_rates = rates_of 7 125000 10000000,
             rs_source = Source_Override, rs_assumed_standard = True \<rparr>"
proof -
  have "reference_resolve sample_drafts ''mine'' StandardAssumed Context_Short =
      Inr \<lparr> rs_canonical_model = ''gpt-5'', rs_rates = rates_of 7 125000 10000000,
            rs_source = Source_Override, rs_assumed_standard = True \<rparr>"
    by code_simp
  with override_resolution [OF sample_build, of "''mine''" StandardAssumed Context_Short] sample_build
  show ?thesis by auto
qed

section \<open>The revision identifies the overrides\<close>

definition name_ok :: "string \<Rightarrow> bool" where
  "name_ok v \<longleftrightarrow> length v < 256"

lemma hash_string_append: "hash_string h v = h @ hash_string [] v"
  by (simp add: hash_string_def)

lemma hash_rates_append: "hash_rates h r = h @ hash_rates [] r"
  by (simp add: hash_rates_def split: option.split)

interpretation name_code: prefix_code "hash_string []" name_ok
proof unfold_locales
  fix x y :: string and r s
  assume ok: "name_ok x" "name_ok y" and eq: "hash_string [] x @ r = hash_string [] y @ s"
  then have "(word_of_nat (length x) :: u8) = word_of_nat (length y)" "bytes_of x @ r = bytes_of y @ s"
    by (simp_all add: hash_string_def)
  moreover from this(1) have "unat (word_of_nat (length x) :: u8) = unat (word_of_nat (length y) :: u8)"
    by simp
  then have "length x = length y"
    using ok by (simp add: name_ok_def unat_of_nat take_bit_nat_eq_self_iff)
  ultimately show "x = y \<and> r = s" by simp
qed

interpretation rates_code: prefix_code "hash_rates []" "\<lambda>_. True"
proof unfold_locales
  fix x y :: "price_rates option" and r s
  assume eq: "hash_rates [] x @ r = hash_rates [] y @ s"
  show "x = y \<and> r = s"
  proof (cases x)
    case None
    with eq show ?thesis by (cases y) (simp_all add: hash_rates_def)
  next
    case (Some a)
    with eq obtain b where b: "y = Some b" by (cases y) (simp_all add: hash_rates_def)
    from eq have e: "le_bytes (pr_uncached_input a) @ le_bytes (pr_cached_input a) @ le_bytes (pr_billable_output a) @ r =
        le_bytes (pr_uncached_input b) @ le_bytes (pr_cached_input b) @ le_bytes (pr_billable_output b) @ s"
      by (simp add: Some b hash_rates_def)
    from le64.cut [OF TrueI TrueI e] have 1: "pr_uncached_input a = pr_uncached_input b" and
      e2: "le_bytes (pr_cached_input a) @ le_bytes (pr_billable_output a) @ r =
        le_bytes (pr_cached_input b) @ le_bytes (pr_billable_output b) @ s" by simp_all
    from le64.cut [OF TrueI TrueI e2] have 2: "pr_cached_input a = pr_cached_input b" and
      e3: "le_bytes (pr_billable_output a) @ r = le_bytes (pr_billable_output b) @ s" by simp_all
    from le64.cut [OF TrueI TrueI e3] 1 2 show ?thesis by (simp add: Some b)
  qed
qed

text \<open>One entry of the message: a model rule or an alias, with its tag.\<close>

fun hash_entry :: "effective_model_rule + alias_rule \<Rightarrow> u8 list" where
  "hash_entry (Inl rule) = hash_model [] rule"
| "hash_entry (Inr alias) = hash_alias [] alias"

fun entry_ok :: "effective_model_rule + alias_rule \<Rightarrow> bool" where
  "entry_ok (Inl rule) = name_ok (em_canonical_model rule)"
| "entry_ok (Inr alias) \<longleftrightarrow> name_ok (ar_alias alias) \<and> name_ok (ar_target alias)"

lemma hash_model_split:
  "hash_model h rule = h @ (bytes_of ''model'' @ [0]) @ hash_string [] (em_canonical_model rule) @
     hash_rates [] (Some (em_standard_short rule)) @ hash_rates [] (em_standard_long rule) @
     hash_rates [] (em_priority_short rule) @ hash_rates [] (em_priority_long rule)"
  unfolding hash_model_def Let_def
  by (simp add: hash_rates_append [of "_ @ _"] hash_string_append [of "_ @ _"])

lemma hash_alias_split:
  "hash_alias h alias = h @ (bytes_of ''alias'' @ [0]) @ hash_string [] (ar_alias alias) @
     hash_string [] (ar_target alias)"
  unfolding hash_alias_def Let_def
  by (simp add: hash_string_append [of "_ @ _"])

lemma model_alias_tags_differ:
  "(bytes_of ''model'' @ [0]) @ r \<noteq> (bytes_of ''alias'' @ [0]) @ s"
proof
  assume "(bytes_of ''model'' @ [0]) @ r = (bytes_of ''alias'' @ [0]) @ s"
  then have "bytes_of ''model'' = bytes_of ''alias''" by (simp add: append_eq_append_conv)
  then show False by simp
qed

lemma hash_model_cut:
  assumes "name_ok (em_canonical_model x)" "name_ok (em_canonical_model y)"
    and "hash_model [] x @ r = hash_model [] y @ s"
  shows "x = y \<and> r = s"
proof -
  from assms(3) have e: "hash_string [] (em_canonical_model x) @
     hash_rates [] (Some (em_standard_short x)) @ hash_rates [] (em_standard_long x) @
     hash_rates [] (em_priority_short x) @ hash_rates [] (em_priority_long x) @ r =
     hash_string [] (em_canonical_model y) @
     hash_rates [] (Some (em_standard_short y)) @ hash_rates [] (em_standard_long y) @
     hash_rates [] (em_priority_short y) @ hash_rates [] (em_priority_long y) @ s"
    by (simp add: hash_model_split)
  note c1 = name_code.cut [OF assms(1,2) e]
  note c2 = rates_code.cut [OF TrueI TrueI c1 [THEN conjunct2]]
  note c3 = rates_code.cut [OF TrueI TrueI c2 [THEN conjunct2]]
  note c4 = rates_code.cut [OF TrueI TrueI c3 [THEN conjunct2]]
  note c5 = rates_code.cut [OF TrueI TrueI c4 [THEN conjunct2]]
  show ?thesis using c1 c2 c3 c4 c5 by (cases x; cases y) simp
qed

lemma hash_alias_cut:
  assumes "name_ok (ar_alias x)" "name_ok (ar_target x)" "name_ok (ar_alias y)" "name_ok (ar_target y)"
    and "hash_alias [] x @ r = hash_alias [] y @ s"
  shows "x = y \<and> r = s"
proof -
  from assms(5) have e: "hash_string [] (ar_alias x) @ hash_string [] (ar_target x) @ r =
      hash_string [] (ar_alias y) @ hash_string [] (ar_target y) @ s"
    by (simp add: hash_alias_split)
  note c1 = name_code.cut [OF assms(1,3) e]
  note c2 = name_code.cut [OF assms(2,4) c1 [THEN conjunct2]]
  show ?thesis using c1 c2 by (cases x; cases y) simp
qed

interpretation entry_code: prefix_code_nonempty hash_entry entry_ok
proof unfold_locales
  fix x y :: "effective_model_rule + alias_rule" and r s
  assume ok: "entry_ok x" "entry_ok y" and eq: "hash_entry x @ r = hash_entry y @ s"
  have ne: "hash_model [] a @ u = hash_alias [] b @ v \<longleftrightarrow> False" for a b u v
    using model_alias_tags_differ by (simp add: hash_model_split hash_alias_split)
  have ne': "hash_alias [] b @ v = hash_model [] a @ u \<longleftrightarrow> False" for a b u v
    using ne [of a u b v] by metis
  show "x = y \<and> r = s"
  proof (cases x)
    case (Inl a)
    then obtain b where "y = Inl b" using eq by (cases y) (simp_all add: ne)
    with Inl hash_model_cut [of a b r s] ok eq show ?thesis by simp
  next
    case (Inr a)
    then obtain b where "y = Inr b" using eq by (cases y) (simp_all add: ne')
    with Inr hash_alias_cut [of a b r s] ok eq show ?thesis by simp
  qed
next
  show "hash_entry x \<noteq> []" for x
    by (cases x) (simp_all add: hash_model_split hash_alias_split)
qed

lemma revision_message_entries:
  "revision_message models aliases =
     REVISION_DOMAIN @ concat (map hash_entry (map Inl models @ map Inr aliases))"
proof -
  have m: "foldl hash_model h models = h @ concat (map (hash_entry \<circ> Inl) models)" for h
    by (induction models arbitrary: h) (simp_all add: hash_model_split)
  have a: "foldl hash_alias h aliases = h @ concat (map (hash_entry \<circ> Inr) aliases)" for h
    by (induction aliases arbitrary: h) (simp_all add: hash_alias_split)
  show ?thesis by (simp add: revision_message_def m a)
qed

lemma tagged_lists_eqD:
  "map Inl xs @ map Inr ys = map Inl xs' @ map Inr ys' \<Longrightarrow> xs = xs' \<and> ys = ys'"
proof (induction xs arbitrary: xs')
  case Nil
  then show ?case by (cases xs'; cases ys) (auto simp: inj_map_eq_map)
next
  case (Cons x xs)
  then show ?case by (cases xs'; cases ys') auto
qed

definition snapshot_names_ok :: "override_snapshot \<Rightarrow> bool" where
  "snapshot_names_ok s \<longleftrightarrow> list_all entry_ok (map Inl (os_models s) @ map Inr (os_aliases s))"

lemma valid_key_name_ok: "is_valid_model_key v \<Longrightarrow> name_ok v"
  by (simp add: is_valid_model_key_def name_ok_def MAX_OVERRIDE_MODEL_BYTES_def)

lemma build_names_ok:
  assumes "override_snapshot_build sha256 drafts = Inr s"
  shows "snapshot_names_ok s"
proof -
  from assms obtain models aliases where b: "build_parts drafts models aliases"
    "s = from_validated sha256 (sort_key em_canonical_model models) (sort_key ar_alias aliases)
       (length drafts)"
    by (rule build_partsE)
  have ok: "list_all draft_ok drafts" using b(1) by (simp add: build_parts_def)
  have "name_ok (em_canonical_model r)" if "r \<in> set models" for r
  proof -
    have "list_all2 (\<lambda>d rule. effective_rule d = Inr rule) (model_drafts drafts) models"
      using b(1) by (simp add: build_parts_def)
    from list_all2_set2D [OF this that] obtain d where d: "ModelDraft d \<in> set drafts" "effective_rule d = Inr r"
      by (auto simp: draft_in_model_drafts)
    with ok have "draft_ok (ModelDraft d)" by (simp add: list_all_iff)
    with effective_rule_name [OF d(2)] show ?thesis by (simp add: draft_ok_def valid_key_name_ok)
  qed
  moreover have "name_ok (ar_alias r) \<and> name_ok (ar_target r)" if "r \<in> set aliases" for r
  proof -
    from list_all2_set2D [OF build_parts_alias [OF b(1)] that]
    obtain d where d: "AliasDraft d \<in> set drafts" "ad_alias d = ar_alias r" "ad_target d = ar_target r"
      by (auto simp: draft_in_alias_drafts)
    with ok have "draft_ok (AliasDraft d)" by (simp add: list_all_iff)
    with d show ?thesis by (simp add: draft_ok_def valid_key_name_ok)
  qed
  ultimately show ?thesis by (auto simp: snapshot_names_ok_def b(2) from_validated_def list_all_iff)
qed

text \<open>
  C23. The revision identifies the effective overrides: two snapshots built from drafts have the same
  revision exactly when their model rules and their aliases are the same.  The tags, the length
  bytes and the fixed-width rates make the hashed message unambiguous, so only a SHA-256 collision
  of the two messages, which the hypothesis excludes, could identify different overrides.
\<close>

theorem override_revision_identity:
  assumes "override_snapshot_build sha256 drafts = Inr s"
    and "override_snapshot_build sha256 drafts' = Inr s'"
    and collision_free: "inj_on sha256 {revision_message (os_models s) (os_aliases s),
           revision_message (os_models s') (os_aliases s')}"
  shows "os_revision s = os_revision s' \<longleftrightarrow>
    os_models s = os_models s' \<and> os_aliases s = os_aliases s'"
proof -
  have rev: "os_revision s = sha256 (revision_message (os_models s) (os_aliases s))"
    "os_revision s' = sha256 (revision_message (os_models s') (os_aliases s'))"
    using assms(1,2) by (auto elim!: build_partsE simp: from_validated_def revision_for_def)
  have "os_models s = os_models s' \<and> os_aliases s = os_aliases s'" if "os_revision s = os_revision s'"
  proof -
    have "revision_message (os_models s) (os_aliases s) = revision_message (os_models s') (os_aliases s')"
      using that collision_free by (simp add: rev inj_on_eq_iff)
    then have "map Inl (os_models s) @ map Inr (os_aliases s) = map Inl (os_models s') @ map Inr (os_aliases s')"
      using build_names_ok [OF assms(1)] build_names_ok [OF assms(2)]
      by (intro entry_code.sequence_eqD) (simp_all only: snapshot_names_ok_def revision_message_entries same_append_eq)
    then show ?thesis by (rule tagged_lists_eqD)
  qed
  then show ?thesis by (auto simp: rev)
qed

theorem override_revision_identity_witness:
  "\<exists>s s'. override_snapshot_build id sample_drafts = Inr s \<and>
     override_snapshot_build id [] = Inr s' \<and> os_revision s \<noteq> os_revision s'"
proof -
  have e: "override_snapshot_build id [] = Inr (from_validated id [] [] 0)"
    by (simp add: override_snapshot_build_def MAX_OVERRIDE_ENTRIES_def)
  have "inj_on id A" for A :: "u8 list set" by simp
  from override_revision_identity [OF sample_build e this] sample_build e
  show ?thesis by (auto simp: from_validated_def)
qed

end
