(* ===== verification/CostSelection.thy ===== *)
theory CostSelection
  imports PriceOverrides "HOL-Library.Option_ord"
begin

text \<open>
  The cost of a set of usage rows, from \<open>crates/pricing/src/selection.rs\<close>: per row the choice
  between reported and calculated cost, the seven event counters, one rounding at the end, and
  the sorted, deduplicated and capped list of what is missing.

  The results: when the selection succeeds at all, that its counters account for every event,
  and that the amount is the exact sum rounded once.
\<close>

section \<open>Values\<close>

definition MAX_PRICE_BASIS_ROWS :: nat where "MAX_PRICE_BASIS_ROWS = 512"
definition MAX_MISSING_COST_DETAILS :: nat where "MAX_MISSING_COST_DETAILS = 32"

datatype cost_mode = Mode_Auto | Mode_Calculated | Mode_Reported

datatype cost_availability =
  Availability_Complete | Availability_Partial | Availability_Unavailable | Availability_Zero

datatype cost_composition =
  Composition_None | Composition_Calculated | Composition_Reported | Composition_Mixed

record price_basis_row =
  row_model :: string
  row_tier :: service_tier
  row_context :: context_class
  row_event_count :: u64
  row_calculable_event_count :: u64
  row_basis :: token_price_basis
  row_reported_event_count :: u64
  row_reported_cost :: "usd_micros option"

datatype missing_reason_code =
    Missing_ModelUnpriced
  | Missing_TierUnknown
  | Missing_ContextUnavailable
  | Missing_TierContextUnsupported
  | Missing_TokenBasisUnavailable
  | Missing_ReportedCostMissing
  | Missing_KeyLimitReached
  | Missing_ArithmeticOverflow

text \<open>The derived order is the order of the variants.\<close>

fun missing_rank :: "missing_reason_code \<Rightarrow> nat" where
  "missing_rank Missing_ModelUnpriced = 0"
| "missing_rank Missing_TierUnknown = 1"
| "missing_rank Missing_ContextUnavailable = 2"
| "missing_rank Missing_TierContextUnsupported = 3"
| "missing_rank Missing_TokenBasisUnavailable = 4"
| "missing_rank Missing_ReportedCostMissing = 5"
| "missing_rank Missing_KeyLimitReached = 6"
| "missing_rank Missing_ArithmeticOverflow = 7"

lemma missing_rank_inj: "missing_rank a = missing_rank b \<Longrightarrow> a = b"
  by (cases a; cases b) simp_all

instantiation missing_reason_code :: linorder
begin

definition less_eq_missing_reason_code :: "missing_reason_code \<Rightarrow> missing_reason_code \<Rightarrow> bool" where
  "less_eq_missing_reason_code a b \<longleftrightarrow> missing_rank a \<le> missing_rank b"

definition less_missing_reason_code :: "missing_reason_code \<Rightarrow> missing_reason_code \<Rightarrow> bool" where
  "less_missing_reason_code a b \<longleftrightarrow> missing_rank a < missing_rank b"

instance
  by standard
    (auto simp: less_eq_missing_reason_code_def less_missing_reason_code_def intro: missing_rank_inj)

end

record missing_cost =
  mc_reason :: missing_reason_code
  mc_key :: "string option"

record cost_counters =
  total_events :: u64
  priced_events :: u64
  reported_events :: u64
  assumed_events :: u64
  unpriced_events :: u64
  omitted_events :: u64
  conflict_events :: u64

record cost_result =
  cr_mode :: cost_mode
  cr_availability :: cost_availability
  cr_amount :: "usd_micros option"
  cr_composition :: cost_composition
  cr_counters :: cost_counters
  cr_missing :: "missing_cost list"
  cr_omitted_missing_details :: u64
  cr_calculated_catalog_id :: "string option"
  cr_override_revision :: "digest option"
  cr_used_override :: bool

record calculated_row =
  cw_numerator :: u128
  cw_rounded :: "usd_micros option"
  cw_source :: rule_source
  cw_assumed_standard :: bool

section \<open>One row\<close>

definition validate_row :: "price_basis_row \<Rightarrow> price_error + unit" where
  "validate_row row =
     (let reported_is_coherent =
        (case row_reported_cost row of
           None \<Rightarrow> row_reported_event_count row = 0
         | Some _ \<Rightarrow> row_reported_event_count row = row_event_count row)
      in if \<not> is_valid_model_key (row_model row) \<or> row_event_count row = 0
            \<or> row_calculable_event_count row > row_event_count row \<or> \<not> reported_is_coherent
         then Inl InvalidPriceRow else Inr ())"

definition calculate_row :: "pricing_engine \<Rightarrow> price_basis_row \<Rightarrow> price_error + calculated_row" where
  "calculate_row engine row =
     (if row_calculable_event_count row = 0 then Inl TokenBasisUnavailable
      else
        and_then (engine_resolve engine (row_model row) (row_tier row) (row_context row)) (\<lambda>resolved.
        and_then (calculate_numerator (rs_rates resolved) (row_basis row)) (\<lambda>numerator.
        Inr \<lparr> cw_numerator = numerator,
              cw_rounded = (case round_numerator numerator of Inr r \<Rightarrow> Some r | Inl _ \<Rightarrow> None),
              cw_source = rs_source resolved,
              cw_assumed_standard = rs_assumed_standard resolved \<rparr>)))"

definition checked_add_events :: "u64 \<Rightarrow> u64 \<Rightarrow> price_error + u64" where
  "checked_add_events left right = ok_or ArithmeticOverflow (checked_add left right)"

definition push_missing ::
  "missing_cost list \<Rightarrow> missing_reason_code \<Rightarrow> string option \<Rightarrow> missing_cost list" where
  "push_missing missing reason key = missing @ [\<lparr> mc_reason = reason, mc_key = key \<rparr>]"

fun missing_reason :: "price_error \<Rightarrow> missing_reason_code" where
  "missing_reason ModelUnpriced = Missing_ModelUnpriced"
| "missing_reason TierUnknown = Missing_TierUnknown"
| "missing_reason ContextUnavailable = Missing_ContextUnavailable"
| "missing_reason TierContextUnsupported = Missing_TierContextUnsupported"
| "missing_reason TokenBasisUnavailable = Missing_TokenBasisUnavailable"
| "missing_reason InconsistentTokenBasis = Missing_TokenBasisUnavailable"
| "missing_reason InvalidRate = Missing_ArithmeticOverflow"
| "missing_reason ArithmeticOverflow = Missing_ArithmeticOverflow"
| "missing_reason InvalidPriceRow = Missing_ArithmeticOverflow"
| "missing_reason TooManyPriceRows = Missing_ArithmeticOverflow"

definition cost_values_conflict :: "usd_micros \<Rightarrow> usd_micros \<Rightarrow> bool" where
  "cost_values_conflict left right =
     (let delta = abs_diff left right; larger = max left right
      in delta > 10000 \<and> (ucast delta :: u128) * 100 > (ucast larger :: u128) * 2)"

section \<open>The loop over the rows\<close>

text \<open>The local variables of \<open>select_cost\<close> that the loop updates.\<close>

record selection =
  sl_counters :: cost_counters
  sl_numerator :: u128
  sl_missing :: "missing_cost list"
  sl_used_calculated :: bool
  sl_used_override :: bool
  sl_numeric_failure :: bool

definition row_conflicts :: "price_basis_row \<Rightarrow> price_error + calculated_row \<Rightarrow> bool" where
  "row_conflicts row calculated \<longleftrightarrow>
     row_reported_event_count row = row_event_count row
     \<and> row_calculable_event_count row = row_event_count row
     \<and> (case (row_reported_cost row, calculated) of
          (Some reported, Inr c) \<Rightarrow> is_some_and (\<lambda>amount. cost_values_conflict reported amount) (cw_rounded c)
        | _ \<Rightarrow> False)"

definition selects_reported :: "cost_mode \<Rightarrow> price_basis_row \<Rightarrow> bool" where
  "selects_reported mode row \<longleftrightarrow>
     mode = Mode_Reported \<or> (mode = Mode_Auto \<and> row_reported_cost row \<noteq> None)"

definition select_reported_row :: "price_basis_row \<Rightarrow> selection \<Rightarrow> price_error + selection" where
  "select_reported_row row st =
     (let counters = sl_counters st
      in case row_reported_cost row of
           Some amount \<Rightarrow>
             and_then (ok_or ArithmeticOverflow (checked_mul (ucast amount) TOKENS_PER_MILLION)) (\<lambda>numerator.
               case checked_add (sl_numerator st) numerator of
                 Some s \<Rightarrow>
                   and_then (checked_add_events (reported_events counters) (row_reported_event_count row)) (\<lambda>n.
                     Inr (st \<lparr> sl_numerator := s, sl_counters := counters \<lparr> reported_events := n \<rparr> \<rparr>))
               | None \<Rightarrow> Inr (st \<lparr> sl_numeric_failure := True \<rparr>))
         | None \<Rightarrow>
             and_then (checked_add_events (unpriced_events counters) (row_event_count row)) (\<lambda>n.
               Inr (st \<lparr> sl_counters := counters \<lparr> unpriced_events := n \<rparr>,
                      sl_missing := push_missing (sl_missing st) Missing_ReportedCostMissing
                        (Some (row_model row)) \<rparr>)))"

definition add_calculated_row ::
  "price_basis_row \<Rightarrow> calculated_row \<Rightarrow> u128 \<Rightarrow> selection \<Rightarrow> price_error + selection" where
  "add_calculated_row row calculated s st =
     (let counters = sl_counters st
      in and_then (checked_add_events (priced_events counters) (row_calculable_event_count row)) (\<lambda>priced.
         and_then
           (if cw_assumed_standard calculated
            then checked_add_events (assumed_events counters) (row_calculable_event_count row)
            else Inr (assumed_events counters)) (\<lambda>assumed.
         and_then
           (if row_calculable_event_count row < row_event_count row
            then and_then (checked_add_events (unpriced_events counters)
                     (row_event_count row - row_calculable_event_count row)) (\<lambda>unpriced.
                   Inr (unpriced, push_missing (sl_missing st) Missing_TokenBasisUnavailable
                     (Some (row_model row))))
            else Inr (unpriced_events counters, sl_missing st)) (\<lambda>(unpriced, missing).
         Inr (st \<lparr> sl_numerator := s,
               sl_counters := counters \<lparr> priced_events := priced, assumed_events := assumed,
                 unpriced_events := unpriced \<rparr>,
               sl_missing := missing,
               sl_used_calculated := True,
               sl_used_override := (sl_used_override st \<or> cw_source calculated = Source_Override) \<rparr>)))))"

definition select_calculated_row ::
  "price_basis_row \<Rightarrow> price_error + calculated_row \<Rightarrow> selection \<Rightarrow> price_error + selection" where
  "select_calculated_row row calculated st =
     (case calculated of
        Inr c \<Rightarrow>
          (case checked_add (sl_numerator st) (cw_numerator c) of
             Some s \<Rightarrow> add_calculated_row row c s st
           | None \<Rightarrow> Inr (st \<lparr> sl_numeric_failure := True \<rparr>))
      | Inl error \<Rightarrow>
          (let counters = sl_counters st
           in and_then (checked_add_events (unpriced_events counters) (row_event_count row)) (\<lambda>n.
                Inr (st \<lparr> sl_counters := counters \<lparr> unpriced_events := n \<rparr>,
                       sl_missing := push_missing (sl_missing st) (missing_reason error)
                         (Some (row_model row)) \<rparr>))))"

definition select_row ::
  "pricing_engine \<Rightarrow> cost_mode \<Rightarrow> selection \<Rightarrow> price_basis_row \<Rightarrow> price_error + selection" where
  "select_row engine mode st row =
     and_then (validate_row row) (\<lambda>_.
     and_then (checked_add_events (total_events (sl_counters st)) (row_event_count row)) (\<lambda>tot.
     let st = st \<lparr> sl_counters := sl_counters st \<lparr> total_events := tot \<rparr> \<rparr>;
         calculated = calculate_row engine row
     in and_then
          (if row_conflicts row calculated
           then and_then (checked_add_events (conflict_events (sl_counters st)) (row_event_count row)) (\<lambda>n.
                  Inr (st \<lparr> sl_counters := sl_counters st \<lparr> conflict_events := n \<rparr> \<rparr>))
           else Inr st) (\<lambda>st.
        if selects_reported mode row then select_reported_row row st
        else select_calculated_row row calculated st)))"

section \<open>The result\<close>

definition selection_start :: "u64 \<Rightarrow> selection" where
  "selection_start omitted_event_count =
     \<lparr> sl_counters = \<lparr> total_events = omitted_event_count, priced_events = 0, reported_events = 0,
         assumed_events = 0, unpriced_events = 0, omitted_events = omitted_event_count,
         conflict_events = 0 \<rparr>,
       sl_numerator = 0,
       sl_missing = (if omitted_event_count > 0
         then [\<lparr> mc_reason = Missing_KeyLimitReached, mc_key = None \<rparr>] else []),
       sl_used_calculated = False, sl_used_override = False, sl_numeric_failure = False \<rparr>"

definition availability_of ::
  "bool \<Rightarrow> cost_counters \<Rightarrow> u64 \<Rightarrow> usd_micros option \<Rightarrow> cost_availability" where
  "availability_of numeric_failure counters selected_events amount =
     (if numeric_failure then Availability_Unavailable
      else if total_events counters = 0 then Availability_Zero
      else if selected_events = 0 then Availability_Unavailable
      else if unpriced_events counters = 0 \<and> omitted_events counters = 0
      then (if is_some_and (\<lambda>v. v = 0) amount then Availability_Zero else Availability_Complete)
      else Availability_Partial)"

definition composition_of :: "cost_counters \<Rightarrow> cost_composition" where
  "composition_of counters =
     (case (priced_events counters > 0, reported_events counters > 0) of
        (False, False) \<Rightarrow> Composition_None
      | (True, False) \<Rightarrow> Composition_Calculated
      | (False, True) \<Rightarrow> Composition_Reported
      | (True, True) \<Rightarrow> Composition_Mixed)"

definition missing_sorted :: "missing_cost list \<Rightarrow> missing_cost list" where
  "missing_sorted missing = remdups_adj (sort_key (\<lambda>m. (mc_reason m, mc_key m)) missing)"

definition fail_numeric :: "selection \<Rightarrow> selection" where
  "fail_numeric st =
     (let counters = sl_counters st
      in st \<lparr> sl_missing := push_missing (sl_missing st) Missing_ArithmeticOverflow None,
              sl_counters := counters \<lparr> priced_events := 0, reported_events := 0, assumed_events := 0,
                unpriced_events := total_events counters - omitted_events counters \<rparr>,
              sl_used_calculated := False, sl_used_override := False \<rparr>)"

definition finish_cost :: "pricing_engine \<Rightarrow> cost_mode \<Rightarrow> selection \<Rightarrow> price_error + cost_result" where
  "finish_cost engine mode st =
     and_then (checked_add_events (priced_events (sl_counters st)) (reported_events (sl_counters st))) (\<lambda>selected_events.
     let (amount, numeric_failure) =
           (if selected_events > 0 \<or> total_events (sl_counters st) = 0
            then (case round_numerator (sl_numerator st) of
                    Inr amount \<Rightarrow> (Some amount, sl_numeric_failure st)
                  | Inl _ \<Rightarrow> (None, True))
            else (None, sl_numeric_failure st));
         (st, amount) = (if numeric_failure then (fail_numeric st, None) else (st, amount));
         missing = missing_sorted (sl_missing st);
         counters = sl_counters st
     in and_then (checked_add_events (priced_events counters) (reported_events counters)) (\<lambda>selected_events.
        Inr \<lparr> cr_mode = mode,
              cr_availability = availability_of numeric_failure counters selected_events amount,
              cr_amount = amount,
              cr_composition = composition_of counters,
              cr_counters = counters,
              cr_missing = take MAX_MISSING_COST_DETAILS missing,
              cr_omitted_missing_details = word_of_nat (length missing - MAX_MISSING_COST_DETAILS),
              cr_calculated_catalog_id = (if sl_used_calculated st then Some CATALOG_ID else None),
              cr_override_revision =
                (if sl_used_calculated st then Some (os_revision (pe_overrides engine)) else None),
              cr_used_override = sl_used_override st \<rparr>))"

definition select_cost ::
  "pricing_engine \<Rightarrow> cost_mode \<Rightarrow> price_basis_row list \<Rightarrow> u64 \<Rightarrow> price_error + cost_result" where
  "select_cost engine mode rows omitted_event_count =
     (if length rows > MAX_PRICE_BASIS_ROWS then Inl TooManyPriceRows
      else and_then (try_fold (select_row engine mode) (selection_start omitted_event_count) rows)
             (finish_cost engine mode))"


section \<open>The effect of a row\<close>

definition accounted :: "selection \<Rightarrow> nat" where
  "accounted st = unat (priced_events (sl_counters st)) + unat (reported_events (sl_counters st))
     + unat (unpriced_events (sl_counters st))"

definition selected :: "selection \<Rightarrow> nat" where
  "selected st = unat (priced_events (sl_counters st)) + unat (reported_events (sl_counters st))"

text \<open>What a row contributes to the numerator, and how many of its events are priced or reported.\<close>

definition row_numerator :: "pricing_engine \<Rightarrow> cost_mode \<Rightarrow> price_basis_row \<Rightarrow> nat" where
  "row_numerator engine mode row =
     (if selects_reported mode row
      then (case row_reported_cost row of Some amount \<Rightarrow> unat amount * 1000000 | None \<Rightarrow> 0)
      else (case calculate_row engine row of Inr c \<Rightarrow> unat (cw_numerator c) | Inl _ \<Rightarrow> 0))"

definition row_selected :: "pricing_engine \<Rightarrow> cost_mode \<Rightarrow> price_basis_row \<Rightarrow> nat" where
  "row_selected engine mode row =
     (if selects_reported mode row
      then (case row_reported_cost row of Some amount \<Rightarrow> unat (row_event_count row) | None \<Rightarrow> 0)
      else (case calculate_row engine row of
              Inr c \<Rightarrow> unat (row_calculable_event_count row) | Inl _ \<Rightarrow> 0))"

text \<open>Either the row is added in full, or the sum overflows and nothing but the failure flag changes.\<close>

definition row_effect :: "nat \<Rightarrow> nat \<Rightarrow> nat \<Rightarrow> selection \<Rightarrow> selection \<Rightarrow> bool" where
  "row_effect e n k st st' \<longleftrightarrow>
     total_events (sl_counters st') = total_events (sl_counters st) \<and>
     omitted_events (sl_counters st') = omitted_events (sl_counters st) \<and>
     conflict_events (sl_counters st') = conflict_events (sl_counters st) \<and>
     (assumed_events (sl_counters st) \<le> priced_events (sl_counters st) \<longrightarrow>
        assumed_events (sl_counters st') \<le> priced_events (sl_counters st')) \<and>
     (sl_numeric_failure st' = sl_numeric_failure st \<and> accounted st' = accounted st + e \<and>
        unat (sl_numerator st') = unat (sl_numerator st) + n \<and> selected st' = selected st + k \<or>
      sl_numeric_failure st' \<and> accounted st' = accounted st \<and> 2 ^ 128 \<le> unat (sl_numerator st) + n)"

lemma checked_add_events_eq:
  "unat a + unat b < 2 ^ 64 \<Longrightarrow>
     checked_add_events a b = Inr (a + b) \<and> unat (a + b) = unat a + unat b"
  by (simp add: checked_add_events_def checked_add_def unat_word_ariths)

lemma validate_row_Inr_iff:
  "validate_row row = Inr u \<longleftrightarrow>
     is_valid_model_key (row_model row) \<and> row_event_count row \<noteq> 0 \<and>
     row_calculable_event_count row \<le> row_event_count row \<and>
     (case row_reported_cost row of None \<Rightarrow> row_reported_event_count row = 0
      | Some _ \<Rightarrow> row_reported_event_count row = row_event_count row)"
  by (auto simp: validate_row_def Let_def not_less split: option.splits)

lemma validate_row_Inl: "validate_row row = Inl e \<Longrightarrow> e = InvalidPriceRow"
  by (auto simp: validate_row_def Let_def split: if_splits)

lemma reported_row_effect:
  assumes "validate_row row = Inr ()" "selects_reported mode row"
    and room: "accounted st + unat (row_event_count row) < 2 ^ 64"
  shows "\<exists>st'. select_reported_row row st = Inr st' \<and>
    row_effect (unat (row_event_count row)) (row_numerator engine mode row) (row_selected engine mode row) st st'"
proof (cases "row_reported_cost row")
  case None
  have u: "unat (unpriced_events (sl_counters st)) + unat (row_event_count row) < 2 ^ 64"
    using room by (simp add: accounted_def)
  from None assms(2) checked_add_events_eq [OF u] show ?thesis
    by (simp add: select_reported_row_def Let_def row_effect_def accounted_def selected_def
        row_numerator_def row_selected_def)
next
  case (Some amount)
  have r: "row_reported_event_count row = row_event_count row"
    using assms(1) Some by (simp add: validate_row_Inr_iff)
  have u: "unat (reported_events (sl_counters st)) + unat (row_event_count row) < 2 ^ 64"
    using room by (simp add: accounted_def)
  have "unat amount * 1000000 < 2 ^ 128" using u64_bound [of amount] by simp
  then have m: "checked_mul (ucast amount) TOKENS_PER_MILLION = Some (ucast amount * 1000000 :: u128)"
    and n: "unat (ucast amount * 1000000 :: u128) = unat amount * 1000000"
    by (simp_all add: checked_mul_def TOKENS_PER_MILLION_def unat_word_ariths)
  show ?thesis
  proof (cases "checked_add (sl_numerator st) (ucast amount * 1000000)")
    case None
    then have "2 ^ 128 \<le> unat (sl_numerator st) + unat amount * 1000000"
      by (simp add: checked_add_None_iff n)
    with None Some m assms(2) show ?thesis
      by (simp add: select_reported_row_def Let_def row_effect_def accounted_def row_numerator_def)
  next
    case s: (Some s)
    then have "unat s = unat (sl_numerator st) + unat amount * 1000000"
      by (simp add: checked_add_iff n)
    with s Some m r assms(2) checked_add_events_eq [OF u] show ?thesis
      by (simp add: select_reported_row_def Let_def row_effect_def accounted_def selected_def
          row_numerator_def row_selected_def)
  qed
qed

lemma add_calculated_effect:
  assumes "validate_row row = Inr ()"
    and room: "accounted st + unat (row_event_count row) < 2 ^ 64"
    and assumed: "assumed_events (sl_counters st) \<le> priced_events (sl_counters st)"
    and s: "unat s = unat (sl_numerator st) + n"
  shows "\<exists>st'. add_calculated_row row c s st = Inr st' \<and>
    row_effect (unat (row_event_count row)) n (unat (row_calculable_event_count row)) st st'"
proof -
  have le: "unat (row_calculable_event_count row) \<le> unat (row_event_count row)"
    using assms(1) by (simp add: validate_row_Inr_iff word_le_nat_alt)
  have d: "unat (row_event_count row - row_calculable_event_count row) =
      unat (row_event_count row) - unat (row_calculable_event_count row)"
    using le by (simp add: unat_sub word_le_nat_alt)
  have p: "unat (priced_events (sl_counters st)) + unat (row_calculable_event_count row) < 2 ^ 64"
    using room le by (simp add: accounted_def)
  have a: "unat (assumed_events (sl_counters st)) + unat (row_calculable_event_count row) < 2 ^ 64"
    using p assumed by (simp add: word_le_nat_alt)
  have u: "unat (unpriced_events (sl_counters st)) +
      unat (row_event_count row - row_calculable_event_count row) < 2 ^ 64"
    using room by (simp add: accounted_def d)
  note adds = checked_add_events_eq [OF p] checked_add_events_eq [OF a] checked_add_events_eq [OF u]
  show ?thesis
    using adds le s assumed
    by (cases "row_calculable_event_count row < row_event_count row"; cases "cw_assumed_standard c")
      (simp_all add: add_calculated_row_def Let_def row_effect_def accounted_def selected_def d
        word_le_nat_alt word_less_nat_alt)
qed

lemma calculated_row_effect:
  assumes "validate_row row = Inr ()" "\<not> selects_reported mode row"
    and room: "accounted st + unat (row_event_count row) < 2 ^ 64"
    and assumed: "assumed_events (sl_counters st) \<le> priced_events (sl_counters st)"
  shows "\<exists>st'. select_calculated_row row (calculate_row engine row) st = Inr st' \<and>
    row_effect (unat (row_event_count row)) (row_numerator engine mode row) (row_selected engine mode row) st st'"
proof (cases "calculate_row engine row")
  case (Inl e)
  have u: "unat (unpriced_events (sl_counters st)) + unat (row_event_count row) < 2 ^ 64"
    using room by (simp add: accounted_def)
  from Inl assms(2) checked_add_events_eq [OF u] show ?thesis
    by (simp add: select_calculated_row_def row_effect_def accounted_def selected_def
        row_numerator_def row_selected_def Let_def)
next
  case (Inr c)
  have n: "row_numerator engine mode row = unat (cw_numerator c)"
    and k: "row_selected engine mode row = unat (row_calculable_event_count row)"
    using Inr assms(2) by (simp_all add: row_numerator_def row_selected_def)
  show ?thesis
  proof (cases "checked_add (sl_numerator st) (cw_numerator c)")
    case None
    then have "2 ^ 128 \<le> unat (sl_numerator st) + unat (cw_numerator c)"
      by (simp add: checked_add_None_iff)
    with None Inr n show ?thesis
      by (simp add: select_calculated_row_def row_effect_def accounted_def)
  next
    case (Some s)
    then have "unat s = unat (sl_numerator st) + unat (cw_numerator c)" by (simp add: checked_add_iff)
    from add_calculated_effect [OF assms(1) room assumed this, of c] show ?thesis
      by (simp add: select_calculated_row_def Inr Some n k)
  qed
qed

section \<open>The invariant of the loop\<close>

definition events :: "price_basis_row list \<Rightarrow> nat" where
  "events rows = sum_list (map (\<lambda>row. unat (row_event_count row)) rows)"

definition numerators :: "pricing_engine \<Rightarrow> cost_mode \<Rightarrow> price_basis_row list \<Rightarrow> nat" where
  "numerators engine mode rows = sum_list (map (row_numerator engine mode) rows)"

definition selections :: "pricing_engine \<Rightarrow> cost_mode \<Rightarrow> price_basis_row list \<Rightarrow> nat" where
  "selections engine mode rows = sum_list (map (row_selected engine mode) rows)"

definition selection_inv ::
  "pricing_engine \<Rightarrow> cost_mode \<Rightarrow> u64 \<Rightarrow> price_basis_row list \<Rightarrow> selection \<Rightarrow> bool" where
  "selection_inv engine mode omitted rows st \<longleftrightarrow>
     omitted_events (sl_counters st) = omitted \<and>
     unat (total_events (sl_counters st)) = unat omitted + events rows \<and>
     unat (conflict_events (sl_counters st)) \<le> events rows \<and>
     assumed_events (sl_counters st) \<le> priced_events (sl_counters st) \<and>
     accounted st \<le> events rows \<and>
     (if sl_numeric_failure st then 2 ^ 128 \<le> numerators engine mode rows
      else accounted st = events rows \<and> unat (sl_numerator st) = numerators engine mode rows \<and>
        selected st = selections engine mode rows)"

lemma selection_inv_start: "selection_inv engine mode omitted [] (selection_start omitted)"
  by (simp add: selection_inv_def selection_start_def events_def numerators_def selections_def
      accounted_def selected_def)

lemma row_effect_inv:
  assumes "row_effect (unat (row_event_count row)) (row_numerator engine mode row)
      (row_selected engine mode row) st st'"
    and "omitted_events (sl_counters st) = omitted"
    and "unat (total_events (sl_counters st)) = unat omitted + events (rows @ [row])"
    and "unat (conflict_events (sl_counters st)) \<le> events (rows @ [row])"
    and "assumed_events (sl_counters st) \<le> priced_events (sl_counters st)"
    and "accounted st \<le> events rows"
    and "if sl_numeric_failure st then 2 ^ 128 \<le> numerators engine mode rows
      else accounted st = events rows \<and> unat (sl_numerator st) = numerators engine mode rows \<and>
        selected st = selections engine mode rows"
  shows "selection_inv engine mode omitted (rows @ [row]) st'"
  using assms
  by (auto simp: selection_inv_def row_effect_def events_def numerators_def selections_def split: if_splits)

lemma select_row_ok:
  assumes inv: "selection_inv engine mode omitted rows st"
    and valid: "validate_row row = Inr ()"
    and room: "unat omitted + events (rows @ [row]) < 2 ^ 64"
  shows "\<exists>st'. select_row engine mode st row = Inr st' \<and>
    selection_inv engine mode omitted (rows @ [row]) st'"
proof -
  let ?e = "unat (row_event_count row)"
  have ev: "events (rows @ [row]) = events rows + ?e" by (simp add: events_def)
  have t: "unat (total_events (sl_counters st)) + ?e < 2 ^ 64"
    and c: "unat (conflict_events (sl_counters st)) + ?e < 2 ^ 64"
    using inv room by (simp_all add: selection_inv_def ev)
  note t' = checked_add_events_eq [OF t] and c' = checked_add_events_eq [OF c]
  define st1 where "st1 = st \<lparr> sl_counters := sl_counters st
      \<lparr> total_events := total_events (sl_counters st) + row_event_count row \<rparr> \<rparr>"
  define st2 where "st2 = (if row_conflicts row (calculate_row engine row)
      then st1 \<lparr> sl_counters := sl_counters st1
        \<lparr> conflict_events := conflict_events (sl_counters st1) + row_event_count row \<rparr> \<rparr> else st1)"
  have run: "select_row engine mode st row =
      (if selects_reported mode row then select_reported_row row st2
       else select_calculated_row row (calculate_row engine row) st2)"
    using t' c' by (simp add: select_row_def valid Let_def st1_def st2_def)
  have same: "accounted st2 = accounted st" "selected st2 = selected st"
    "sl_numerator st2 = sl_numerator st" "sl_numeric_failure st2 = sl_numeric_failure st"
    "assumed_events (sl_counters st2) \<le> priced_events (sl_counters st2)"
    "omitted_events (sl_counters st2) = omitted"
    using inv by (simp_all add: st2_def st1_def accounted_def selected_def selection_inv_def)
  have tot: "unat (total_events (sl_counters st2)) = unat omitted + events (rows @ [row])"
    using inv t' by (simp add: st2_def st1_def selection_inv_def ev)
  have con: "unat (conflict_events (sl_counters st2)) \<le> events (rows @ [row])"
    using inv c' by (simp add: st2_def st1_def selection_inv_def ev)
  have acc: "accounted st2 + ?e < 2 ^ 64" "accounted st2 \<le> events rows"
    using inv room by (simp_all add: same selection_inv_def ev)
  have rest: "if sl_numeric_failure st2 then 2 ^ 128 \<le> numerators engine mode rows
      else accounted st2 = events rows \<and> unat (sl_numerator st2) = numerators engine mode rows \<and>
        selected st2 = selections engine mode rows"
    using inv unfolding same selection_inv_def by blast
  obtain st' where "select_row engine mode st row = Inr st'"
    "row_effect ?e (row_numerator engine mode row) (row_selected engine mode row) st2 st'"
    using reported_row_effect [OF valid _ acc(1), of mode engine]
      calculated_row_effect [OF valid _ acc(1) same(5), of mode engine] run
    by (cases "selects_reported mode row") auto
  with row_effect_inv [OF _ same(6) tot con same(5) acc(2) rest] show ?thesis by blast
qed


definition rows_ok :: "u64 \<Rightarrow> price_basis_row list \<Rightarrow> bool" where
  "rows_ok omitted rows \<longleftrightarrow>
     list_all (\<lambda>row. validate_row row = Inr ()) rows \<and> unat omitted + events rows < 2 ^ 64"

lemma select_rows_ok:
  assumes "rows_ok omitted (seen @ rows)" "selection_inv engine mode omitted seen st"
  shows "\<exists>st'. try_fold (select_row engine mode) st rows = Inr st' \<and>
    selection_inv engine mode omitted (seen @ rows) st'"
  using assms
proof (induction rows arbitrary: st seen)
  case Nil
  then show ?case by simp
next
  case (Cons row rows)
  have v: "validate_row row = Inr ()" and r: "unat omitted + events (seen @ [row]) < 2 ^ 64"
    using Cons.prems(1) by (simp_all add: rows_ok_def events_def)
  from select_row_ok [OF Cons.prems(2) v r] obtain st1 where
    s: "select_row engine mode st row = Inr st1" "selection_inv engine mode omitted (seen @ [row]) st1"
    by blast
  from Cons.IH [of "seen @ [row]" st1] Cons.prems(1) s show ?case by simp
qed

lemma select_row_conditions:
  assumes "select_row engine mode st row = Inr st'"
  shows "validate_row row = Inr ()" and
    "unat (total_events (sl_counters st)) + unat (row_event_count row) < 2 ^ 64"
  using assms unat_less_pow [where 'a = 64]
  by (auto simp: select_row_def result_simps checked_add_events_def checked_add_iff
      dest!: sym [of "unat _" "_ + _"])

lemma select_rows_conditions:
  assumes "try_fold (select_row engine mode) st rows = Inr st'" "selection_inv engine mode omitted seen st"
    and "rows_ok omitted seen"
  shows "rows_ok omitted (seen @ rows)"
  using assms
proof (induction rows arbitrary: st seen)
  case Nil
  then show ?case by simp
next
  case (Cons row rows)
  from Cons.prems(1) obtain st1 where s: "select_row engine mode st row = Inr st1"
    "try_fold (select_row engine mode) st1 rows = Inr st'" by (auto simp: result_simps)
  from select_row_conditions [OF s(1)] Cons.prems(2,3)
  have ok: "rows_ok omitted (seen @ [row])"
    by (auto simp: rows_ok_def events_def selection_inv_def)
  with select_row_ok [OF Cons.prems(2), of row] s(1)
  have "selection_inv engine mode omitted (seen @ [row]) st1"
    by (auto simp: rows_ok_def)
  from Cons.IH [OF s(2) this ok] show ?case by simp
qed

section \<open>The result in terms of the loop\<close>

definition cost_fails :: "selection \<Rightarrow> bool" where
  "cost_fails st \<longleftrightarrow> sl_numeric_failure st \<or>
     (0 < selected st \<or> total_events (sl_counters st) = 0) \<and> 2 ^ 64 \<le> half_up (unat (sl_numerator st))"

lemma finish_cost_eq:
  assumes "selected st < 2 ^ 64"
  defines "final \<equiv> (if cost_fails st then fail_numeric st else st)"
  shows "\<exists>r. finish_cost engine mode st = Inr r \<and> cr_counters r = sl_counters final \<and>
    cr_amount r = (if cost_fails st \<or> selected st = 0 \<and> total_events (sl_counters st) \<noteq> 0 then None
      else Some (of_nat (half_up (unat (sl_numerator st))))) \<and>
    cr_availability r = availability_of (cost_fails st) (sl_counters final)
      (priced_events (sl_counters final) + reported_events (sl_counters final)) (cr_amount r) \<and>
    cr_missing r = take MAX_MISSING_COST_DETAILS (missing_sorted (sl_missing final))"
proof -
  let ?c = "sl_counters st"
  have sel: "unat (priced_events ?c) + unat (reported_events ?c) < 2 ^ 64"
    using assms(1) by (simp add: selected_def)
  note add = checked_add_events_eq [OF sel]
  have pos: "0 < priced_events ?c + reported_events ?c \<longleftrightarrow> 0 < selected st"
    using add by (simp add: selected_def word_less_nat_alt)
  have z: "checked_add_events 0 0 = Inr (0 :: u64)"
    by (simp add: checked_add_events_def checked_add_def)
  show ?thesis
  proof (cases "cost_fails st")
    case True
    then show ?thesis
      using add z pos
      by (auto simp: finish_cost_def Let_def round_numerator_exact cost_fails_def final_def
          fail_numeric_def split: if_splits)
  next
    case False
    then show ?thesis
      using add pos
      by (auto simp: finish_cost_def Let_def round_numerator_exact cost_fails_def final_def not_le
          split: if_splits)
  qed
qed


lemma selected_le_accounted: "selected st \<le> accounted st"
  by (simp add: selected_def accounted_def)

lemma select_cost_run:
  assumes "length rows \<le> MAX_PRICE_BASIS_ROWS" "rows_ok omitted rows"
  obtains st where "selection_inv engine mode omitted rows st" "selected st < 2 ^ 64"
    "select_cost engine mode rows omitted = finish_cost engine mode st"
proof -
  from select_rows_ok [of omitted "[]" rows engine mode "selection_start omitted"] assms(2) selection_inv_start
  obtain st where st: "try_fold (select_row engine mode) (selection_start omitted) rows = Inr st"
    "selection_inv engine mode omitted rows st" by auto
  moreover have "selected st < 2 ^ 64"
    using st(2) assms(2) selected_le_accounted [of st] by (simp add: selection_inv_def rows_ok_def)
  ultimately show thesis using that assms(1) by (simp add: select_cost_def)
qed

lemma select_cost_Inr_conditions:
  assumes "select_cost engine mode rows omitted = Inr r"
  shows "length rows \<le> MAX_PRICE_BASIS_ROWS" and "rows_ok omitted rows"
proof -
  from assms show "length rows \<le> MAX_PRICE_BASIS_ROWS"
    by (simp add: select_cost_def split: if_splits)
  from assms obtain st where "try_fold (select_row engine mode) (selection_start omitted) rows = Inr st"
    by (auto simp: select_cost_def result_simps split: if_splits)
  moreover have "rows_ok omitted []" using u64_bound [of omitted] by (simp add: rows_ok_def events_def)
  ultimately show "rows_ok omitted rows"
    using select_rows_conditions [OF _ selection_inv_start] by fastforce
qed

text \<open>
  C38. When cost selection succeeds: exactly when there are at most 512 rows, every row is valid, and
  the omitted events plus the events of the rows fit 64 bits.  None of the other checked additions,
  and no overflow of the amount, makes it fail.
\<close>

theorem select_cost_ok_iff:
  "(\<exists>r. select_cost engine mode rows omitted = Inr r) \<longleftrightarrow>
     length rows \<le> 512 \<and> list_all (\<lambda>row. validate_row row = Inr ()) rows \<and>
     unat omitted + events rows < 2 ^ 64"
proof
  assume "\<exists>r. select_cost engine mode rows omitted = Inr r"
  then show "length rows \<le> 512 \<and> list_all (\<lambda>row. validate_row row = Inr ()) rows \<and>
      unat omitted + events rows < 2 ^ 64"
    using select_cost_Inr_conditions [of engine mode rows omitted]
    by (auto simp: rows_ok_def MAX_PRICE_BASIS_ROWS_def)
next
  assume "length rows \<le> 512 \<and> list_all (\<lambda>row. validate_row row = Inr ()) rows \<and>
      unat omitted + events rows < 2 ^ 64"
  then have "length rows \<le> MAX_PRICE_BASIS_ROWS" "rows_ok omitted rows"
    by (simp_all add: rows_ok_def MAX_PRICE_BASIS_ROWS_def)
  then obtain st where "selected st < 2 ^ 64"
    "select_cost engine mode rows omitted = finish_cost engine mode st"
    by (rule select_cost_run)
  with finish_cost_eq [of st engine mode] show "\<exists>r. select_cost engine mode rows omitted = Inr r" by auto
qed

lemma missing_sorted_distinct: "distinct (missing_sorted missing)"
proof -
  let ?k = "\<lambda>m :: missing_cost. (mc_reason m, mc_key m)"
  have inj: "?k a = ?k b \<longleftrightarrow> a = b" for a b by (cases a; cases b) simp
  have "inj ?k" using inj by (auto intro: injI)
  then have "map ?k (remdups_adj (sort_key ?k missing)) = remdups_adj (map ?k (sort_key ?k missing))"
    by (simp add: remdups_adj_map_injective)
  also have "distinct \<dots>"
    by (rule distinct_adj_sorted) simp_all
  finally show ?thesis by (simp add: missing_sorted_def distinct_map)
qed

lemma final_counters:
  assumes "selection_inv engine mode omitted rows st" "unat omitted + events rows < 2 ^ 64"
  defines "c \<equiv> sl_counters (if cost_fails st then fail_numeric st else st)"
  shows "unat (total_events c) = unat omitted + events rows \<and> omitted_events c = omitted \<and>
    unat (priced_events c) + unat (reported_events c) + unat (unpriced_events c) = events rows \<and>
    assumed_events c \<le> priced_events c \<and> unat (conflict_events c) \<le> events rows"
proof (cases "cost_fails st")
  case True
  have "unat (total_events (sl_counters st) - omitted) = events rows"
    using assms(1) by (subst unat_sub) (simp_all add: selection_inv_def word_le_nat_alt)
  with True assms(1) show ?thesis by (simp add: c_def fail_numeric_def selection_inv_def Let_def)
next
  case False
  then have "\<not> sl_numeric_failure st" by (simp add: cost_fails_def)
  with False assms(1) show ?thesis by (simp add: c_def selection_inv_def accounted_def)
qed

text \<open>
  C20. A cost result accounts for every event: the total is the omitted events plus the events of the
  rows, each event of a row is priced, reported or unpriced and none is counted twice, assumed events
  are priced ones, and an amount is missing exactly when the cost is unavailable.  A complete cost
  leaves no event out.  The missing details are distinct and at most 32.
\<close>

theorem select_cost_accounts:
  assumes "select_cost engine mode rows omitted = Inr r"
  defines "c \<equiv> cr_counters r"
  shows "unat (total_events c) = unat omitted + events rows \<and>
    unat (priced_events c) + unat (reported_events c) + unat (unpriced_events c) = events rows \<and>
    assumed_events c \<le> priced_events c \<and> unat (conflict_events c) \<le> events rows \<and>
    (cr_amount r = None \<longleftrightarrow> cr_availability r = Availability_Unavailable) \<and>
    (cr_availability r = Availability_Complete \<longrightarrow>
       unat (priced_events c) + unat (reported_events c) = events rows \<and> omitted = 0) \<and>
    distinct (cr_missing r) \<and> length (cr_missing r) \<le> 32"
proof -
  note ok = select_cost_Inr_conditions [OF assms(1)]
  obtain st where st: "selection_inv engine mode omitted rows st" "selected st < 2 ^ 64"
    "select_cost engine mode rows omitted = finish_cost engine mode st"
    using ok by (rule select_cost_run)
  note fin = finish_cost_eq [OF st(2), of engine mode]
  have c: "c = sl_counters (if cost_fails st then fail_numeric st else st)"
    and am: "cr_amount r = (if cost_fails st \<or> selected st = 0 \<and> total_events (sl_counters st) \<noteq> 0 then None
      else Some (of_nat (half_up (unat (sl_numerator st)))))"
    and av: "cr_availability r = availability_of (cost_fails st) c
      (priced_events c + reported_events c) (cr_amount r)"
    and mi: "distinct (cr_missing r)" "length (cr_missing r) \<le> 32"
    using fin assms(1) unfolding st(3)
    by (auto simp: c_def MAX_MISSING_COST_DETAILS_def missing_sorted_distinct)
  have cnt: "unat (total_events c) = unat omitted + events rows" "omitted_events c = omitted"
    "unat (priced_events c) + unat (reported_events c) + unat (unpriced_events c) = events rows"
    "assumed_events c \<le> priced_events c" "unat (conflict_events c) \<le> events rows"
    using final_counters [OF st(1)] ok(2) unfolding c rows_ok_def by simp_all
  have sum: "\<not> cost_fails st \<Longrightarrow> priced_events c + reported_events c = 0 \<longleftrightarrow> selected st = 0"
    using checked_add_events_eq [of "priced_events c" "reported_events c"] st(2)
    by (simp add: c selected_def word_unat_eq_iff)
  have tot: "total_events c = total_events (sl_counters st)"
    by (simp add: c fail_numeric_def Let_def)
  have "cr_amount r = None \<longleftrightarrow> cr_availability r = Availability_Unavailable"
    using sum by (auto simp: am av availability_of_def tot)
  moreover have "unat (priced_events c) + unat (reported_events c) = events rows \<and> omitted = 0"
    if "cr_availability r = Availability_Complete"
    using that cnt(2,3) by (auto simp: av availability_of_def split: if_splits)
  ultimately show ?thesis using cnt mi by blast
qed


definition sample_row :: "u64 option \<Rightarrow> price_basis_row" where
  "sample_row reported =
     \<lparr> row_model = ''gpt-5'', row_tier = StandardAssumed, row_context = Context_Short,
       row_event_count = 2, row_calculable_event_count = 1,
       row_basis = token_price_basis_new 1000 0 100,
       row_reported_event_count = (if reported = None then 0 else 2),
       row_reported_cost = reported \<rparr>"

definition sample_result :: cost_result where
  "sample_result =
     \<lparr> cr_mode = Mode_Auto, cr_availability = Availability_Partial, cr_amount = Some 2262,
       cr_composition = Composition_Mixed,
       cr_counters = \<lparr> total_events = 4, priced_events = 1, reported_events = 2, assumed_events = 1,
         unpriced_events = 1, omitted_events = 0, conflict_events = 0 \<rparr>,
       cr_missing = [\<lparr> mc_reason = Missing_TokenBasisUnavailable, mc_key = Some ''gpt-5'' \<rparr>],
       cr_omitted_missing_details = 0, cr_calculated_catalog_id = Some CATALOG_ID,
       cr_override_revision = Some (revision_message [] []), cr_used_override = False \<rparr>"

lemma sample_resolve:
  "engine_resolve (pricing_engine_embedded id) ''gpt-5'' StandardAssumed Context_Short =
     Inr \<lparr> rs_canonical_model = ''gpt-5'', rs_rates = rates_of 1250000 125000 10000000,
           rs_source = Source_Embedded, rs_assumed_standard = True \<rparr>"
  by code_simp

lemma sample_valid: "is_valid_model_key ''gpt-5''"
  by code_simp

lemma sample_calculate:
  "calculate_row (pricing_engine_embedded id) (sample_row reported) =
     Inr \<lparr> cw_numerator = 2250000000, cw_rounded = Some 2250, cw_source = Source_Embedded,
           cw_assumed_standard = True \<rparr>"
  by (simp add: calculate_row_def sample_row_def sample_resolve calculate_numerator_def rates_of_def
      token_price_basis_new_def checked_mul_def checked_add_def round_numerator_exact half_up_def)

lemma sample_select:
  "select_cost (pricing_engine_embedded id) Mode_Auto [sample_row None, sample_row (Some 12)] 0 =
     Inr sample_result"
proof -
  have v: "validate_row (sample_row None) = Inr ()" "validate_row (sample_row (Some 12)) = Inr ()"
    by (simp_all add: validate_row_Inr_iff sample_valid sample_row_def)
  have r1: "select_row (pricing_engine_embedded id) Mode_Auto (selection_start 0) (sample_row None) =
      Inr \<lparr> sl_counters = \<lparr> total_events = 2, priced_events = 1, reported_events = 0, assumed_events = 1,
           unpriced_events = 1, omitted_events = 0, conflict_events = 0 \<rparr>,
         sl_numerator = 2250000000,
         sl_missing = [\<lparr> mc_reason = Missing_TokenBasisUnavailable, mc_key = Some ''gpt-5'' \<rparr>],
         sl_used_calculated = True, sl_used_override = False, sl_numeric_failure = False \<rparr>" (is "_ = Inr ?s")
    unfolding select_row_def v sample_calculate
    by (simp add: sample_row_def selection_start_def checked_add_events_def checked_add_def Let_def
        row_conflicts_def selects_reported_def select_calculated_row_def add_calculated_row_def
        push_missing_def)
  have r2: "select_row (pricing_engine_embedded id) Mode_Auto ?s (sample_row (Some 12)) =
      Inr (?s \<lparr> sl_counters := (sl_counters ?s) \<lparr> total_events := 4, reported_events := 2 \<rparr>,
         sl_numerator := 2262000000 \<rparr>)"
    unfolding select_row_def v sample_calculate
    by (simp add: sample_row_def checked_add_events_def checked_add_def checked_mul_def Let_def
        row_conflicts_def selects_reported_def select_reported_row_def TOKENS_PER_MILLION_def)
  have rev: "os_revision (pe_overrides (pricing_engine_embedded id)) = revision_message [] []"
    by (simp add: pricing_engine_embedded_def override_snapshot_empty_def from_validated_def revision_for_def)
  show ?thesis
    by (simp add: select_cost_def MAX_PRICE_BASIS_ROWS_def r1 r2 finish_cost_def sample_result_def
        checked_add_events_def checked_add_def round_numerator_exact half_up_def Let_def
        missing_sorted_def availability_of_def composition_of_def MAX_MISSING_COST_DETAILS_def rev)
qed

theorem select_cost_accounts_witness:
  "select_cost (pricing_engine_embedded id) Mode_Auto [sample_row None, sample_row (Some 12)] 0 =
     Inr sample_result \<and>
   unat (priced_events (cr_counters sample_result)) + unat (reported_events (cr_counters sample_result))
     + unat (unpriced_events (cr_counters sample_result)) = 4"
  using select_cost_accounts [OF sample_select] sample_select
  by (simp add: events_def sample_row_def)

section \<open>The amount is exact\<close>

definition rates_ok :: "price_rates \<Rightarrow> bool" where
  "rates_ok rates \<longleftrightarrow> pr_uncached_input rates \<le> MAX_RATE_MICROS_PER_MILLION \<and>
     pr_cached_input rates \<le> MAX_RATE_MICROS_PER_MILLION \<and>
     pr_billable_output rates \<le> MAX_RATE_MICROS_PER_MILLION"

definition effective_rule_ok :: "effective_model_rule \<Rightarrow> bool" where
  "effective_rule_ok rule \<longleftrightarrow> rates_ok (em_standard_short rule) \<and>
     is_none_or rates_ok (em_standard_long rule) \<and> is_none_or rates_ok (em_priority_short rule) \<and>
     is_none_or rates_ok (em_priority_long rule)"

definition model_rule_ok :: "model_rule \<Rightarrow> bool" where
  "model_rule_ok rule \<longleftrightarrow> rates_ok (mr_standard_short rule) \<and>
     is_none_or rates_ok (mr_standard_long rule) \<and> is_none_or rates_ok (mr_priority_short rule) \<and>
     is_none_or rates_ok (mr_priority_long rule)"

definition engine_rates_ok :: "pricing_engine \<Rightarrow> bool" where
  "engine_rates_ok engine \<longleftrightarrow> list_all effective_rule_ok (os_models (pe_overrides engine))"

lemma catalog_rates_ok: "list_all model_rule_ok CATALOG"
  by code_simp

lemma select_rule_rates_ok: "model_rule_ok rule \<Longrightarrow> select_rule_rates rule tier context = Inr rates \<Longrightarrow> rates_ok rates"
  by (cases tier; cases "context")
    (auto simp: select_rule_rates_def model_rule_ok_def result_simps)

lemma select_effective_rates_ok:
  "effective_rule_ok rule \<Longrightarrow> select_effective_rates rule tier context = Inr rates \<Longrightarrow> rates_ok rates"
  by (cases tier; cases "context")
    (auto simp: select_effective_rates_def effective_rule_ok_def result_simps)

lemma engine_resolve_rates_ok:
  assumes "engine_rates_ok engine" "engine_resolve engine model tier context = Inr resolved"
  shows "rates_ok (rs_rates resolved)"
proof -
  have cat: "embedded_rule m = Some rule \<Longrightarrow> select_rule_rates rule tier context = Inr rates \<Longrightarrow>
      rates_ok rates" for m rule rates
    using catalog_rates_ok embedded_rule_SomeD [of m rule] select_rule_rates_ok [of rule tier "context" rates]
    by (simp add: list_all_iff)
  have ov: "binary_search_by f (os_models (pe_overrides engine)) = Inr i \<Longrightarrow>
      select_effective_rates (os_models (pe_overrides engine) ! i) tier context = Inr rates \<Longrightarrow>
      rates_ok rates" for f i rates
    using assms(1) binary_search_bound select_effective_rates_ok
    by (metis engine_rates_ok_def list_all_length)
  show ?thesis
    using assms(2)
    by (auto simp: engine_resolve_def Let_def result_simps split: sum.splits dest: cat ov)
qed

text \<open>A rate of at most a million dollars per million tokens keeps a numerator below \<open>2 ^ 106\<close>.\<close>

lemma cost_numerator_bound: "rates_ok rates \<Longrightarrow> cost_numerator rates basis < 2 ^ 106"
proof -
  have p: "unat (t :: u64) * unat (q :: u64) \<le> 18446744073709551615 * 1000000000000"
    if "q \<le> MAX_RATE_MICROS_PER_MILLION" for t q
    using u64_bound [of t] that
    by (intro mult_le_mono) (simp_all add: word_le_nat_alt MAX_RATE_MICROS_PER_MILLION_def)
  assume "rates_ok rates"
  then show ?thesis
    using p [of "pr_uncached_input rates" "tb_uncached_input_tokens basis"]
      p [of "pr_cached_input rates" "tb_cached_input_tokens basis"]
      p [of "pr_billable_output rates" "tb_billable_output_tokens basis"]
    by (simp add: rates_ok_def cost_numerator_def)
qed

text \<open>The exact cost of a row, in micro-dollars times a million, and the events it covers.\<close>

definition exact_row :: "pricing_engine \<Rightarrow> cost_mode \<Rightarrow> price_basis_row \<Rightarrow> (nat \<times> nat) option" where
  "exact_row engine mode row =
     (if selects_reported mode row
      then map_option (\<lambda>amount. (unat amount * 1000000, unat (row_event_count row))) (row_reported_cost row)
      else if row_calculable_event_count row = 0 then None
      else case engine_resolve engine (row_model row) (row_tier row) (row_context row) of
             Inl _ \<Rightarrow> None
           | Inr resolved \<Rightarrow> Some (cost_numerator (rs_rates resolved) (row_basis row),
               unat (row_calculable_event_count row)))"

definition exact_rows :: "pricing_engine \<Rightarrow> cost_mode \<Rightarrow> price_basis_row list \<Rightarrow> (nat \<times> nat) list" where
  "exact_rows engine mode rows = List.map_filter (exact_row engine mode) rows"

lemma calculate_numerator_ok:
  assumes "rates_ok rates"
  obtains w where "calculate_numerator rates basis = Inr w" "unat w = cost_numerator rates basis"
proof -
  have "\<not> 2 ^ 128 \<le> cost_numerator rates basis"
    using cost_numerator_bound [OF assms, of basis] by simp
  then show thesis using calculate_numerator_exact [of rates basis] that by blast
qed

lemma exact_row_eq:
  assumes "engine_rates_ok engine"
  shows "row_numerator engine mode row = (case exact_row engine mode row of None \<Rightarrow> 0 | Some (n, _) \<Rightarrow> n)"
    and "row_selected engine mode row = (case exact_row engine mode row of None \<Rightarrow> 0 | Some (_, k) \<Rightarrow> k)"
    and "row_numerator engine mode row < 2 ^ 106"
proof -
  let ?res = "engine_resolve engine (row_model row) (row_tier row) (row_context row)"
  have calc: "\<exists>c. calculate_row engine row = Inr c \<and>
      unat (cw_numerator c) = cost_numerator (rs_rates resolved) (row_basis row)"
    if res: "?res = Inr resolved" and "row_calculable_event_count row \<noteq> 0" for resolved
  proof -
    obtain w where "calculate_numerator (rs_rates resolved) (row_basis row) = Inr w"
      "unat w = cost_numerator (rs_rates resolved) (row_basis row)"
      using calculate_numerator_ok [OF engine_resolve_rates_ok [OF assms res]] by blast
    with that show ?thesis by (simp add: calculate_row_def)
  qed
  have none: "\<exists>e. calculate_row engine row = Inl e"
    if "row_calculable_event_count row = 0 \<or> (\<exists>e. ?res = Inl e)"
    using that by (auto simp: calculate_row_def)
  show n: "row_numerator engine mode row = (case exact_row engine mode row of None \<Rightarrow> 0 | Some (n, _) \<Rightarrow> n)"
    and "row_selected engine mode row = (case exact_row engine mode row of None \<Rightarrow> 0 | Some (_, k) \<Rightarrow> k)"
  proof (atomize (full), cases "selects_reported mode row")
    case True
    then show "row_numerator engine mode row = (case exact_row engine mode row of None \<Rightarrow> 0 | Some (n, _) \<Rightarrow> n) \<and>
        row_selected engine mode row = (case exact_row engine mode row of None \<Rightarrow> 0 | Some (_, k) \<Rightarrow> k)"
      by (simp add: row_numerator_def row_selected_def exact_row_def split: option.split)
  next
    case False
    then show "row_numerator engine mode row = (case exact_row engine mode row of None \<Rightarrow> 0 | Some (n, _) \<Rightarrow> n) \<and>
        row_selected engine mode row = (case exact_row engine mode row of None \<Rightarrow> 0 | Some (_, k) \<Rightarrow> k)"
      using calc none
      by (cases ?res; cases "row_calculable_event_count row = 0")
        (auto simp: row_numerator_def row_selected_def exact_row_def)
  qed
  have rep: "unat (amount :: u64) * 1000000 < 2 ^ 106" for amount
    using u64_bound [of amount] by simp
  show "row_numerator engine mode row < 2 ^ 106"
    unfolding n using rep cost_numerator_bound [OF engine_resolve_rates_ok [OF assms]]
    by (auto simp: exact_row_def split: option.splits sum.splits if_splits)
qed

lemma exact_rows_sum:
  assumes "engine_rates_ok engine"
  shows "numerators engine mode rows = sum_list (map fst (exact_rows engine mode rows))"
    and "selections engine mode rows = sum_list (map snd (exact_rows engine mode rows))"
    and "numerators engine mode rows \<le> length rows * 2 ^ 106"
proof (induction rows)
  case (Cons row rows)
  { case 1 then show ?case using Cons
      by (simp add: numerators_def exact_rows_def List.map_filter_simps exact_row_eq(1) [OF assms] split: option.split) }
  { case 2 then show ?case using Cons
      by (simp add: selections_def exact_rows_def List.map_filter_simps exact_row_eq(2) [OF assms] split: option.split) }
  { case 3 then show ?case using Cons exact_row_eq(3) [OF assms, of mode row]
      by (simp add: numerators_def) }
qed (simp_all add: numerators_def selections_def exact_rows_def List.map_filter_simps)

text \<open>
  C6. The amount of a selection is exact: with every rate within the limit the rate parser imposes,
  it is the sum of the reported amounts and the exact costs of the chosen rows, rounded half up once
  at the end, and no intermediate sum overflows.  There is no amount exactly when no event of a
  non-empty selection is covered or when the rounded sum does not fit 64 bits.
\<close>

theorem select_cost_amount:
  assumes "select_cost engine mode rows omitted = Inr r" and "engine_rates_ok engine"
  defines "exact \<equiv> exact_rows engine mode rows"
  shows "cr_amount r =
    (if sum_list (map snd exact) = 0 \<and> unat omitted + events rows \<noteq> 0 \<or>
        2 ^ 64 \<le> half_up (sum_list (map fst exact))
     then None else Some (of_nat (half_up (sum_list (map fst exact)))))"
proof -
  note ok = select_cost_Inr_conditions [OF assms(1)]
  obtain st where st: "selection_inv engine mode omitted rows st" "selected st < 2 ^ 64"
    "select_cost engine mode rows omitted = finish_cost engine mode st"
    using ok by (rule select_cost_run)
  note fin = finish_cost_eq [OF st(2), of engine mode]
  have "length rows * 2 ^ 106 \<le> 512 * (2 ^ 106 :: nat)"
    using ok(1) by (simp add: MAX_PRICE_BASIS_ROWS_def)
  then have "numerators engine mode rows < 2 ^ 128"
    using exact_rows_sum(3) [OF assms(2), of mode rows] by simp
  then have nf: "\<not> sl_numeric_failure st" using st(1) by (auto simp: selection_inv_def)
  then have num: "unat (sl_numerator st) = sum_list (map fst exact)"
    and sel: "selected st = sum_list (map snd exact)"
    using st(1) by (simp_all add: selection_inv_def exact_def exact_rows_sum [OF assms(2)])
  have tot: "total_events (sl_counters st) = 0 \<longleftrightarrow> unat omitted + events rows = 0"
    using st(1) by (simp add: selection_inv_def flip: unat_eq_0)
  show ?thesis
    using fin assms(1) nf tot unfolding st(3) cost_fails_def num sel by auto
qed


theorem select_cost_amount_witness:
  "select_cost (pricing_engine_embedded id) Mode_Auto [sample_row None, sample_row (Some 12)] 0 =
     Inr sample_result \<and>
   engine_rates_ok (pricing_engine_embedded id) \<and>
   exact_rows (pricing_engine_embedded id) Mode_Auto [sample_row None, sample_row (Some 12)] =
     [(2250000000, 1), (12000000, 2)] \<and>
   cr_amount sample_result = Some (of_nat (half_up (2250000000 + 12000000)))"
proof -
  have e: "exact_rows (pricing_engine_embedded id) Mode_Auto [sample_row None, sample_row (Some 12)] =
     [(2250000000, 1), (12000000, 2)]"
    by (simp add: exact_rows_def List.map_filter_simps exact_row_def selects_reported_def sample_row_def
        sample_resolve rates_of_def token_price_basis_new_def cost_numerator_def)
  have k: "engine_rates_ok (pricing_engine_embedded id)"
    by (simp add: engine_rates_ok_def pricing_engine_embedded_def override_snapshot_empty_def from_validated_def)
  from select_cost_amount [OF sample_select k] e k sample_select show ?thesis
    by (simp add: half_up_def)
qed

end
