(* ===== verification/EngineValues.thy ===== *)
theory EngineValues
  imports Accounting
begin

text \<open>
  The values that cross the refresh engine's ports, from \<open>crates/engine/src/values.rs\<close>,
  \<open>batch.rs\<close>, \<open>time.rs\<close>, \<open>error.rs\<close> and the error and completion types of \<open>ports.rs\<close>:
  scopes and sources, manifests, checkpoints, chunk proofs, counters, diagnostics, and the
  adapter and canonical batches with all their checks.

  The results: manifests and proof batches are canonical, and canonicalising a valid adapter
  batch fails only on an observation that the canonicaliser refuses.
\<close>

section \<open>Errors\<close>

datatype engine_error = Engine_InvalidValue | Engine_CapacityExceeded | Engine_StaleRequest

datatype port_error =
    Port_Busy
  | Port_Cancelled
  | Port_DeadlineExceeded
  | Port_InvalidData
  | Port_CapacityExceeded
  | Port_StaleState
  | Port_RebuildRequired
  | Port_Unavailable
  | Port_Failed

fun port_error_from :: "engine_error \<Rightarrow> port_error" where
  "port_error_from Engine_InvalidValue = Port_InvalidData"
| "port_error_from Engine_CapacityExceeded = Port_CapacityExceeded"
| "port_error_from Engine_StaleRequest = Port_StaleState"

definition map_port_error :: "engine_error + 'a \<Rightarrow> port_error + 'a" where
  "map_port_error = map_sum port_error_from id"

section \<open>Time and request identifiers\<close>

type_synonym monotonic_time = u64
type_synonym refresh_deadline = u64
type_synonym refresh_request_id = u64

definition is_exceeded_at :: "refresh_deadline \<Rightarrow> monotonic_time \<Rightarrow> bool" where
  "is_exceeded_at self now \<longleftrightarrow> now \<ge> self"

definition refresh_request_id_new :: "u64 \<Rightarrow> engine_error + refresh_request_id" where
  "refresh_request_id_new v = (if v = 0 then Inl Engine_InvalidValue else Inr v)"

section \<open>Scopes and sources\<close>

definition MAX_PROVIDER_ID_BYTES :: nat where "MAX_PROVIDER_ID_BYTES = 64"
definition MAX_PROFILE_ID_BYTES :: nat where "MAX_PROFILE_ID_BYTES = 128"
definition MAX_SOURCE_ID_BYTES :: nat where "MAX_SOURCE_ID_BYTES = 128"
definition MAX_SCOPE_MANIFEST_ENTRIES :: nat where "MAX_SCOPE_MANIFEST_ENTRIES = 256"
definition MAX_ADAPTER_CHECKPOINT_BYTES :: nat where "MAX_ADAPTER_CHECKPOINT_BYTES = 32 * 1024"
definition MAX_CHUNK_PROOFS_PER_BATCH :: nat where "MAX_CHUNK_PROOFS_PER_BATCH = 18"
definition SOURCE_CHUNK_BYTES :: u64 where "SOURCE_CHUNK_BYTES = 1048576"

definition validate_id :: "string \<Rightarrow> nat \<Rightarrow> engine_error + unit" where
  "validate_id v max_bytes =
     (if v = [] then Inl Engine_InvalidValue
      else if length v > max_bytes then Inl Engine_CapacityExceeded
      else if \<not> list_all (\<lambda>byte. is_ascii_alphanumeric byte
             \<or> byte \<in> {CHR ''.'', CHR ''_'', CHR ''-''}) v then Inl Engine_InvalidValue
      else Inr ())"

record scope_identity =
  sc_provider_id :: string
  sc_profile_id :: string

definition scope_identity_new :: "string \<Rightarrow> string \<Rightarrow> engine_error + scope_identity" where
  "scope_identity_new provider_id profile_id =
     and_then (validate_id provider_id MAX_PROVIDER_ID_BYTES) (\<lambda>_.
     and_then (validate_id profile_id MAX_PROFILE_ID_BYTES) (\<lambda>_.
     Inr \<lparr> sc_provider_id = provider_id, sc_profile_id = profile_id \<rparr>))"

record source_identity =
  si_scope :: scope_identity
  si_source_id :: string
  si_logical_file_key :: digest

definition source_identity_new :: "scope_identity \<Rightarrow> string \<Rightarrow> digest \<Rightarrow> engine_error + source_identity" where
  "source_identity_new scope source_id logical_file_key =
     and_then (validate_id source_id MAX_SOURCE_ID_BYTES) (\<lambda>_.
     Inr \<lparr> si_scope = scope, si_source_id = source_id, si_logical_file_key = logical_file_key \<rparr>)"

datatype source_kind = Kind_Active | Kind_Direct | Kind_Archived

record discovered_source =
  ds_identity :: source_identity
  ds_kind :: source_kind

text \<open>\<open>windows(2).any(|pair| pair[0] == pair[1])\<close>.\<close>

definition has_equal_neighbours :: "'a list \<Rightarrow> bool" where
  "has_equal_neighbours xs = list_ex (\<lambda>(a, b). a = b) (zip xs (tl xs))"

text \<open>The derived order of \<open>ScopeIdentity\<close> compares its fields in order.\<close>

definition scope_order_key :: "scope_identity \<Rightarrow> string \<times> string" where
  "scope_order_key s = (sc_provider_id s, sc_profile_id s)"

type_synonym scope_manifest = "scope_identity list"

definition scope_manifest_new :: "scope_identity list \<Rightarrow> engine_error + scope_manifest" where
  "scope_manifest_new scopes =
     (if scopes = [] then Inl Engine_InvalidValue
      else if length scopes > MAX_SCOPE_MANIFEST_ENTRIES then Inl Engine_CapacityExceeded
      else let scopes = sort_key scope_order_key scopes
           in if has_equal_neighbours scopes then Inl Engine_InvalidValue else Inr scopes)"

section \<open>Checkpoints and progress\<close>

type_synonym adapter_checkpoint = "u8 list"

definition adapter_checkpoint_new :: "u8 list \<Rightarrow> engine_error + adapter_checkpoint" where
  "adapter_checkpoint_new bytes =
     (if length bytes > MAX_ADAPTER_CHECKPOINT_BYTES then Inl Engine_CapacityExceeded else Inr bytes)"

datatype adapter_verification = Adapter_Incremental | Adapter_Full

record adapter_source_progress =
  ap_schema_version :: u16
  ap_physical_identity :: "digest option"
  ap_logical_identity :: digest
  ap_committed_offset :: u64
  ap_scan_offset :: u64
  ap_observed_extent :: u64
  ap_modified_time_ns :: "i64 option"
  ap_anchor_start :: u64
  ap_anchor_len :: u16
  ap_anchor_sha256 :: digest
  ap_provider_resume :: "u8 list"
  ap_discarding_oversized_record :: bool
  ap_incomplete_tail :: bool
  ap_verification :: adapter_verification

definition adapter_source_progress_new ::
  "adapter_source_progress \<Rightarrow> engine_error + adapter_source_progress" where
  "adapter_source_progress_new parts =
     (if length (ap_provider_resume parts) > MAX_ADAPTER_CHECKPOINT_BYTES
      then Inl Engine_CapacityExceeded
      else if ap_schema_version parts = 0
         \<or> ap_scan_offset parts < ap_committed_offset parts
         \<or> ap_scan_offset parts > ap_observed_extent parts
         \<or> (\<not> ap_discarding_oversized_record parts \<and> ap_scan_offset parts \<noteq> ap_committed_offset parts)
         \<or> ap_anchor_len parts > 4096
         \<or> ap_anchor_start parts > ap_committed_offset parts
         \<or> ucast (ap_anchor_len parts) > saturating_sub (ap_committed_offset parts) (ap_anchor_start parts)
         \<or> (ap_discarding_oversized_record parts
              \<and> (\<not> ap_incomplete_tail parts \<or> ap_scan_offset parts = ap_committed_offset parts))
      then Inl Engine_InvalidValue
      else Inr parts)"

record adapter_source_state =
  as_checkpoint :: adapter_checkpoint
  as_progress :: adapter_source_progress

section \<open>Chunk proofs\<close>

record chunk_proof =
  cp_index :: u64
  cp_covered_len :: u32
  cp_sha256 :: digest

definition chunk_proof_new :: "u64 \<Rightarrow> u64 \<Rightarrow> digest \<Rightarrow> engine_error + chunk_proof" where
  "chunk_proof_new index covered_len sha =
     (if covered_len = 0 then Inl Engine_InvalidValue
      else if covered_len > SOURCE_CHUNK_BYTES then Inl Engine_CapacityExceeded
      else if unat covered_len \<ge> 2 ^ 32 then Inl Engine_CapacityExceeded
      else Inr \<lparr> cp_index = index, cp_covered_len = ucast covered_len, cp_sha256 = sha \<rparr>)"

record chunk_proof_batch =
  cb_previous_partial :: "chunk_proof option"
  cb_updates :: "chunk_proof list"

definition chunk_proof_batch_new ::
  "chunk_proof option \<Rightarrow> chunk_proof list \<Rightarrow> engine_error + chunk_proof_batch" where
  "chunk_proof_batch_new previous_partial updates =
     (if length updates > MAX_CHUNK_PROOFS_PER_BATCH then Inl Engine_CapacityExceeded
      else let updates = sort_key cp_index updates
           in if has_equal_neighbours (map cp_index updates) then Inl Engine_InvalidValue
              else Inr \<lparr> cb_previous_partial = previous_partial, cb_updates = updates \<rparr>)"

section \<open>Counters and diagnostics\<close>

record adapter_counters =
  ac_files_read :: u64
  ac_bytes_read :: u64
  ac_events_observed :: u64
  ac_diagnostics :: u64

definition adapter_counters_new :: "u64 \<Rightarrow> u64 \<Rightarrow> u64 \<Rightarrow> u64 \<Rightarrow> engine_error + adapter_counters" where
  "adapter_counters_new files_read bytes_read events_observed diagnostics =
     (if files_read > i64_max_u64 \<or> bytes_read > i64_max_u64 \<or> events_observed > i64_max_u64
         \<or> diagnostics > i64_max_u64
      then Inl Engine_CapacityExceeded
      else Inr \<lparr> ac_files_read = files_read, ac_bytes_read = bytes_read,
                 ac_events_observed = events_observed, ac_diagnostics = diagnostics \<rparr>)"

definition adapter_counters_checked_add ::
  "adapter_counters \<Rightarrow> adapter_counters \<Rightarrow> engine_error + adapter_counters" where
  "adapter_counters_checked_add self other =
     and_then (ok_or Engine_CapacityExceeded (checked_add (ac_files_read self) (ac_files_read other))) (\<lambda>files_read.
     and_then (ok_or Engine_CapacityExceeded (checked_add (ac_bytes_read self) (ac_bytes_read other))) (\<lambda>bytes_read.
     and_then (ok_or Engine_CapacityExceeded
       (checked_add (ac_events_observed self) (ac_events_observed other))) (\<lambda>events_observed.
     and_then (ok_or Engine_CapacityExceeded (checked_add (ac_diagnostics self) (ac_diagnostics other))) (\<lambda>diagnostics.
     adapter_counters_new files_read bytes_read events_observed diagnostics))))"

definition adapter_counters_default :: adapter_counters where
  "adapter_counters_default =
     \<lparr> ac_files_read = 0, ac_bytes_read = 0, ac_events_observed = 0, ac_diagnostics = 0 \<rparr>"

datatype adapter_diagnostic_code =
    Diagnostic_InvalidSource
  | Diagnostic_PermissionDenied
  | Diagnostic_SourceChanged
  | Diagnostic_IncompleteInput
  | Diagnostic_MalformedInput
  | Diagnostic_OversizedInput
  | Diagnostic_Unsupported
  | Diagnostic_Other

fun diagnostic_index :: "adapter_diagnostic_code \<Rightarrow> nat" where
  "diagnostic_index Diagnostic_InvalidSource = 0"
| "diagnostic_index Diagnostic_PermissionDenied = 1"
| "diagnostic_index Diagnostic_SourceChanged = 2"
| "diagnostic_index Diagnostic_IncompleteInput = 3"
| "diagnostic_index Diagnostic_MalformedInput = 4"
| "diagnostic_index Diagnostic_OversizedInput = 5"
| "diagnostic_index Diagnostic_Unsupported = 6"
| "diagnostic_index Diagnostic_Other = 7"

type_synonym adapter_diagnostics = "u64 list"

definition adapter_diagnostics_default :: adapter_diagnostics where
  "adapter_diagnostics_default = [0, 0, 0, 0, 0, 0, 0, 0]"

definition diagnostics_record ::
  "adapter_diagnostics \<Rightarrow> adapter_diagnostic_code \<Rightarrow> engine_error + adapter_diagnostics" where
  "diagnostics_record self code =
     and_then (ok_or Engine_CapacityExceeded
       (filter_option (\<lambda>v. v \<le> i64_max_u64) (checked_add (self ! diagnostic_index code) 1))) (\<lambda>n.
     Inr (self[diagnostic_index code := n]))"

definition diagnostics_total :: "adapter_diagnostics \<Rightarrow> engine_error + u64" where
  "diagnostics_total self =
     try_fold (\<lambda>tot n. ok_or Engine_CapacityExceeded
         (filter_option (\<lambda>v. v \<le> i64_max_u64) (checked_add tot n))) 0 self"

datatype completion_quality =
  Quality_Complete | Quality_Partial | Quality_Cancelled | Quality_Failed | Quality_TimedOut

record adapter_completion =
  cm_quality :: completion_quality
  cm_counters :: adapter_counters
  cm_diagnostics :: adapter_diagnostics

definition adapter_completion_new ::
  "completion_quality \<Rightarrow> adapter_counters \<Rightarrow> adapter_diagnostics \<Rightarrow> engine_error + adapter_completion" where
  "adapter_completion_new quality counters diagnostics =
     and_then (diagnostics_total diagnostics) (\<lambda>tot.
     if ac_diagnostics counters \<noteq> tot then Inl Engine_InvalidValue
     else Inr \<lparr> cm_quality = quality, cm_counters = counters, cm_diagnostics = diagnostics \<rparr>)"

section \<open>Batches\<close>

definition MAX_OBSERVATIONS_PER_BATCH :: nat where "MAX_OBSERVATIONS_PER_BATCH = 256"
definition MAX_RELATIONS_PER_BATCH :: nat where "MAX_RELATIONS_PER_BATCH = 256"

datatype batch_state = Batch_More | Batch_SnapshotEnd

text \<open>Both batch types carry the same parts around a different payload.\<close>

record 'payload batch =
  ba_source_identity :: source_identity
  ba_payload :: "'payload list"
  ba_relations :: "session_relation_draft list"
  ba_chunk_proofs :: chunk_proof_batch
  ba_next_checkpoint :: adapter_checkpoint
  ba_next_progress :: adapter_source_progress
  ba_state :: batch_state
  ba_counters :: adapter_counters
  ba_diagnostics :: adapter_diagnostics

type_synonym adapter_batch = "observation_draft batch"
type_synonym canonical_batch = "canonical_usage_event batch"

definition validate_batch_capacity :: "nat \<Rightarrow> nat \<Rightarrow> engine_error + unit" where
  "validate_batch_capacity event_count relation_count =
     (if event_count > MAX_OBSERVATIONS_PER_BATCH \<or> relation_count > MAX_RELATIONS_PER_BATCH
      then Inl Engine_CapacityExceeded else Inr ())"

definition validate_counts :: "nat \<Rightarrow> adapter_counters \<Rightarrow> adapter_diagnostics \<Rightarrow> engine_error + unit" where
  "validate_counts event_count counters diagnostics =
     (if event_count \<ge> 2 ^ 64 then Inl Engine_CapacityExceeded
      else if ac_events_observed counters \<noteq> word_of_nat event_count then Inl Engine_InvalidValue
      else and_then (diagnostics_total diagnostics) (\<lambda>tot.
        if ac_diagnostics counters \<noteq> tot then Inl Engine_InvalidValue else Inr ()))"

definition observation_matches_source :: "observation_draft \<Rightarrow> source_identity \<Rightarrow> bool" where
  "observation_matches_source observation source \<longleftrightarrow>
     obs_provider_id observation = sc_provider_id (si_scope source)
     \<and> obs_profile_id observation = sc_profile_id (si_scope source)
     \<and> obs_source_id observation = si_source_id source"

definition event_matches_source :: "canonical_usage_event \<Rightarrow> source_identity \<Rightarrow> bool" where
  "event_matches_source event source \<longleftrightarrow>
     obs_provider_id (ev_draft event) = sc_provider_id (si_scope source)
     \<and> obs_profile_id (ev_draft event) = sc_profile_id (si_scope source)
     \<and> obs_source_id (ev_draft event) = si_source_id source"

definition relation_matches_source :: "session_relation_draft \<Rightarrow> source_identity \<Rightarrow> bool" where
  "relation_matches_source relation source \<longleftrightarrow>
     rel_provider_id relation = sc_provider_id (si_scope source)
     \<and> rel_profile_id relation = sc_profile_id (si_scope source)
     \<and> rel_source_id relation = si_source_id source"

definition adapter_batch_new :: "source_identity \<Rightarrow> adapter_batch \<Rightarrow> engine_error + adapter_batch" where
  "adapter_batch_new source parts =
     and_then (validate_batch_capacity (length (ba_payload parts)) (length (ba_relations parts))) (\<lambda>_.
     if ap_logical_identity (ba_next_progress parts) \<noteq> si_logical_file_key source
     then Inl Engine_InvalidValue
     else if list_ex (\<lambda>observation. \<not> observation_matches_source observation source) (ba_payload parts)
        \<or> list_ex (\<lambda>relation. \<not> relation_matches_source relation source) (ba_relations parts)
     then Inl Engine_InvalidValue
     else and_then (validate_counts (length (ba_payload parts)) (ba_counters parts) (ba_diagnostics parts)) (\<lambda>_.
       Inr (parts \<lparr> ba_source_identity := source \<rparr>)))"

definition canonical_batch_new :: "source_identity \<Rightarrow> canonical_batch \<Rightarrow> engine_error + canonical_batch" where
  "canonical_batch_new source parts =
     and_then (validate_batch_capacity (length (ba_payload parts)) (length (ba_relations parts))) (\<lambda>_.
     if ap_logical_identity (ba_next_progress parts) \<noteq> si_logical_file_key source
     then Inl Engine_InvalidValue
     else if list_ex (\<lambda>event. \<not> event_matches_source event source) (ba_payload parts)
        \<or> list_ex (\<lambda>relation. \<not> relation_matches_source relation source) (ba_relations parts)
     then Inl Engine_InvalidValue
     else and_then (validate_counts (length (ba_payload parts)) (ba_counters parts) (ba_diagnostics parts)) (\<lambda>_.
       Inr (parts \<lparr> ba_source_identity := source \<rparr>)))"

text \<open>\<open>canonicalize_batch\<close> of \<open>executor.rs\<close>.\<close>

definition canonicalize_batch ::
  "hash_fun \<Rightarrow> source_identity \<Rightarrow> adapter_batch \<Rightarrow> port_error + canonical_batch" where
  "canonicalize_batch sha256 source batch =
     and_then
       (try_map (\<lambda>observation.
          case canonicalize sha256 observation of Inl _ \<Rightarrow> Inl Port_InvalidData | Inr event \<Rightarrow> Inr event)
          (ba_payload batch)) (\<lambda>events.
     map_port_error (canonical_batch_new source
       \<lparr> ba_source_identity = source, ba_payload = events, ba_relations = ba_relations batch,
         ba_chunk_proofs = ba_chunk_proofs batch, ba_next_checkpoint = ba_next_checkpoint batch,
         ba_next_progress = ba_next_progress batch, ba_state = ba_state batch,
         ba_counters = ba_counters batch, ba_diagnostics = ba_diagnostics batch \<rparr>))"


section \<open>Canonical manifests and proof batches\<close>

lemma has_equal_neighbours_iff: "has_equal_neighbours xs \<longleftrightarrow> \<not> distinct_adj xs"
proof (induction xs)
  case (Cons x xs)
  then show ?case by (cases xs) (auto simp: has_equal_neighbours_def)
qed (simp add: has_equal_neighbours_def)

lemma sorted_equal_neighbours_iff: "sorted xs \<Longrightarrow> has_equal_neighbours xs \<longleftrightarrow> \<not> distinct xs"
  for xs :: "'a::linorder list"
  by (auto simp: has_equal_neighbours_iff distinct_adj_sorted distinct_adj_altdef remdups_adj_distinct)

lemma scope_order_key_inj: "inj_on scope_order_key A"
  by (rule inj_onI) (simp add: scope_order_key_def)

lemma has_equal_neighbours_map: "inj f \<Longrightarrow> has_equal_neighbours (map f xs) \<longleftrightarrow> has_equal_neighbours xs"
  by (simp add: has_equal_neighbours_iff distinct_adj_map_iff inj_on_subset [OF _ subset_UNIV])

text \<open>
  A manifest is canonical: building one succeeds exactly for one to 256 pairwise different
  scopes, and the result is those scopes in strictly ascending order of provider and profile.
\<close>

theorem scope_manifest_canonical:
  "scope_manifest_new scopes = Inr manifest \<longleftrightarrow>
     1 \<le> length scopes \<and> length scopes \<le> 256 \<and> distinct scopes \<and>
     mset manifest = mset scopes \<and> sorted_wrt (<) (map scope_order_key manifest)"
proof -
  let ?s = "sort_key scope_order_key scopes"
  have "has_equal_neighbours ?s \<longleftrightarrow> \<not> distinct (map scope_order_key ?s)"
    using sorted_equal_neighbours_iff [of "map scope_order_key ?s"]
    by (simp add: has_equal_neighbours_map [OF scope_order_key_inj])
  also have "\<dots> \<longleftrightarrow> \<not> distinct scopes"
    by (simp add: distinct_map scope_order_key_inj)
  finally have n: "has_equal_neighbours ?s \<longleftrightarrow> \<not> distinct scopes" .
  have "manifest = ?s \<longleftrightarrow> mset manifest = mset scopes \<and> sorted_wrt (<) (map scope_order_key manifest)"
    if d: "distinct scopes"
  proof
    assume "manifest = ?s"
    then show "mset manifest = mset scopes \<and> sorted_wrt (<) (map scope_order_key manifest)"
      using d by (simp add: sorted_wrt_less_iff distinct_map scope_order_key_inj)
  next
    assume "mset manifest = mset scopes \<and> sorted_wrt (<) (map scope_order_key manifest)"
    then show "manifest = ?s"
      using d by (intro sort_key_unique) (simp_all add: sorted_wrt_less_iff distinct_map scope_order_key_inj)
  qed
  with n show ?thesis
    by (cases "scopes = []")
      (auto simp: scope_manifest_new_def Let_def MAX_SCOPE_MANIFEST_ENTRIES_def not_less Suc_le_eq)
qed

text \<open>The same for the updates of a proof batch, which are ordered by chunk index.\<close>

lemma chunk_proof_batch_canonical:
  "chunk_proof_batch_new previous updates = Inr batch \<longleftrightarrow>
     length updates \<le> 18 \<and> distinct (map cp_index updates) \<and>
     batch = \<lparr> cb_previous_partial = previous, cb_updates = sort_key cp_index updates \<rparr>"
proof -
  have "mset (map cp_index (sort_key cp_index updates)) = mset (map cp_index updates)" by simp
  then have "distinct (map cp_index (sort_key cp_index updates)) = distinct (map cp_index updates)"
    by (rule mset_eq_imp_distinct_iff)
  then show ?thesis
    using sorted_equal_neighbours_iff [of "map cp_index (sort_key cp_index updates)"]
    by (auto simp: chunk_proof_batch_new_def Let_def MAX_CHUNK_PROOFS_PER_BATCH_def)
qed

section \<open>Canonical batches\<close>

lemma canonicalize_draft: "canonicalize sha256 d = Inr ev \<Longrightarrow> ev_draft ev = d"
  by (auto simp: canonicalize_def canonical_usage_event_from_draft_def Let_def split: if_splits)

definition valid_batch_frame :: "source_identity \<Rightarrow> 'a batch \<Rightarrow> bool" where
  "valid_batch_frame source b \<longleftrightarrow>
     length (ba_payload b) \<le> 256 \<and> length (ba_relations b) \<le> 256 \<and>
     ap_logical_identity (ba_next_progress b) = si_logical_file_key source \<and>
     list_all (\<lambda>r. relation_matches_source r source) (ba_relations b) \<and>
     validate_counts (length (ba_payload b)) (ba_counters b) (ba_diagnostics b) = Inr ()"

lemma validate_batch_capacity_iff:
  "validate_batch_capacity n k = Inr u \<longleftrightarrow> n \<le> 256 \<and> k \<le> 256"
  by (simp add: validate_batch_capacity_def MAX_OBSERVATIONS_PER_BATCH_def MAX_RELATIONS_PER_BATCH_def not_less)

lemma adapter_batch_new_iff:
  "adapter_batch_new source parts = Inr b \<longleftrightarrow>
     valid_batch_frame source parts \<and>
     list_all (\<lambda>observation. observation_matches_source observation source) (ba_payload parts) \<and>
     b = parts \<lparr> ba_source_identity := source \<rparr>"
  by (auto simp: adapter_batch_new_def valid_batch_frame_def result_simps validate_batch_capacity_iff
      list_all_iff list_ex_iff)

lemma canonical_batch_new_iff:
  "canonical_batch_new source parts = Inr b \<longleftrightarrow>
     valid_batch_frame source parts \<and>
     list_all (\<lambda>event. event_matches_source event source) (ba_payload parts) \<and>
     b = parts \<lparr> ba_source_identity := source \<rparr>"
  by (auto simp: canonical_batch_new_def valid_batch_frame_def result_simps validate_batch_capacity_iff
      list_all_iff list_ex_iff)

lemma try_map_relabel:
  "try_map (\<lambda>x. case f x of Inl _ \<Rightarrow> Inl e | Inr y \<Rightarrow> Inr y) xs =
     (case try_map f xs of Inl _ \<Rightarrow> Inl e | Inr ys \<Rightarrow> Inr ys)"
  by (induction xs) (auto simp: and_then_def split: sum.splits)

text \<open>
  C36. Canonicalising a batch that the adapter built validly fails only on an observation the
  canonicaliser refuses, and then with \<open>InvalidData\<close>: otherwise the result is the same batch with
  each observation replaced by its canonical event, in order, and it satisfies every check of a
  canonical batch for the same source.
\<close>

theorem canonicalize_batch_exact:
  assumes "adapter_batch_new source parts = Inr batch"
  shows "canonicalize_batch sha256 source batch =
    (case try_map (canonicalize sha256) (ba_payload batch) of
       Inl _ \<Rightarrow> Inl Port_InvalidData
     | Inr events \<Rightarrow> Inr \<lparr> ba_source_identity = source, ba_payload = events,
         ba_relations = ba_relations batch, ba_chunk_proofs = ba_chunk_proofs batch,
         ba_next_checkpoint = ba_next_checkpoint batch, ba_next_progress = ba_next_progress batch,
         ba_state = ba_state batch, ba_counters = ba_counters batch,
         ba_diagnostics = ba_diagnostics batch \<rparr>)"
proof (cases "try_map (canonicalize sha256) (ba_payload batch)")
  case (Inl e)
  then show ?thesis by (simp add: canonicalize_batch_def try_map_relabel)
next
  case (Inr events)
  let ?b = "\<lparr> ba_source_identity = source, ba_payload = events,
         ba_relations = ba_relations batch, ba_chunk_proofs = ba_chunk_proofs batch,
         ba_next_checkpoint = ba_next_checkpoint batch, ba_next_progress = ba_next_progress batch,
         ba_state = ba_state batch, ba_counters = ba_counters batch,
         ba_diagnostics = ba_diagnostics batch \<rparr>"
  from Inr have all: "list_all2 (\<lambda>o' e. canonicalize sha256 o' = Inr e) (ba_payload batch) events"
    by (simp add: try_map_Inr_iff)
  then have "list_all2 (\<lambda>o' e. ev_draft e = o') (ba_payload batch) events"
    by (rule list_all2_mono) (rule canonicalize_draft)
  then have drafts: "map ev_draft events = ba_payload batch"
    by (induction rule: list_all2_induct) simp_all
  then have len: "length events = length (ba_payload batch)" by (metis length_map)
  from assms have frame: "valid_batch_frame source batch"
    and obs: "list_all (\<lambda>observation. observation_matches_source observation source) (ba_payload batch)"
    by (auto simp: adapter_batch_new_iff valid_batch_frame_def)
  have "valid_batch_frame source ?b" using frame len by (simp add: valid_batch_frame_def)
  moreover have "list_all (\<lambda>event. event_matches_source event source) events"
    using obs by (simp add: drafts [symmetric] list_all_iff event_matches_source_def observation_matches_source_def)
  ultimately have "canonical_batch_new source ?b = Inr ?b" by (simp add: canonical_batch_new_iff)
  with Inr show ?thesis by (simp add: canonicalize_batch_def try_map_relabel map_port_error_def)
qed

definition sample_source :: source_identity where
  "sample_source = \<lparr> si_scope = \<lparr> sc_provider_id = ''codex'', sc_profile_id = ''main'' \<rparr>,
     si_source_id = ''a'', si_logical_file_key = [] \<rparr>"

definition sample_progress :: adapter_source_progress where
  "sample_progress = \<lparr> ap_schema_version = 1, ap_physical_identity = None, ap_logical_identity = [],
     ap_committed_offset = 0, ap_scan_offset = 0, ap_observed_extent = 0, ap_modified_time_ns = None,
     ap_anchor_start = 0, ap_anchor_len = 0, ap_anchor_sha256 = [], ap_provider_resume = [],
     ap_discarding_oversized_record = False, ap_incomplete_tail = False,
     ap_verification = Adapter_Full \<rparr>"

definition sample_batch :: adapter_batch where
  "sample_batch = \<lparr> ba_source_identity = sample_source, ba_payload = [], ba_relations = [],
     ba_chunk_proofs = \<lparr> cb_previous_partial = None, cb_updates = [] \<rparr>, ba_next_checkpoint = [7],
     ba_next_progress = sample_progress, ba_state = Batch_SnapshotEnd,
     ba_counters = adapter_counters_default, ba_diagnostics = adapter_diagnostics_default \<rparr>"

lemma diagnostics_default_total: "diagnostics_total adapter_diagnostics_default = Inr 0"
  by (simp add: diagnostics_total_def adapter_diagnostics_default_def checked_add_def)

lemma sample_batch_new: "adapter_batch_new sample_source sample_batch = Inr sample_batch"
  by (simp add: adapter_batch_new_iff valid_batch_frame_def validate_counts_def sample_batch_def
      sample_source_def sample_progress_def diagnostics_default_total adapter_counters_default_def)

theorem canonicalize_batch_exact_witness:
  "adapter_batch_new sample_source sample_batch = Inr sample_batch \<and>
   (\<exists>b. canonicalize_batch id sample_source sample_batch = Inr b \<and> ba_payload b = [])"
  using canonicalize_batch_exact [OF sample_batch_new, of id] sample_batch_new
  by (simp add: sample_batch_def)

end
