(* ===== verification/Coordinator.thy ===== *)
theory Coordinator
  imports EngineValues
begin

text \<open>
  The refresh coordinator of \<open>crates/engine/src/coordinator.rs\<close>: one active refresh, at most one
  pending refresh that later requests are merged into, and request identifiers that are never
  reused.

  A cancellation token is an \<open>Arc<AtomicBool>\<close> shared by every clone of a permit, so tokens are
  references into a store and cancelling one is seen through every permit that carries it.  The
  coordinator's methods take and return the store.

  The results are about every interleaving of submissions, cancellations and completions:
  identifiers are strictly ascending and every refresh completes at most once, a completion is
  truthful about cancellation and deadlines, and the work of coalesced requests is not lost.
\<close>

section \<open>Tokens\<close>

type_synonym cancellation_token = nat

record token_store =
  ts_next :: nat
  ts_cancelled :: "nat set"

definition token_new :: "token_store \<Rightarrow> cancellation_token \<times> token_store" where
  "token_new ts = (ts_next ts, ts \<lparr> ts_next := ts_next ts + 1 \<rparr>)"

definition token_cancel :: "cancellation_token \<Rightarrow> token_store \<Rightarrow> token_store" where
  "token_cancel t ts = ts \<lparr> ts_cancelled := insert t (ts_cancelled ts) \<rparr>"

definition token_is_cancelled :: "token_store \<Rightarrow> cancellation_token \<Rightarrow> bool" where
  "token_is_cancelled ts t \<longleftrightarrow> t \<in> ts_cancelled ts"

section \<open>Requests and results\<close>

datatype refresh_urgency = Urgency_Hint | Urgency_Periodic | Urgency_Interactive | Urgency_Recovery

fun urgency_rank :: "refresh_urgency \<Rightarrow> nat" where
  "urgency_rank Urgency_Hint = 0"
| "urgency_rank Urgency_Periodic = 1"
| "urgency_rank Urgency_Interactive = 2"
| "urgency_rank Urgency_Recovery = 3"

lemma urgency_rank_inj: "urgency_rank a = urgency_rank b \<Longrightarrow> a = b"
  by (cases a; cases b) simp_all

instantiation refresh_urgency :: linorder
begin

definition less_eq_refresh_urgency :: "refresh_urgency \<Rightarrow> refresh_urgency \<Rightarrow> bool" where
  "less_eq_refresh_urgency a b \<longleftrightarrow> urgency_rank a \<le> urgency_rank b"

definition less_refresh_urgency :: "refresh_urgency \<Rightarrow> refresh_urgency \<Rightarrow> bool" where
  "less_refresh_urgency a b \<longleftrightarrow> urgency_rank a < urgency_rank b"

instance
  by standard
    (auto simp: less_eq_refresh_urgency_def less_refresh_urgency_def intro: urgency_rank_inj)

end

datatype refresh_outcome =
  Outcome_Completed | Outcome_Busy | Outcome_Cancelled | Outcome_DeadlineExceeded | Outcome_Failed

record refresh_permit =
  rp_id :: refresh_request_id
  rp_urgency :: refresh_urgency
  rp_deadline :: "refresh_deadline option"
  rp_cancellation :: cancellation_token

definition refresh_permit_new ::
  "refresh_request_id \<Rightarrow> refresh_urgency \<Rightarrow> refresh_deadline option \<Rightarrow> token_store
     \<Rightarrow> refresh_permit \<times> token_store" where
  "refresh_permit_new id' urgency deadline ts =
     (let (token, ts) = token_new ts
      in (\<lparr> rp_id = id', rp_urgency = urgency, rp_deadline = deadline, rp_cancellation = token \<rparr>, ts))"

definition permit_is_cancelled :: "token_store \<Rightarrow> refresh_permit \<Rightarrow> bool" where
  "permit_is_cancelled ts permit = token_is_cancelled ts (rp_cancellation permit)"

definition permit_deadline_exceeded :: "refresh_permit \<Rightarrow> monotonic_time \<Rightarrow> bool" where
  "permit_deadline_exceeded permit now =
     is_some_and (\<lambda>deadline. is_exceeded_at deadline now) (rp_deadline permit)"

datatype refresh_admission =
    Started refresh_permit
  | Coalesced refresh_request_id refresh_request_id
  | Admission_DeadlineExceeded refresh_request_id

record refresh_result =
  rr_request_id :: refresh_request_id
  rr_outcome :: refresh_outcome

record finish_transition =
  ft_completed :: refresh_result
  ft_follow_up :: "refresh_permit option"
  ft_pending_deadline_exceeded :: bool
  ft_pending_capacity_exceeded :: bool

record pending_refresh =
  pn_urgency :: refresh_urgency
  pn_deadline :: "refresh_deadline option"

definition pending_merge ::
  "pending_refresh \<Rightarrow> refresh_urgency \<Rightarrow> refresh_deadline option \<Rightarrow> pending_refresh" where
  "pending_merge self urgency deadline =
     \<lparr> pn_urgency = max (pn_urgency self) urgency,
       pn_deadline =
         (case (pn_deadline self, deadline) of
            (None, _) \<Rightarrow> None
          | (_, None) \<Rightarrow> None
          | (Some current, Some incoming) \<Rightarrow> Some (max current incoming)) \<rparr>"

definition pending_deadline_exceeded :: "pending_refresh \<Rightarrow> monotonic_time \<Rightarrow> bool" where
  "pending_deadline_exceeded self now =
     is_some_and (\<lambda>deadline. is_exceeded_at deadline now) (pn_deadline self)"

record active_refresh =
  af_permit :: refresh_permit
  af_pending :: "pending_refresh option"

record refresh_coordinator =
  rc_next_request_id :: "u64 option"
  rc_active :: "active_refresh option"

section \<open>Operations\<close>

definition coordinator_new :: refresh_coordinator where
  "coordinator_new = \<lparr> rc_next_request_id = Some 1, rc_active = None \<rparr>"

definition allocate_request_id ::
  "refresh_coordinator \<Rightarrow> engine_error + (refresh_request_id \<times> refresh_coordinator)" where
  "allocate_request_id self =
     and_then (ok_or Engine_CapacityExceeded (rc_next_request_id self)) (\<lambda>v.
     and_then (refresh_request_id_new v) (\<lambda>id'.
     Inr (id', self \<lparr> rc_next_request_id := checked_add v 1 \<rparr>)))"

definition coordinator_submit ::
  "refresh_coordinator \<Rightarrow> token_store \<Rightarrow> refresh_urgency \<Rightarrow> refresh_deadline option \<Rightarrow> monotonic_time
     \<Rightarrow> engine_error + (refresh_admission \<times> refresh_coordinator \<times> token_store)" where
  "coordinator_submit self ts urgency deadline now =
     and_then (allocate_request_id self) (\<lambda>(request_id, self).
     if is_some_and (\<lambda>deadline. is_exceeded_at deadline now) deadline
     then Inr (Admission_DeadlineExceeded request_id, self, ts)
     else case rc_active self of
         Some active \<Rightarrow>
           (let pending =
              (case af_pending active of
                 Some pending \<Rightarrow> pending_merge pending urgency deadline
               | None \<Rightarrow> \<lparr> pn_urgency = urgency, pn_deadline = deadline \<rparr>)
            in Inr (Coalesced request_id (rp_id (af_permit active)),
                    self \<lparr> rc_active := Some (active \<lparr> af_pending := Some pending \<rparr>) \<rparr>, ts))
       | None \<Rightarrow>
           (let (permit, ts) = refresh_permit_new request_id urgency deadline ts
            in Inr (Started permit,
                    self \<lparr> rc_active := Some \<lparr> af_permit = permit, af_pending = None \<rparr> \<rparr>, ts)))"

definition coordinator_cancel ::
  "refresh_coordinator \<Rightarrow> token_store \<Rightarrow> refresh_request_id \<Rightarrow> engine_error + token_store" where
  "coordinator_cancel self ts request_id =
     and_then (ok_or Engine_StaleRequest
       (filter_option (\<lambda>active. rp_id (af_permit active) = request_id) (rc_active self))) (\<lambda>active.
     Inr (token_cancel (rp_cancellation (af_permit active)) ts))"

text \<open>\<open>finish\<close> takes the active refresh out, and puts it back when the identifier is stale.\<close>

definition coordinator_finish ::
  "refresh_coordinator \<Rightarrow> token_store \<Rightarrow> refresh_request_id \<Rightarrow> refresh_outcome \<Rightarrow> monotonic_time
     \<Rightarrow> (engine_error + finish_transition) \<times> refresh_coordinator \<times> token_store" where
  "coordinator_finish self ts request_id outcome now =
     (case rc_active self of
        None \<Rightarrow> (Inl Engine_StaleRequest, self, ts)
      | Some active \<Rightarrow>
          if rp_id (af_permit active) \<noteq> request_id then (Inl Engine_StaleRequest, self, ts)
          else
            let self = self \<lparr> rc_active := None \<rparr>;
                outcome =
                  (if permit_is_cancelled ts (af_permit active) then Outcome_Cancelled
                   else if outcome = Outcome_Completed \<and> permit_deadline_exceeded (af_permit active) now
                   then Outcome_DeadlineExceeded
                   else outcome);
                transition =
                  \<lparr> ft_completed = \<lparr> rr_request_id = request_id, rr_outcome = outcome \<rparr>,
                    ft_follow_up = None, ft_pending_deadline_exceeded = False,
                    ft_pending_capacity_exceeded = False \<rparr>
            in case af_pending active of
                 None \<Rightarrow> (Inr transition, self, ts)
               | Some pending \<Rightarrow>
                   if pending_deadline_exceeded pending now
                   then (Inr (transition \<lparr> ft_pending_deadline_exceeded := True \<rparr>), self, ts)
                   else case allocate_request_id self of
                       Inl error \<Rightarrow>
                         if error = Engine_CapacityExceeded
                         then (Inr (transition \<lparr> ft_pending_capacity_exceeded := True \<rparr>), self, ts)
                         else (Inl error, self, ts)
                     | Inr (follow_up_id, self) \<Rightarrow>
                         (let (follow_up, ts) =
                            refresh_permit_new follow_up_id (pn_urgency pending) (pn_deadline pending) ts
                          in (Inr (transition \<lparr> ft_follow_up := Some follow_up \<rparr>),
                              self \<lparr> rc_active := Some \<lparr> af_permit = follow_up, af_pending = None \<rparr> \<rparr>,
                              ts)))"

definition pending_count :: "refresh_coordinator \<Rightarrow> nat" where
  "pending_count self =
     (if is_some_and (\<lambda>active. af_pending active \<noteq> None) (rc_active self) then 1 else 0)"

section \<open>Interleavings\<close>

datatype coordinator_call =
    Call_Submit refresh_urgency "refresh_deadline option" monotonic_time
  | Call_Cancel refresh_request_id
  | Call_Finish refresh_request_id refresh_outcome monotonic_time

datatype coordinator_reply =
    Reply_Submit "engine_error + refresh_admission"
  | Reply_Cancel "engine_error + unit"
  | Reply_Finish "engine_error + finish_transition"

text \<open>One call on the coordinator and the token store.\<close>

fun coordinator_step ::
  "coordinator_call \<Rightarrow> refresh_coordinator \<times> token_store
     \<Rightarrow> coordinator_reply \<times> refresh_coordinator \<times> token_store" where
  "coordinator_step (Call_Submit urgency deadline now) (self, ts) =
     (case coordinator_submit self ts urgency deadline now of
        Inl e \<Rightarrow> (Reply_Submit (Inl e), self, ts)
      | Inr (admission, st) \<Rightarrow> (Reply_Submit (Inr admission), st))"
| "coordinator_step (Call_Cancel request_id) (self, ts) =
     (case coordinator_cancel self ts request_id of
        Inl e \<Rightarrow> (Reply_Cancel (Inl e), self, ts)
      | Inr ts \<Rightarrow> (Reply_Cancel (Inr ()), self, ts))"
| "coordinator_step (Call_Finish request_id outcome now) (self, ts) =
     (let (reply, st) = coordinator_finish self ts request_id outcome now in (Reply_Finish reply, st))"

fun coordinator_run ::
  "coordinator_call list \<Rightarrow> refresh_coordinator \<times> token_store
     \<Rightarrow> coordinator_reply list \<times> refresh_coordinator \<times> token_store" where
  "coordinator_run [] st = ([], st)"
| "coordinator_run (c # cs) st =
     (let (reply, st) = coordinator_step c st; (replies, st) = coordinator_run cs st
      in (reply # replies, st))"

definition coordinator_start :: "refresh_coordinator \<times> token_store" where
  "coordinator_start = (coordinator_new, \<lparr> ts_next = 0, ts_cancelled = {} \<rparr>)"


section \<open>Identifiers\<close>

text \<open>The identifiers a reply hands out, and the identifier it completes.\<close>

fun issued :: "coordinator_reply \<Rightarrow> nat list" where
  "issued (Reply_Submit (Inr (Started permit))) = [unat (rp_id permit)]"
| "issued (Reply_Submit (Inr (Coalesced request_id _))) = [unat request_id]"
| "issued (Reply_Submit (Inr (Admission_DeadlineExceeded request_id))) = [unat request_id]"
| "issued (Reply_Finish (Inr transition)) = map (\<lambda>p. unat (rp_id p)) (case ft_follow_up transition of None \<Rightarrow> [] | Some p \<Rightarrow> [p])"
| "issued _ = []"

fun completed :: "coordinator_reply \<Rightarrow> nat list" where
  "completed (Reply_Finish (Inr transition)) = [unat (rr_request_id (ft_completed transition))]"
| "completed _ = []"

text \<open>The next identifier as a number; all identifiers used up is the number after the last.\<close>

definition id_bound :: "refresh_coordinator \<Rightarrow> nat" where
  "id_bound self = (case rc_next_request_id self of Some n \<Rightarrow> unat n | None \<Rightarrow> 2 ^ 64)"

definition active_id :: "refresh_coordinator \<Rightarrow> nat option" where
  "active_id self = map_option (\<lambda>active. unat (rp_id (af_permit active))) (rc_active self)"

definition coordinator_ok :: "refresh_coordinator \<times> token_store \<Rightarrow> bool" where
  "coordinator_ok st \<longleftrightarrow> 0 < id_bound (fst st) \<and>
     is_none_or (\<lambda>i. 0 < i \<and> i < id_bound (fst st)) (active_id (fst st)) \<and>
     is_none_or (\<lambda>active. rp_cancellation (af_permit active) < ts_next (snd st)) (rc_active (fst st)) \<and>
     (\<forall>t \<in> ts_cancelled (snd st). t < ts_next (snd st))"

lemma coordinator_ok_start: "coordinator_ok coordinator_start"
  by (simp add: coordinator_ok_def coordinator_start_def coordinator_new_def id_bound_def active_id_def)

lemma allocate_request_id_Inr:
  assumes "allocate_request_id self = Inr (i, self')"
  shows "unat i = id_bound self \<and> 0 < unat i \<and> id_bound self' = Suc (id_bound self) \<and>
    rc_active self' = rc_active self"
proof -
  from assms obtain v where v: "rc_next_request_id self = Some v" "v \<noteq> 0" "i = v"
    "self' = self \<lparr> rc_next_request_id := checked_add v 1 \<rparr>"
    by (auto simp: allocate_request_id_def result_simps refresh_request_id_new_def)
  have "id_bound self' = Suc (unat v)"
  proof (cases "checked_add v 1")
    case None
    then have "2 ^ 64 \<le> Suc (unat v)" by (simp add: checked_add_None_iff)
    with None v(4) unat_less_pow [of v] show ?thesis by (simp add: id_bound_def)
  next
    case (Some w)
    with v(4) show ?thesis by (simp add: id_bound_def checked_add_iff)
  qed
  with v show ?thesis by (auto simp: id_bound_def unat_eq_0 intro: gr0I)
qed

lemma allocate_request_id_Inl:
  "0 < id_bound self \<Longrightarrow> allocate_request_id self = Inl e \<Longrightarrow> e = Engine_CapacityExceeded \<and> id_bound self = 2 ^ 64"
  by (auto simp: allocate_request_id_def result_simps refresh_request_id_new_def id_bound_def)

lemma id_bound_active [simp]: "id_bound (self \<lparr> rc_active := a \<rparr>) = id_bound self"
  by (simp add: id_bound_def)

text \<open>What one step does to the bound, to the issued and to the completed identifiers.\<close>

definition step_effect ::
  "refresh_coordinator \<times> token_store \<Rightarrow> coordinator_reply \<Rightarrow> refresh_coordinator \<times> token_store \<Rightarrow> bool" where
  "step_effect st reply st' \<longleftrightarrow>
     coordinator_ok st' \<and>
     id_bound (fst st) \<le> id_bound (fst st') \<and>
     issued reply = [id_bound (fst st) ..< id_bound (fst st')] \<and>
     (completed reply = [] \<or> (\<exists>i. active_id (fst st) = Some i \<and> completed reply = [i])) \<and>
     (active_id (fst st') = None \<or>
      active_id (fst st') = active_id (fst st) \<and> completed reply = [] \<or>
      active_id (fst st') = Some (id_bound (fst st)) \<and> id_bound (fst st') = Suc (id_bound (fst st)))"

lemma submit_effect:
  assumes ok: "coordinator_ok (self, ts)"
  shows "case coordinator_step (Call_Submit urgency deadline now) (self, ts) of
    (reply, st') \<Rightarrow> step_effect (self, ts) reply st'"
proof (cases "allocate_request_id self")
  case (Inl e)
  then show ?thesis using ok by (simp add: coordinator_submit_def step_effect_def)
next
  case (Inr p)
  then obtain i self' where p: "allocate_request_id self = Inr (i, self')" by (cases p) simp
  note a = allocate_request_id_Inr [OF p]
  have range: "[id_bound self ..< Suc (id_bound self)] = [unat i]" using a by simp
  show ?thesis
  proof (cases "rc_active self")
    case None
    with a p ok range show ?thesis
      by (simp add: coordinator_submit_def step_effect_def coordinator_ok_def active_id_def
          refresh_permit_new_def token_new_def less_Suc_eq del: upt_Suc)
  next
    case (Some active)
    with a p ok range show ?thesis
      by (simp add: coordinator_submit_def step_effect_def coordinator_ok_def active_id_def
          Let_def del: upt_Suc)
  qed
qed

lemma cancel_effect:
  assumes "coordinator_ok (self, ts)"
  shows "case coordinator_step (Call_Cancel request_id) (self, ts) of
    (reply, st') \<Rightarrow> step_effect (self, ts) reply st'"
  using assms
  by (cases "rc_active self")
    (auto simp: coordinator_cancel_def step_effect_def coordinator_ok_def token_cancel_def)

lemma finish_effect:
  assumes ok: "coordinator_ok (self, ts)"
  shows "case coordinator_step (Call_Finish request_id outcome now) (self, ts) of
    (reply, st') \<Rightarrow> step_effect (self, ts) reply st'"
proof (cases "rc_active self")
  case None
  then show ?thesis using ok by (simp add: coordinator_finish_def step_effect_def)
next
  case (Some active)
  show ?thesis
  proof (cases "rp_id (af_permit active) = request_id")
    case False
    with Some ok show ?thesis by (simp add: coordinator_finish_def step_effect_def)
  next
    case True
    have act: "active_id self = Some (unat request_id)" using Some True by (simp add: active_id_def)
    let ?self = "self \<lparr> rc_active := None \<rparr>"
    have okn: "coordinator_ok (?self, ts)" using ok by (simp add: coordinator_ok_def active_id_def)
    show ?thesis
    proof (cases "af_pending active = None \<or> (\<exists>p. af_pending active = Some p \<and> pending_deadline_exceeded p now)")
      case True
      with Some \<open>rp_id (af_permit active) = request_id\<close> okn act show ?thesis
        by (auto simp: coordinator_finish_def step_effect_def active_id_def Let_def)
    next
      case False
      then obtain p where p: "af_pending active = Some p" "\<not> pending_deadline_exceeded p now" by auto
      show ?thesis
      proof (cases "allocate_request_id ?self")
        case (Inl e)
        then have "e = Engine_CapacityExceeded"
          using allocate_request_id_Inl [of ?self e] okn by (simp add: coordinator_ok_def)
        with Inl p Some True okn act show ?thesis
          by (simp add: coordinator_finish_def step_effect_def active_id_def Let_def)
      next
        case (Inr q)
        then obtain i self' where q: "allocate_request_id ?self = Inr (i, self')" by (cases q) simp
        note a = allocate_request_id_Inr [OF q]
        have range: "[id_bound self ..< Suc (id_bound self)] = [unat i]" using a by simp
        from q a p Some True ok act range show ?thesis
          by (simp add: coordinator_finish_def step_effect_def coordinator_ok_def active_id_def Let_def
              refresh_permit_new_def token_new_def less_Suc_eq del: upt_Suc)
      qed
    qed
  qed
qed

lemma coordinator_step_effect:
  "coordinator_ok st \<Longrightarrow> coordinator_step c st = (reply, st') \<Longrightarrow> step_effect st reply st'"
proof -
  assume ok: "coordinator_ok st" and step: "coordinator_step c st = (reply, st')"
  obtain self ts where st: "st = (self, ts)" by (cases st)
  have "case coordinator_step c (self, ts) of (reply, st') \<Rightarrow> step_effect (self, ts) reply st'"
  proof (cases c)
    case (Call_Submit urgency deadline now)
    with submit_effect ok st show ?thesis by metis
  next
    case (Call_Cancel request_id)
    with cancel_effect ok st show ?thesis by metis
  next
    case (Call_Finish request_id outcome now)
    with finish_effect ok st show ?thesis by metis
  qed
  with step st show ?thesis by simp
qed

definition run_effect ::
  "refresh_coordinator \<times> token_store \<Rightarrow> coordinator_reply list \<Rightarrow> refresh_coordinator \<times> token_store \<Rightarrow> bool" where
  "run_effect st replies st' \<longleftrightarrow>
     coordinator_ok st' \<and> id_bound (fst st) \<le> id_bound (fst st') \<and>
     concat (map issued replies) = [id_bound (fst st) ..< id_bound (fst st')] \<and>
     distinct (concat (map completed replies)) \<and>
     (\<forall>i \<in> set (concat (map completed replies)). active_id (fst st) = Some i \<or>
        id_bound (fst st) \<le> i \<and> i < id_bound (fst st'))"

lemma coordinator_run_effect:
  "coordinator_ok st \<Longrightarrow> coordinator_run cs st = (replies, st') \<Longrightarrow> run_effect st replies st'"
proof (induction cs arbitrary: st replies)
  case Nil
  then show ?case by (simp add: run_effect_def)
next
  case (Cons c cs)
  from Cons.prems obtain reply st1 rest where
    s: "coordinator_step c st = (reply, st1)" "coordinator_run cs st1 = (rest, st')" "replies = reply # rest"
    by (auto split: prod.splits)
  note e = coordinator_step_effect [OF Cons.prems(1) s(1)]
  then have ok1: "coordinator_ok st1" by (simp add: step_effect_def)
  note r = Cons.IH [OF ok1 s(2)]
  have b: "id_bound (fst st) \<le> id_bound (fst st1)" "id_bound (fst st1) \<le> id_bound (fst st')"
    using e r by (simp_all add: step_effect_def run_effect_def)
  have "[id_bound (fst st) ..< id_bound (fst st')] =
      [id_bound (fst st) ..< id_bound (fst st1)] @ [id_bound (fst st1) ..< id_bound (fst st')]"
    using b upt_add_eq_append [of "id_bound (fst st)" "id_bound (fst st1)" "id_bound (fst st') - id_bound (fst st1)"]
    by simp
  then have iss: "concat (map issued replies) = [id_bound (fst st) ..< id_bound (fst st')]"
    using e r by (simp add: s(3) step_effect_def run_effect_def)
  have act: "i < id_bound (fst st)" if "active_id (fst st) = Some i" for i
    using Cons.prems(1) that by (simp add: coordinator_ok_def)
  have rest: "distinct (concat (map completed rest))"
    "\<And>i. i \<in> set (concat (map completed rest)) \<Longrightarrow>
      active_id (fst st1) = Some i \<or> id_bound (fst st1) \<le> i \<and> i < id_bound (fst st')"
    using r unfolding run_effect_def by blast+
  have old: "active_id (fst st1) = Some i \<Longrightarrow>
      active_id (fst st) = Some i \<and> completed reply = [] \<or> i = id_bound (fst st) \<and> i < id_bound (fst st1)" for i
    using e by (auto simp: step_effect_def)
  have head: "completed reply = [] \<or> (\<exists>i. active_id (fst st) = Some i \<and> completed reply = [i])"
    using e by (simp add: step_effect_def)
  have "set (completed reply) \<inter> set (concat (map completed rest)) = {}"
    using head rest(2) old act b(1) by fastforce
  then have "distinct (concat (map completed replies))"
    using rest(1) head by (auto simp: s(3))
  moreover have "active_id (fst st) = Some i \<or> id_bound (fst st) \<le> i \<and> i < id_bound (fst st')"
    if "i \<in> set (concat (map completed replies))" for i
  proof -
    from that consider "i \<in> set (completed reply)" | "i \<in> set (concat (map completed rest))"
      by (auto simp: s(3))
    then show ?thesis
    proof cases
      case 1
      with head show ?thesis by auto
    next
      case 2
      from rest(2) [OF this] old [of i] b show ?thesis by auto
    qed
  qed
  ultimately show ?case using iss b r by (simp add: run_effect_def)
qed

text \<open>
  C22. Request identifiers are never reused and no refresh completes twice, whatever the order of
  submissions, cancellations and completions: the identifiers handed out, in the order of the calls,
  are exactly 1, 2, 3 and so on without gap or wrap-around, and the completed identifiers are
  distinct and were all handed out before.
\<close>

theorem coordinator_ids_unique:
  assumes "coordinator_run calls coordinator_start = (replies, st)"
  shows "concat (map issued replies) = [1 ..< id_bound (fst st)] \<and> id_bound (fst st) \<le> 2 ^ 64 \<and>
    distinct (concat (map completed replies)) \<and>
    set (concat (map completed replies)) \<subseteq> set (concat (map issued replies))"
proof -
  from coordinator_run_effect [OF coordinator_ok_start assms]
  have r: "concat (map issued replies) = [1 ..< id_bound (fst st)]"
    "distinct (concat (map completed replies))"
    "\<forall>i \<in> set (concat (map completed replies)). 1 \<le> i \<and> i < id_bound (fst st)"
    by (simp_all add: run_effect_def coordinator_start_def coordinator_new_def id_bound_def active_id_def)
  have "id_bound (fst st) \<le> 2 ^ 64"
    using unat_less_pow [where 'a = 64] by (auto simp: id_bound_def less_imp_le split: option.split)
  with r show ?thesis unfolding r(1) by auto
qed


definition sample_calls :: "coordinator_call list" where
  "sample_calls =
     [Call_Submit Urgency_Hint None 2, Call_Submit Urgency_Recovery (Some 9) 2, Call_Cancel 1,
      Call_Finish 1 Outcome_Completed 3, Call_Finish 1 Outcome_Completed 4]"

definition sample_replies :: "coordinator_reply list" where
  "sample_replies =
     [Reply_Submit (Inr (Started \<lparr> rp_id = 1, rp_urgency = Urgency_Hint, rp_deadline = None,
        rp_cancellation = 0 \<rparr>)),
      Reply_Submit (Inr (Coalesced 2 1)), Reply_Cancel (Inr ()),
      Reply_Finish (Inr \<lparr> ft_completed = \<lparr> rr_request_id = 1, rr_outcome = Outcome_Cancelled \<rparr>,
        ft_follow_up = Some \<lparr> rp_id = 3, rp_urgency = Urgency_Recovery, rp_deadline = Some 9,
          rp_cancellation = 1 \<rparr>,
        ft_pending_deadline_exceeded = False, ft_pending_capacity_exceeded = False \<rparr>),
      Reply_Finish (Inl Engine_StaleRequest)]"

definition sample_end :: "refresh_coordinator \<times> token_store" where
  "sample_end =
     (\<lparr> rc_next_request_id = Some 4, rc_active = Some \<lparr> af_permit = \<lparr> rp_id = 3,
          rp_urgency = Urgency_Recovery, rp_deadline = Some 9, rp_cancellation = 1 \<rparr>,
        af_pending = None \<rparr> \<rparr>,
      \<lparr> ts_next = 2, ts_cancelled = {0} \<rparr>)"

lemmas coordinator_eval =
  coordinator_submit_def coordinator_cancel_def coordinator_finish_def allocate_request_id_def
  refresh_request_id_new_def checked_add_def is_exceeded_at_def refresh_permit_new_def token_new_def
  token_cancel_def token_is_cancelled_def permit_is_cancelled_def permit_deadline_exceeded_def
  pending_deadline_exceeded_def pending_merge_def coordinator_start_def coordinator_new_def

lemma sample_coordinator_run:
  "coordinator_run sample_calls coordinator_start = (sample_replies, sample_end)"
  by (simp add: sample_calls_def sample_replies_def sample_end_def coordinator_eval)

theorem coordinator_ids_unique_witness:
  "coordinator_run sample_calls coordinator_start = (sample_replies, sample_end) \<and>
   concat (map issued sample_replies) = [1, 2, 3] \<and> concat (map completed sample_replies) = [1]"
  using coordinator_ids_unique [OF sample_coordinator_run] sample_coordinator_run
  by (simp add: sample_replies_def sample_end_def id_bound_def)

section \<open>Completions are truthful\<close>

text \<open>The identifiers whose cancellation was accepted, from the calls and their replies.\<close>

fun cancelled_by :: "coordinator_call \<times> coordinator_reply \<Rightarrow> nat list" where
  "cancelled_by (Call_Cancel i, Reply_Cancel (Inr _)) = [unat i]"
| "cancelled_by _ = []"

definition cancellations :: "coordinator_call list \<Rightarrow> coordinator_reply list \<Rightarrow> nat list" where
  "cancellations calls replies = concat (map cancelled_by (zip calls replies))"

definition tokens_ok :: "nat list \<Rightarrow> refresh_coordinator \<times> token_store \<Rightarrow> bool" where
  "tokens_ok cancelled st \<longleftrightarrow> coordinator_ok st \<and>
     (\<forall>i \<in> set cancelled. i < id_bound (fst st)) \<and>
     is_none_or (\<lambda>active. permit_is_cancelled (snd st) (af_permit active) \<longleftrightarrow>
        unat (rp_id (af_permit active)) \<in> set cancelled) (rc_active (fst st))"

lemma coordinator_ok_fresh_token: "coordinator_ok st \<Longrightarrow> ts_next (snd st) \<notin> ts_cancelled (snd st)"
  by (auto simp: coordinator_ok_def)

text \<open>After a step the active refresh has the old permit and token, or a fresh one.\<close>

lemma coordinator_step_permit:
  assumes "coordinator_ok (self, ts)" "coordinator_step c (self, ts) = (reply, self', ts')"
    and "rc_active self' = Some active'"
  shows "(\<exists>active. rc_active self = Some active \<and> af_permit active' = af_permit active) \<or>
    rp_cancellation (af_permit active') = ts_next ts \<and> ts_cancelled ts' = ts_cancelled ts \<and>
      unat (rp_id (af_permit active')) = id_bound self \<and> cancelled_by (c, reply) = []"
proof (cases c)
  case (Call_Submit urgency deadline now)
  show ?thesis
  proof (cases "allocate_request_id self")
    case (Inl e)
    with assms Call_Submit show ?thesis by (simp add: coordinator_submit_def)
  next
    case (Inr p)
    obtain i self1 where p: "allocate_request_id self = Inr (i, self1)" using Inr by (cases p) simp
    note a = allocate_request_id_Inr [OF p]
    show ?thesis
      using assms(2,3) a p Call_Submit
      by (cases "rc_active self")
        (auto simp: coordinator_submit_def refresh_permit_new_def token_new_def Let_def split: if_splits)
  qed
next
  case (Call_Cancel request_id)
  with assms(2,3) show ?thesis by (auto simp: coordinator_cancel_def split: sum.splits)
next
  case (Call_Finish request_id outcome now)
  let ?self = "self \<lparr> rc_active := None \<rparr>"
  show ?thesis
  proof (cases "allocate_request_id ?self")
    case (Inl e)
    with assms(2,3) Call_Finish show ?thesis
      by (auto simp: coordinator_finish_def Let_def split: option.splits if_splits)
  next
    case (Inr p)
    obtain i self1 where p: "allocate_request_id ?self = Inr (i, self1)" using Inr by (cases p) simp
    note a = allocate_request_id_Inr [OF p]
    from assms(2,3) Call_Finish p a show ?thesis
      by (auto simp: coordinator_finish_def Let_def refresh_permit_new_def token_new_def
          split: option.splits if_splits)
  qed
qed


lemma coordinator_step_tokens:
  assumes "coordinator_step c (self, ts) = (reply, self', ts')"
  shows "ts_cancelled ts' = ts_cancelled ts \<and> cancelled_by (c, reply) = [] \<or>
    (\<exists>active. c = Call_Cancel (rp_id (af_permit active)) \<and> reply = Reply_Cancel (Inr ()) \<and>
       rc_active self = Some active \<and> self' = self \<and>
       ts' = token_cancel (rp_cancellation (af_permit active)) ts)"
proof (cases c)
  case (Call_Submit urgency deadline now)
  with assms show ?thesis
    by (auto simp: coordinator_submit_def refresh_permit_new_def token_new_def Let_def and_then_def
        split: sum.splits option.splits if_splits)
next
  case (Call_Cancel request_id)
  with assms show ?thesis
    by (cases "rc_active self") (auto simp: coordinator_cancel_def split: sum.splits if_splits)
next
  case (Call_Finish request_id outcome now)
  with assms show ?thesis
    by (auto simp: coordinator_finish_def refresh_permit_new_def token_new_def Let_def
        split: sum.splits option.splits if_splits)
qed

lemma tokens_ok_step:
  assumes "tokens_ok cancelled st" "coordinator_step c st = (reply, st')"
  shows "tokens_ok (cancelled @ cancelled_by (c, reply)) st'"
proof -
  obtain self ts self' ts' where st: "st = (self, ts)" "st' = (self', ts')" by (cases st; cases st')
  have ok: "coordinator_ok (self, ts)" using assms(1) st by (simp add: tokens_ok_def)
  note e = coordinator_step_effect [OF ok assms(2) [unfolded st]]
  then have b: "id_bound self \<le> id_bound self'" and ok': "coordinator_ok (self', ts')"
    by (simp_all add: step_effect_def)
  have old: "\<And>i. i \<in> set cancelled \<Longrightarrow> i < id_bound self"
    using assms(1) st by (auto simp: tokens_ok_def)
  from coordinator_step_tokens [OF assms(2) [unfolded st]] show ?thesis
  proof (elim disjE exE conjE)
    assume t: "ts_cancelled ts' = ts_cancelled ts" and n: "cancelled_by (c, reply) = []"
    have "permit_is_cancelled ts' (af_permit active') \<longleftrightarrow> unat (rp_id (af_permit active')) \<in> set cancelled"
      if a: "rc_active self' = Some active'" for active'
      using coordinator_step_permit [OF ok assms(2) [unfolded st] a]
    proof (elim disjE exE conjE)
      fix active
      assume "rc_active self = Some active" "af_permit active' = af_permit active"
      then show ?thesis using assms(1) t
        by (simp add: st tokens_ok_def permit_is_cancelled_def token_is_cancelled_def)
    next
      assume f: "rp_cancellation (af_permit active') = ts_next ts" "unat (rp_id (af_permit active')) = id_bound self"
      have "ts_next ts \<notin> ts_cancelled ts" using coordinator_ok_fresh_token [OF ok] by simp
      moreover have "id_bound self \<notin> set cancelled" using old by blast
      ultimately show ?thesis using f t by (simp add: permit_is_cancelled_def token_is_cancelled_def)
    qed
    then show ?thesis
      using ok' old b n by (auto simp: st tokens_ok_def is_none_or_iff intro: less_le_trans)
  next
    fix active
    assume c: "c = Call_Cancel (rp_id (af_permit active))" "reply = Reply_Cancel (Inr ())"
      "rc_active self = Some active" "self' = self" "ts' = token_cancel (rp_cancellation (af_permit active)) ts"
    have "unat (rp_id (af_permit active)) < id_bound self"
      using ok c(3) by (simp add: coordinator_ok_def active_id_def)
    then show ?thesis
      using ok' old c by (auto simp: st tokens_ok_def permit_is_cancelled_def token_is_cancelled_def token_cancel_def)
  qed
qed

lemma tokens_ok_run:
  "tokens_ok cancelled st \<Longrightarrow> coordinator_run calls st = (replies, st') \<Longrightarrow>
     tokens_ok (cancelled @ cancellations calls replies) st'"
proof (induction calls arbitrary: cancelled st replies)
  case Nil
  then show ?case by (simp add: cancellations_def)
next
  case (Cons c cs)
  from Cons.prems obtain reply st1 rest where
    s: "coordinator_step c st = (reply, st1)" "coordinator_run cs st1 = (rest, st')" "replies = reply # rest"
    by (auto split: prod.splits)
  from Cons.IH [OF tokens_ok_step [OF Cons.prems(1) s(1)] s(2)] show ?case
    by (simp add: cancellations_def s(3))
qed

text \<open>
  C8. The reported outcome is truthful on every interleaving.  When the active refresh is finished,
  it is reported as cancelled exactly when the executor says so or an accepted cancellation named
  its identifier; it is reported as completed exactly when the executor completed it, it was not
  cancelled, and its own deadline had not passed.
\<close>

theorem coordinator_outcome_truthful:
  assumes "coordinator_run calls coordinator_start = (replies, self, ts)"
    and "coordinator_finish self ts request_id outcome now = (Inr transition, st')"
  shows "\<exists>active. rc_active self = Some active \<and> rp_id (af_permit active) = request_id \<and>
    rr_request_id (ft_completed transition) = request_id \<and>
    (rr_outcome (ft_completed transition) = Outcome_Cancelled \<longleftrightarrow>
       outcome = Outcome_Cancelled \<or> unat request_id \<in> set (cancellations calls replies)) \<and>
    (rr_outcome (ft_completed transition) = Outcome_Completed \<longleftrightarrow>
       outcome = Outcome_Completed \<and> unat request_id \<notin> set (cancellations calls replies) \<and>
       \<not> permit_deadline_exceeded (af_permit active) now)"
proof -
  have "tokens_ok [] coordinator_start"
    using coordinator_ok_start by (simp add: tokens_ok_def coordinator_start_def coordinator_new_def)
  from tokens_ok_run [OF this assms(1)]
  have t: "is_none_or (\<lambda>active. permit_is_cancelled ts (af_permit active) \<longleftrightarrow>
      unat (rp_id (af_permit active)) \<in> set (cancellations calls replies)) (rc_active self)"
    by (simp add: tokens_ok_def)
  from assms(2) obtain active where a: "rc_active self = Some active" "rp_id (af_permit active) = request_id"
    by (auto simp: coordinator_finish_def split: option.splits if_splits)
  have "ft_completed transition = \<lparr> rr_request_id = request_id, rr_outcome =
      (if permit_is_cancelled ts (af_permit active) then Outcome_Cancelled
       else if outcome = Outcome_Completed \<and> permit_deadline_exceeded (af_permit active) now
       then Outcome_DeadlineExceeded else outcome) \<rparr>"
    using assms(2) a
    by (auto simp: coordinator_finish_def Let_def split: option.splits if_splits sum.splits prod.splits)
  with a t show ?thesis by auto
qed

theorem coordinator_outcome_truthful_witness:
  "\<exists>replies self ts transition st'.
     coordinator_run [Call_Submit Urgency_Hint None 2, Call_Cancel 1] coordinator_start = (replies, self, ts) \<and>
     coordinator_finish self ts 1 Outcome_Completed 5 = (Inr transition, st') \<and>
     rr_outcome (ft_completed transition) = Outcome_Cancelled"
proof -
  let ?self = "\<lparr> rc_next_request_id = Some 2, rc_active = Some \<lparr> af_permit = \<lparr> rp_id = 1,
     rp_urgency = Urgency_Hint, rp_deadline = None, rp_cancellation = 0 \<rparr>, af_pending = None \<rparr> \<rparr>"
  let ?ts = "\<lparr> ts_next = 1, ts_cancelled = {0} \<rparr>"
  have run: "coordinator_run [Call_Submit Urgency_Hint None 2, Call_Cancel 1] coordinator_start =
      ([Reply_Submit (Inr (Started \<lparr> rp_id = 1, rp_urgency = Urgency_Hint, rp_deadline = None,
         rp_cancellation = 0 \<rparr>)), Reply_Cancel (Inr ())], ?self, ?ts)"
    by (simp add: coordinator_eval)
  obtain transition st' where f: "coordinator_finish ?self ?ts 1 Outcome_Completed 5 = (Inr transition, st')"
    by (simp add: coordinator_eval)
  from coordinator_outcome_truthful [OF run f] run f show ?thesis
    by (auto simp: cancellations_def)
qed


section \<open>Coalesced requests are served\<close>

type_synonym submission = "refresh_urgency \<times> refresh_deadline option \<times> monotonic_time"

definition submit_call :: "submission \<Rightarrow> coordinator_call" where
  "submit_call s = (case s of (urgency, deadline, now) \<Rightarrow> Call_Submit urgency deadline now)"

text \<open>The least demanding deadline: none if any request has none, else the latest.\<close>

definition combined_deadline :: "refresh_deadline option list \<Rightarrow> refresh_deadline option" where
  "combined_deadline ds = (if None \<in> set ds then None else Some (Max (the ` set ds)))"

definition combined :: "submission list \<Rightarrow> pending_refresh" where
  "combined subs = \<lparr> pn_urgency = Max (fst ` set subs),
     pn_deadline = combined_deadline (map (fst \<circ> snd) subs) \<rparr>"

lemma combined_snoc:
  "subs \<noteq> [] \<Longrightarrow> combined (subs @ [(u, d, t)]) = pending_merge (combined subs) u d"
proof -
  assume n: "subs \<noteq> []"
  have "Max (insert u (fst ` set subs)) = max (Max (fst ` set subs)) u"
    using n by (simp add: max.commute)
  moreover have "combined_deadline (map (fst \<circ> snd) subs @ [d]) =
      (case (combined_deadline (map (fst \<circ> snd) subs), d) of
         (None, _) \<Rightarrow> None | (_, None) \<Rightarrow> None | (Some a, Some b) \<Rightarrow> Some (max a b))"
    using n by (cases d) (auto simp: combined_deadline_def max.commute image_iff)
  ultimately show ?thesis by (simp add: combined_def pending_merge_def)
qed

lemma combined_single: "combined [(u, d, t)] = \<lparr> pn_urgency = u, pn_deadline = d \<rparr>"
  by (cases d) (simp_all add: combined_def combined_deadline_def)

definition live_submission :: "submission \<Rightarrow> bool" where
  "live_submission s = (case s of (urgency, deadline, now) \<Rightarrow>
     is_none_or (\<lambda>deadline. now < deadline) deadline)"

lemma coordinator_run_snoc:
  "coordinator_run (cs @ [c]) st =
     (let (replies, st) = coordinator_run cs st; (reply, st) = coordinator_step c st
      in (replies @ [reply], st))"
  by (induction cs arbitrary: st) (simp_all add: Let_def split: prod.split)

text \<open>Live submissions during an active refresh are merged into one pending refresh.\<close>

lemma submissions_pending:
  assumes "rc_active self = Some \<lparr> af_permit = permit, af_pending = None \<rparr>" "0 < id_bound self"
    and "list_all live_submission subs" "id_bound self + length subs \<le> 2 ^ 64"
  shows "\<exists>replies self'. coordinator_run (map submit_call subs) (self, ts) = (replies, self', ts) \<and>
    id_bound self' = id_bound self + length subs \<and>
    rc_active self' = Some \<lparr> af_permit = permit,
      af_pending = (if subs = [] then None else Some (combined subs)) \<rparr>"
  using assms(3,4)
proof (induction subs rule: rev_induct)
  case Nil
  then show ?case using assms(1) by simp
next
  case (snoc s subs)
  obtain u d t where s: "s = (u, d, t)" by (cases s) 
  from snoc obtain replies self' where
    r: "coordinator_run (map submit_call subs) (self, ts) = (replies, self', ts)"
    "id_bound self' = id_bound self + length subs"
    "rc_active self' = Some \<lparr> af_permit = permit,
      af_pending = (if subs = [] then None else Some (combined subs)) \<rparr>" by auto
  have "id_bound self' \<noteq> 2 ^ 64" "0 < id_bound self'" using r(2) snoc.prems assms(2) by simp_all
  then obtain i self1 where a: "allocate_request_id self' = Inr (i, self1)"
    using allocate_request_id_Inl [of self'] by (cases "allocate_request_id self'") auto
  note a' = allocate_request_id_Inr [OF a]
  have live: "\<not> is_some_and (\<lambda>deadline. is_exceeded_at deadline t) d"
    using snoc.prems s by (cases d) (auto simp: live_submission_def is_exceeded_at_def)
  have "coordinator_submit self' ts u d t =
      Inr (Coalesced i (rp_id permit), self1 \<lparr> rc_active := Some \<lparr> af_permit = permit,
        af_pending = Some (combined (subs @ [s])) \<rparr> \<rparr>, ts)"
    using a a' live r(3) s
    by (cases "subs = []") (simp_all add: coordinator_submit_def combined_snoc combined_single)
  moreover have "submit_call s = Call_Submit u d t" by (simp add: s submit_call_def)
  ultimately show ?case using r a' by (simp add: coordinator_run_snoc)
qed

text \<open>
  C16. No coalesced request is lost: requests submitted while a refresh is active, none of them already
  past its deadline, are served together when that refresh is finished.  If the merged deadline is
  still ahead, the completion starts one follow-up refresh with a new identifier, the highest urgency
  requested, and the latest deadline requested (or none if any request had none); it is the new
  active refresh, nothing is pending and it is not cancelled.
\<close>

theorem coalesced_requests_served:
  assumes "coordinator_ok (self, ts)"
    and "rc_active self = Some \<lparr> af_permit = permit, af_pending = None \<rparr>"
    and "subs \<noteq> []" "list_all live_submission subs" "id_bound self + length subs < 2 ^ 64"
    and "coordinator_run (map submit_call subs) (self, ts) = (replies, self', ts')"
    and "is_none_or (\<lambda>d. now < d) (combined_deadline (map (fst \<circ> snd) subs))"
  shows "\<exists>transition follow_up self'' ts''.
    coordinator_finish self' ts' (rp_id permit) outcome now = (Inr transition, self'', ts'') \<and>
    ft_follow_up transition = Some follow_up \<and>
    rp_urgency follow_up = Max (fst ` set subs) \<and>
    rp_deadline follow_up = combined_deadline (map (fst \<circ> snd) subs) \<and>
    unat (rp_id follow_up) = id_bound self + length subs \<and>
    rc_active self'' = Some \<lparr> af_permit = follow_up, af_pending = None \<rparr> \<and>
    \<not> permit_is_cancelled ts'' follow_up"
proof -
  have pos: "0 < id_bound self" using assms(1) by (simp add: coordinator_ok_def)
  from submissions_pending [OF assms(2) pos assms(4), of ts] assms(3,5,6)
  have r: "ts' = ts" "id_bound self' = id_bound self + length subs"
    "rc_active self' = Some \<lparr> af_permit = permit, af_pending = Some (combined subs) \<rparr>"
    by auto
  let ?self = "self' \<lparr> rc_active := None \<rparr>"
  have "id_bound ?self \<noteq> 2 ^ 64" "0 < id_bound ?self" using r(2) assms(5) pos by simp_all
  then obtain i self1 where a: "allocate_request_id ?self = Inr (i, self1)"
    using allocate_request_id_Inl [of ?self] by (cases "allocate_request_id ?self") auto
  note a' = allocate_request_id_Inr [OF a]
  have live: "\<not> pending_deadline_exceeded (combined subs) now"
    using assms(7) by (auto simp: pending_deadline_exceeded_def combined_def is_exceeded_at_def
        is_some_and_iff is_none_or_iff)
  have fresh: "ts_next ts \<notin> ts_cancelled ts" using coordinator_ok_fresh_token [OF assms(1)] by simp
  show ?thesis
    using r a a' live fresh
    by (simp add: coordinator_finish_def Let_def refresh_permit_new_def token_new_def combined_def
        permit_is_cancelled_def token_is_cancelled_def)
qed

theorem coalesced_requests_served_witness:
  "\<exists>replies self' ts' transition follow_up self'' ts''.
     coordinator_run (map submit_call [(Urgency_Periodic, Some 9, 2), (Urgency_Hint, Some 7, 3)])
       sample_end = (replies, self', ts') \<and>
     coordinator_finish self' ts' 3 Outcome_Failed 5 = (Inr transition, self'', ts'') \<and>
     ft_follow_up transition = Some follow_up \<and> rp_urgency follow_up = Urgency_Periodic \<and>
     rp_deadline follow_up = Some 9"
proof -
  let ?subs = "[(Urgency_Periodic, Some 9, 2), (Urgency_Hint, Some 7, 3)] :: submission list"
  obtain self ts where e: "sample_end = (self, ts)" by (cases sample_end)
  obtain replies self' ts' where run: "coordinator_run (map submit_call ?subs) (self, ts) = (replies, self', ts')"
    by (metis prod.exhaust)
  have run_start: "coordinator_run sample_calls coordinator_start = (sample_replies, self, ts)"
    using sample_coordinator_run e by simp
  have ok: "coordinator_ok (self, ts)"
    using coordinator_run_effect [OF coordinator_ok_start run_start] by (simp add: run_effect_def)
  let ?p = "\<lparr> rp_id = 3, rp_urgency = Urgency_Recovery, rp_deadline = Some 9, rp_cancellation = 1 \<rparr>"
  have a: "rc_active self = Some \<lparr> af_permit = ?p, af_pending = None \<rparr>" and b: "id_bound self = 4"
    using e by (auto simp: sample_end_def id_bound_def)
  have d: "combined_deadline (map (fst \<circ> snd) ?subs) = Some 9"
    by (simp add: combined_deadline_def max_def)
  have live: "list_all live_submission ?subs" by (simp add: live_submission_def)
  have u: "Max (fst ` set ?subs) = Urgency_Periodic"
    by (simp add: max_def less_eq_refresh_urgency_def)
  from coalesced_requests_served [OF ok a _ live _ run, of 5 Outcome_Failed] b d u run e
  show ?thesis by auto
qed

end
