(* ===== verification/Action.thy ===== *)
theory Action
  imports Prelude
begin

text \<open>
  Actions: code that reads and writes a state, may fail, and may not return.  An action maps a
  state to nothing when it does not return, and otherwise to a result and a new state; a failing
  action keeps the state changes it made, as a \<open>?\<close> in Rust does.

  \<open>wp m Q s\<close> is partial correctness: whatever \<open>m\<close> gives from \<open>s\<close> satisfies \<open>Q\<close>.  Its
  equations turn a goal about code written with these combinators into one about the operations
  the code calls.  \<open>returns m\<close> is the other half, that the action gives something.
\<close>

type_synonym ('s, 'e, 'a) act = "'s \<Rightarrow> (('e + 'a) \<times> 's) option"

definition ret :: "'a \<Rightarrow> ('s, 'e, 'a) act" where
  "ret x = (\<lambda>s. Some (Inr x, s))"

definition fail :: "'e \<Rightarrow> ('s, 'e, 'a) act" where
  "fail e = (\<lambda>s. Some (Inl e, s))"

definition lift_result :: "'e + 'a \<Rightarrow> ('s, 'e, 'a) act" where
  "lift_result r = (\<lambda>s. Some (r, s))"

definition bnd :: "('s, 'e, 'a) act \<Rightarrow> ('a \<Rightarrow> ('s, 'e, 'b) act) \<Rightarrow> ('s, 'e, 'b) act" where
  "bnd m f = (\<lambda>s. case m s of
       None \<Rightarrow> None
     | Some (Inl e, s') \<Rightarrow> Some (Inl e, s')
     | Some (Inr x, s') \<Rightarrow> f x s')"

text \<open>Running an action for its result without leaving on an error.\<close>

definition attempt :: "('s, 'e, 'a) act \<Rightarrow> ('s, 'f, 'e + 'a) act" where
  "attempt m = (\<lambda>s. case m s of None \<Rightarrow> None | Some (r, s') \<Rightarrow> Some (Inr r, s'))"

definition map_fail :: "('e \<Rightarrow> 'f) \<Rightarrow> ('s, 'e, 'a) act \<Rightarrow> ('s, 'f, 'a) act" where
  "map_fail g m = (\<lambda>s. case m s of None \<Rightarrow> None | Some (r, s') \<Rightarrow> Some (map_sum g id r, s'))"

definition gets :: "('s \<Rightarrow> 'a) \<Rightarrow> ('s, 'e, 'a) act" where
  "gets f = (\<lambda>s. Some (Inr (f s), s))"

definition modify :: "('s \<Rightarrow> 's) \<Rightarrow> ('s, 'e, unit) act" where
  "modify f = (\<lambda>s. Some (Inr (), f s))"

fun each :: "('x \<Rightarrow> ('s, 'e, unit) act) \<Rightarrow> 'x list \<Rightarrow> ('s, 'e, unit) act" where
  "each f [] = ret ()"
| "each f (x # xs) = bnd (f x) (\<lambda>_. each f xs)"

section \<open>Partial correctness\<close>

definition wp :: "('s, 'e, 'a) act \<Rightarrow> ('e + 'a \<Rightarrow> 's \<Rightarrow> bool) \<Rightarrow> 's \<Rightarrow> bool" where
  "wp m Q s \<longleftrightarrow> (case m s of None \<Rightarrow> True | Some (r, s') \<Rightarrow> Q r s')"

named_theorems wp_simps \<open>equations of wp for the actions of the model\<close>

lemma wp_ret [wp_simps]: "wp (ret x) Q s = Q (Inr x) s"
  by (simp add: wp_def ret_def)

lemma wp_fail [wp_simps]: "wp (fail e) Q s = Q (Inl e) s"
  by (simp add: wp_def fail_def)

lemma wp_lift_result [wp_simps]: "wp (lift_result r) Q s = Q r s"
  by (simp add: wp_def lift_result_def)

lemma wp_gets [wp_simps]: "wp (gets f) Q s = Q (Inr (f s)) s"
  by (simp add: wp_def gets_def)

lemma wp_modify [wp_simps]: "wp (modify f) Q s = Q (Inr ()) (f s)"
  by (simp add: wp_def modify_def)

lemma wp_bnd [wp_simps]:
  "wp (bnd m f) Q s = wp m (\<lambda>r s'. case r of Inl e \<Rightarrow> Q (Inl e) s' | Inr x \<Rightarrow> wp (f x) Q s') s"
  by (simp add: wp_def bnd_def split: option.split prod.split sum.split)

lemma wp_attempt [wp_simps]: "wp (attempt m) Q s = wp m (\<lambda>r. Q (Inr r)) s"
  by (simp add: wp_def attempt_def split: option.split)

lemma wp_map_fail [wp_simps]: "wp (map_fail g m) Q s = wp m (\<lambda>r. Q (map_sum g id r)) s"
  by (simp add: wp_def map_fail_def split: option.split)

lemma wp_mono: "wp m Q s \<Longrightarrow> (\<And>r s'. Q r s' \<Longrightarrow> Q' r s') \<Longrightarrow> wp m Q' s"
  by (auto simp: wp_def split: option.splits prod.splits)

text \<open>Sequencing through an intermediate assertion.\<close>

lemma wp_seq:
  assumes "wp m R s" "\<And>e s'. R (Inl e) s' \<Longrightarrow> Q (Inl e) s'" "\<And>x s'. R (Inr x) s' \<Longrightarrow> wp (f x) Q s'"
  shows "wp (bnd m f) Q s"
  unfolding wp_bnd by (rule wp_mono [OF assms(1)]) (use assms(2,3) in \<open>auto split: sum.split\<close>)

lemma wp_seq_attempt:
  assumes "wp m R s" "\<And>r s'. R r s' \<Longrightarrow> wp (f r) Q s'"
  shows "wp (bnd (attempt m) f) Q s"
  by (simp add: wp_bnd wp_attempt) (rule wp_mono [OF assms])

lemma wp_seq_map_fail:
  assumes "wp m R s" "\<And>e s'. R (Inl e) s' \<Longrightarrow> Q (Inl (g e)) s'" "\<And>x s'. R (Inr x) s' \<Longrightarrow> wp (f x) Q s'"
  shows "wp (bnd (map_fail g m) f) Q s"
  unfolding wp_bnd wp_map_fail
proof (rule wp_mono [OF assms(1)])
  fix r s'
  assume "R r s'"
  then show "case map_sum g id r of Inl e \<Rightarrow> Q (Inl e) s' | Inr x \<Rightarrow> wp (f x) Q s'"
    using assms(2,3) by (cases r) auto
qed

lemma wpD: "wp m Q s \<Longrightarrow> m s = Some (r, s') \<Longrightarrow> Q r s'"
  by (simp add: wp_def)

lemma wp_each:
  assumes "\<And>x s. x \<in> set xs \<Longrightarrow> I s \<Longrightarrow> wp (f x) (\<lambda>_. I) s" and "I s"
  shows "wp (each f xs) (\<lambda>_. I) s"
  using assms
proof (induction xs arbitrary: s)
  case Nil
  then show ?case by (simp add: wp_ret)
next
  case (Cons x xs)
  have "wp (f x) (\<lambda>_. I) s" using Cons.prems by simp
  then show ?case unfolding each.simps by (rule wp_seq) (use Cons in auto)
qed

section \<open>Returning\<close>

definition returns :: "('s, 'e, 'a) act \<Rightarrow> bool" where
  "returns m \<longleftrightarrow> (\<forall>s. m s \<noteq> None)"

lemma returns_bnd: "returns m \<Longrightarrow> (\<And>x. returns (f x)) \<Longrightarrow> returns (bnd m f)"
  unfolding returns_def bnd_def by (simp split: option.split prod.split sum.split)

lemma returns_attempt: "returns m \<Longrightarrow> returns (attempt m)"
  unfolding returns_def attempt_def by (simp split: option.split)

lemma returns_map_fail: "returns m \<Longrightarrow> returns (map_fail g m)"
  unfolding returns_def map_fail_def by (simp split: option.split)

lemma returns_simple:
  "returns (ret x)" "returns (fail e)" "returns (lift_result r)" "returns (gets f)" "returns (modify g)"
  by (simp_all add: returns_def ret_def fail_def lift_result_def gets_def modify_def)

lemma returns_each: "(\<And>x. x \<in> set xs \<Longrightarrow> returns (f x)) \<Longrightarrow> returns (each f xs)"
  by (induction xs) (simp_all add: returns_simple returns_bnd)

lemmas returns_intros = returns_bnd returns_attempt returns_map_fail returns_simple returns_each

end
