(* ===== verification/Executor.thy ===== *)
theory Executor
  imports Coordinator Action
begin

text \<open>
  The one-shot refresh executor of \<open>crates/engine/src/executor.rs\<close> with the port types of
  \<open>ports.rs\<close> and \<open>archive.rs\<close>: discover the scopes, scan their sources into the archive, replay
  every source batch by batch, and publish the replay or clean it up.

  The archive, the adapter and its readers are traits, so they are arguments here.  An archive is
  a record of operations on its own state.  A visit by the adapter is a tree: it ends with a
  result and a new adapter state, or it hands an item to the executor's sink and goes on with
  whatever the sink answered.  A reader is a record of operations on its own state.  The
  cancellation flag and the clock are what each check of the control happens to see.

  Elapsed-time statistics (\<open>ExecutionTimings\<close>) have no influence on the run and are left out.
  The loop over a reader's batches has no bound in the code; it takes a number of batches as fuel
  and does not return when it runs out.
\<close>

section \<open>Ports\<close>

datatype operation_stop = Stop_Cancelled | Stop_DeadlineExceeded

fun stop_error_code :: "operation_stop \<Rightarrow> port_error" where
  "stop_error_code Stop_Cancelled = Port_Cancelled"
| "stop_error_code Stop_DeadlineExceeded = Port_DeadlineExceeded"

definition stop_reason :: "bool \<Rightarrow> refresh_deadline option \<Rightarrow> monotonic_time \<Rightarrow> operation_stop option" where
  "stop_reason cancelled deadline now =
     (if cancelled then Some Stop_Cancelled
      else map_option (\<lambda>_. Stop_DeadlineExceeded)
        (filter_option (\<lambda>deadline. is_exceeded_at deadline now) deadline))"

datatype sink_control = Sink_Continue | Sink_Stop

text \<open>\<open>ArchiveScanSetId\<close>, \<open>ArchiveRevisionId\<close> and \<open>ArchiveEpoch\<close> are non-zero 64-bit numbers.\<close>

definition archive_id_new :: "u64 \<Rightarrow> engine_error + u64" where
  "archive_id_new v = (if v = 0 then Inl Engine_InvalidValue else Inr v)"

record archive_replay =
  re_revision_id :: u64
  re_epoch :: u64

datatype replay_continuation_state = Continuation_Pending | Continuation_Complete

record replay_continuation =
  rk_replay :: archive_replay
  rk_state :: replay_continuation_state

datatype replay_source_start =
    Start_Fresh
  | Start_Resume adapter_source_progress
  | Start_Complete adapter_source_progress

record 'a archive =
  ar_begin_scan_set :: "scope_manifest \<Rightarrow> 'a \<Rightarrow> (port_error + u64) \<times> 'a"
  ar_observe_source :: "u64 \<Rightarrow> discovered_source \<Rightarrow> adapter_source_state \<Rightarrow> 'a \<Rightarrow> (port_error + unit) \<times> 'a"
  ar_finish_scope :: "u64 \<Rightarrow> scope_identity \<Rightarrow> adapter_completion \<Rightarrow> 'a \<Rightarrow> (port_error + unit) \<times> 'a"
  ar_finish_scan_set :: "u64 \<Rightarrow> 'a \<Rightarrow> (port_error + completion_quality) \<times> 'a"
  ar_begin_replay :: "u64 \<Rightarrow> 'a \<Rightarrow> (port_error + archive_replay) \<times> 'a"
  ar_replay_source_start :: "archive_replay \<Rightarrow> discovered_source \<Rightarrow> 'a \<Rightarrow> (port_error + replay_source_start) \<times> 'a"
  ar_prepare_replay_source ::
    "archive_replay \<Rightarrow> discovered_source \<Rightarrow> adapter_source_state \<Rightarrow> 'a \<Rightarrow> (port_error + archive_replay) \<times> 'a"
  ar_append_replay_batch ::
    "archive_replay \<Rightarrow> source_identity \<Rightarrow> canonical_batch \<Rightarrow> 'a \<Rightarrow> (port_error + archive_replay) \<times> 'a"
  ar_continue_replay :: "archive_replay \<Rightarrow> 'a \<Rightarrow> (port_error + replay_continuation) \<times> 'a"
  ar_seal_replay :: "archive_replay \<Rightarrow> 'a \<Rightarrow> (port_error + archive_replay) \<times> 'a"
  ar_promote_replay :: "archive_replay \<Rightarrow> 'a \<Rightarrow> (port_error + unit) \<times> 'a"
  ar_discard_replay :: "archive_replay \<Rightarrow> 'a \<Rightarrow> (port_error + unit) \<times> 'a"

record 'r reader =
  rd_restore_checkpoint :: "adapter_source_progress \<Rightarrow> 'r \<Rightarrow> (port_error + adapter_checkpoint) \<times> 'r"
  rd_validate_checkpoint :: "adapter_checkpoint \<Rightarrow> 'r \<Rightarrow> (port_error + unit) \<times> 'r"
  rd_read_batch :: "adapter_checkpoint \<Rightarrow> 'r \<Rightarrow> (port_error + adapter_batch) \<times> 'r"

datatype ('x, 'y, 'd) visit =
    Visit_Done "port_error + adapter_completion" 'd
  | Visit_Emit 'x "'y \<Rightarrow> ('x, 'y, 'd) visit"

type_synonym sink_reply = "port_error + sink_control"
type_synonym 'r replay_item = "discovered_source \<times> adapter_source_state \<times> 'r"

record ('d, 'r) adapter =
  ad_visit_scopes :: "'d \<Rightarrow> (scope_identity, sink_reply, 'd) visit"
  ad_visit_sources ::
    "scope_identity \<Rightarrow> 'd \<Rightarrow> (discovered_source \<times> adapter_source_state, sink_reply, 'd) visit"
  ad_visit_replay_sources ::
    "scope_identity \<Rightarrow> 'd \<Rightarrow> ('r replay_item, sink_reply \<times> 'r, 'd) visit"

section \<open>Counts and results\<close>

definition MAX_REPLAY_CONTINUATIONS_PER_RUN :: nat where
  "MAX_REPLAY_CONTINUATIONS_PER_RUN = 4096"

record execution_counts =
  ec_observed_sources :: u64
  ec_canonical_events :: u64
  ec_adapter_batches :: u64
  ec_replay_continuations :: u64

definition execution_counts_new :: "u64 \<Rightarrow> u64 \<Rightarrow> u64 \<Rightarrow> u64 \<Rightarrow> engine_error + execution_counts" where
  "execution_counts_new observed_sources canonical_events adapter_batches replay_continuations =
     (if observed_sources > i64_max_u64 \<or> canonical_events > i64_max_u64
         \<or> adapter_batches > i64_max_u64 \<or> replay_continuations > i64_max_u64
      then Inl Engine_CapacityExceeded
      else Inr \<lparr> ec_observed_sources = observed_sources, ec_canonical_events = canonical_events,
        ec_adapter_batches = adapter_batches, ec_replay_continuations = replay_continuations \<rparr>)"

definition execution_counts_default :: execution_counts where
  "execution_counts_default = \<lparr> ec_observed_sources = 0, ec_canonical_events = 0,
     ec_adapter_batches = 0, ec_replay_continuations = 0 \<rparr>"

definition checked_count_add :: "u64 \<Rightarrow> u64 \<Rightarrow> port_error + u64" where
  "checked_count_add v amount =
     ok_or Port_CapacityExceeded (filter_option (\<lambda>next'. next' \<le> i64_max_u64) (checked_add v amount))"

definition add_observed_source :: "execution_counts \<Rightarrow> port_error + execution_counts" where
  "add_observed_source self =
     and_then (checked_count_add (ec_observed_sources self) 1) (\<lambda>n.
     Inr (self \<lparr> ec_observed_sources := n \<rparr>))"

definition add_canonical_events :: "nat \<Rightarrow> execution_counts \<Rightarrow> port_error + execution_counts" where
  "add_canonical_events n self =
     (if n \<ge> 2 ^ 64 then Inl Port_CapacityExceeded
      else and_then (checked_count_add (ec_canonical_events self) (word_of_nat n)) (\<lambda>n.
        Inr (self \<lparr> ec_canonical_events := n \<rparr>)))"

definition add_adapter_batch :: "execution_counts \<Rightarrow> port_error + execution_counts" where
  "add_adapter_batch self =
     and_then (checked_count_add (ec_adapter_batches self) 1) (\<lambda>n.
     Inr (self \<lparr> ec_adapter_batches := n \<rparr>))"

definition add_replay_continuation :: "execution_counts \<Rightarrow> port_error + execution_counts" where
  "add_replay_continuation self =
     and_then (checked_count_add (ec_replay_continuations self) 1) (\<lambda>n.
     Inr (self \<lparr> ec_replay_continuations := n \<rparr>))"

datatype replay_cleanup = Cleanup_NotRequired | Cleanup_Discarded | Cleanup_Failed

record one_shot_result =
  os_request_id :: refresh_request_id
  os_outcome :: refresh_outcome
  os_quality :: completion_quality
  os_scan_set_id :: "u64 option"
  os_published_revision_id :: "u64 option"
  os_counts :: execution_counts
  os_cleanup :: replay_cleanup
  os_error :: "port_error option"

datatype execution_terminal = Published u64 | ScanOnly completion_quality

record execution_failure =
  xf_error :: port_error
  xf_quality :: completion_quality

fun outcome_for_quality :: "completion_quality \<Rightarrow> refresh_outcome" where
  "outcome_for_quality Quality_Complete = Outcome_Completed"
| "outcome_for_quality Quality_Partial = Outcome_Completed"
| "outcome_for_quality Quality_Cancelled = Outcome_Cancelled"
| "outcome_for_quality Quality_Failed = Outcome_Failed"
| "outcome_for_quality Quality_TimedOut = Outcome_DeadlineExceeded"

definition quality_for_error :: "port_error \<Rightarrow> completion_quality" where
  "quality_for_error code =
     (case code of
        Port_Cancelled \<Rightarrow> Quality_Cancelled
      | Port_DeadlineExceeded \<Rightarrow> Quality_TimedOut
      | _ \<Rightarrow> Quality_Failed)"

fun error_for_quality :: "completion_quality \<Rightarrow> port_error" where
  "error_for_quality Quality_Complete = Port_InvalidData"
| "error_for_quality Quality_Partial = Port_Unavailable"
| "error_for_quality Quality_Cancelled = Port_Cancelled"
| "error_for_quality Quality_Failed = Port_Failed"
| "error_for_quality Quality_TimedOut = Port_DeadlineExceeded"

definition execution_failure_from :: "port_error \<Rightarrow> execution_failure" where
  "execution_failure_from error = \<lparr> xf_error = error, xf_quality = quality_for_error error \<rparr>"

definition validate_replay_transition ::
  "archive_replay \<Rightarrow> archive_replay \<Rightarrow> port_error + archive_replay" where
  "validate_replay_transition current next' =
     (if re_revision_id next' \<noteq> re_revision_id current \<or> re_epoch next' < re_epoch current
      then Inl Port_InvalidData else Inr next')"

section \<open>The state of a run\<close>

record ('a, 'd) exec =
  ex_archive :: 'a
  ex_adapter :: 'd
  ex_checks :: nat
  ex_scan_set_id :: "u64 option"
  ex_replay :: "archive_replay option"
  ex_counts :: execution_counts

type_synonym control = "nat \<Rightarrow> bool \<times> monotonic_time"

definition control_check ::
  "control \<Rightarrow> refresh_deadline option \<Rightarrow> (('a, 'd) exec, port_error, unit) act" where
  "control_check control deadline = (\<lambda>s.
     let (cancelled, now) = control (ex_checks s)
     in Some (case stop_reason cancelled deadline now of
                None \<Rightarrow> Inr () | Some stop \<Rightarrow> Inl (stop_error_code stop),
              s \<lparr> ex_checks := Suc (ex_checks s) \<rparr>))"

text \<open>A call of the archive.\<close>

definition call :: "('a \<Rightarrow> (port_error + 'b) \<times> 'a) \<Rightarrow> (('a, 'd) exec, port_error, 'b) act" where
  "call f = (\<lambda>s. let (r, a) = f (ex_archive s) in Some (r, s \<lparr> ex_archive := a \<rparr>))"

text \<open>An update of the counts that may fail, and then changes nothing.\<close>

definition update_counts ::
  "(execution_counts \<Rightarrow> port_error + execution_counts) \<Rightarrow> (('a, 'd) exec, port_error, unit) act" where
  "update_counts f = bnd (gets ex_counts) (\<lambda>c. bnd (lift_result (f c)) (\<lambda>c'.
     modify (\<lambda>s. s \<lparr> ex_counts := c' \<rparr>)))"

definition current_replay :: "(('a, 'd) exec, port_error, archive_replay) act" where
  "current_replay = bnd (gets ex_replay) (\<lambda>r. lift_result (ok_or Port_StaleState r))"

text \<open>Validating the archive's new position in the replay and keeping it.\<close>

definition advance_replay :: "archive_replay \<Rightarrow> archive_replay \<Rightarrow> (('a, 'd) exec, port_error, unit) act" where
  "advance_replay current next' =
     bnd (lift_result (validate_replay_transition current next')) (\<lambda>replay.
     modify (\<lambda>s. s \<lparr> ex_replay := Some replay \<rparr>))"

text \<open>A visit by the adapter against a sink.\<close>

primrec drive ::
  "('x, 'y, 'd) visit \<Rightarrow> ('x \<Rightarrow> ('a, 'd) exec \<Rightarrow> ('y \<times> ('a, 'd) exec) option)
     \<Rightarrow> (('a, 'd) exec, port_error, adapter_completion) act" where
  "drive (Visit_Done r d) sink = (\<lambda>s. Some (r, s \<lparr> ex_adapter := d \<rparr>))"
| "drive (Visit_Emit x k) sink = (\<lambda>s. case sink x s of None \<Rightarrow> None | Some (y, s') \<Rightarrow> drive (k y) sink s')"

section \<open>Scanning\<close>

definition completion_for_quality :: "completion_quality \<Rightarrow> port_error + adapter_completion" where
  "completion_for_quality quality =
     map_port_error (adapter_completion_new quality adapter_counters_default adapter_diagnostics_default)"

definition close_scopes ::
  "'a archive \<Rightarrow> u64 \<Rightarrow> scope_identity list \<Rightarrow> completion_quality \<Rightarrow> (('a, 'd) exec, port_error, unit) act" where
  "close_scopes archive scan_set_id scopes quality =
     each (\<lambda>scope. bnd (lift_result (completion_for_quality quality)) (\<lambda>completion.
       call (ar_finish_scope archive scan_set_id scope completion))) scopes"

definition close_failed_scan ::
  "'a archive \<Rightarrow> u64 \<Rightarrow> scope_identity list \<Rightarrow> completion_quality \<Rightarrow> (('a, 'd) exec, 'e, unit) act" where
  "close_failed_scan archive scan_set_id scopes quality =
     bnd (attempt (close_scopes archive scan_set_id scopes quality)) (\<lambda>_.
     bnd (attempt (call (ar_finish_scan_set archive scan_set_id))) (\<lambda>_. ret ()))"

text \<open>\<open>BoundedScopeSink\<close>: the collected scopes are kept beside the run's state.\<close>

primrec collect_scopes ::
  "(scope_identity, sink_reply, 'd) visit \<Rightarrow> scope_identity list
     \<Rightarrow> (port_error + adapter_completion) \<times> 'd \<times> scope_identity list" where
  "collect_scopes (Visit_Done r d) scopes = (r, d, scopes)"
| "collect_scopes (Visit_Emit scope k) scopes =
     (if length scopes \<ge> MAX_SCOPE_MANIFEST_ENTRIES
      then collect_scopes (k (Inl Port_CapacityExceeded)) scopes
      else collect_scopes (k (Inr Sink_Continue)) (scopes @ [scope]))"

text \<open>\<open>ArchiveSourceSink::on_source\<close>.\<close>

definition source_sink ::
  "'a archive \<Rightarrow> u64 \<Rightarrow> scope_identity \<Rightarrow> discovered_source \<times> adapter_source_state
     \<Rightarrow> ('a, 'd) exec \<Rightarrow> (sink_reply \<times> ('a, 'd) exec) option" where
  "source_sink archive scan_set_id expected_scope item =
     (let (source, initial_state) = item
      in if si_scope (ds_identity source) \<noteq> expected_scope then fail Port_InvalidData
         else bnd (call (ar_observe_source archive scan_set_id source initial_state)) (\<lambda>_.
              bnd (update_counts add_observed_source) (\<lambda>_.
              ret Sink_Continue)))"

definition visit_sources ::
  "'a archive \<Rightarrow> ('d, 'r) adapter \<Rightarrow> u64 \<Rightarrow> scope_identity
     \<Rightarrow> (('a, 'd) exec, port_error, adapter_completion) act" where
  "visit_sources archive adapter scan_set_id scope = (\<lambda>s.
     drive (ad_visit_sources adapter scope (ex_adapter s)) (source_sink archive scan_set_id scope) s)"

text \<open>The loop over the manifest; a value is an early end of the run.\<close>

fun scan_scopes ::
  "'a archive \<Rightarrow> ('d, 'r) adapter \<Rightarrow> control \<Rightarrow> refresh_deadline option \<Rightarrow> u64 \<Rightarrow> scope_identity list
     \<Rightarrow> (('a, 'd) exec, execution_failure, execution_terminal option) act" where
  "scan_scopes archive adapter control deadline scan_set_id [] = ret None"
| "scan_scopes archive adapter control deadline scan_set_id (scope # rest) =
     bnd (attempt (control_check control deadline)) (\<lambda>checked.
     case checked of
       Inl error \<Rightarrow>
         bnd (close_failed_scan archive scan_set_id (scope # rest) (quality_for_error error)) (\<lambda>_.
         fail (execution_failure_from error))
     | Inr _ \<Rightarrow>
     bnd (attempt (visit_sources archive adapter scan_set_id scope)) (\<lambda>completion.
     case completion of
       Inl error \<Rightarrow>
         bnd (close_failed_scan archive scan_set_id (scope # rest) (quality_for_error error)) (\<lambda>_.
         fail (execution_failure_from error))
     | Inr completion \<Rightarrow>
     bnd (attempt (call (ar_finish_scope archive scan_set_id scope completion))) (\<lambda>finished.
     case finished of
       Inl error \<Rightarrow>
         bnd (close_failed_scan archive scan_set_id rest Quality_Failed) (\<lambda>_.
         fail (execution_failure_from error))
     | Inr _ \<Rightarrow>
     if cm_quality completion \<noteq> Quality_Complete
     then bnd (map_fail execution_failure_from
                (close_scopes archive scan_set_id rest (cm_quality completion))) (\<lambda>_.
          bnd (map_fail execution_failure_from (call (ar_finish_scan_set archive scan_set_id))) (\<lambda>aggregate.
          if aggregate = Quality_Complete then fail (execution_failure_from Port_InvalidData)
          else ret (Some (ScanOnly (cm_quality completion)))))
     else scan_scopes archive adapter control deadline scan_set_id rest)))"

section \<open>Replaying\<close>

text \<open>Inside a replay sink the state is the run's state and the reader's.\<close>

definition on_exec :: "('s, 'e, 'b) act \<Rightarrow> ('s \<times> 'r, 'e, 'b) act" where
  "on_exec m = (\<lambda>(s, r). case m s of None \<Rightarrow> None | Some (x, s') \<Rightarrow> Some (x, s', r))"

definition on_reader :: "('r \<Rightarrow> (port_error + 'b) \<times> 'r) \<Rightarrow> ('s \<times> 'r, port_error, 'b) act" where
  "on_reader f = (\<lambda>(s, r). let (x, r') = f r in Some (x, s, r'))"

fun read_loop ::
  "hash_fun \<Rightarrow> 'a archive \<Rightarrow> 'r reader \<Rightarrow> control \<Rightarrow> refresh_deadline option \<Rightarrow> discovered_source
     \<Rightarrow> nat \<Rightarrow> adapter_checkpoint \<Rightarrow> (('a, 'd) exec \<times> 'r, port_error, unit) act" where
  "read_loop sha256 archive reader control deadline source 0 checkpoint = (\<lambda>s. None)"
| "read_loop sha256 archive reader control deadline source (Suc fuel) checkpoint =
     bnd (on_exec (control_check control deadline)) (\<lambda>_.
     bnd (on_reader (rd_read_batch reader checkpoint)) (\<lambda>batch.
     if ba_source_identity batch \<noteq> ds_identity source then fail Port_InvalidData
     else
     bnd (on_reader (rd_restore_checkpoint reader (ba_next_progress batch))) (\<lambda>restored_next.
     if restored_next \<noteq> ba_next_checkpoint batch then fail Port_InvalidData
     else if ba_state batch = Batch_More \<and> ba_next_checkpoint batch = checkpoint then fail Port_InvalidData
     else
     bnd (lift_result (canonicalize_batch sha256 (ds_identity source) batch)) (\<lambda>canonical.
     bnd (on_exec current_replay) (\<lambda>current.
     bnd (on_exec (call (ar_append_replay_batch archive current (ds_identity source) canonical))) (\<lambda>appended.
     bnd (on_exec (advance_replay current appended)) (\<lambda>_.
     bnd (on_exec (update_counts add_adapter_batch)) (\<lambda>_.
     bnd (on_exec (update_counts (add_canonical_events (length (ba_payload canonical))))) (\<lambda>_.
     if ba_state batch = Batch_SnapshotEnd then ret ()
     else read_loop sha256 archive reader control deadline source fuel (ba_next_checkpoint batch))))))))))"

definition replay_source ::
  "hash_fun \<Rightarrow> 'a archive \<Rightarrow> 'r reader \<Rightarrow> control \<Rightarrow> refresh_deadline option \<Rightarrow> nat \<Rightarrow> discovered_source
     \<Rightarrow> adapter_source_state \<Rightarrow> (('a, 'd) exec \<times> 'r, port_error, unit) act" where
  "replay_source sha256 archive reader control deadline fuel source initial_state =
     bnd (on_exec (control_check control deadline)) (\<lambda>_.
     bnd (on_exec current_replay) (\<lambda>current.
     bnd (on_exec (call (ar_replay_source_start archive current source))) (\<lambda>source_start.
     case source_start of
       Start_Complete progress \<Rightarrow>
         bnd (on_reader (rd_restore_checkpoint reader progress)) (\<lambda>restored.
         on_reader (rd_validate_checkpoint reader restored))
     | Start_Fresh \<Rightarrow>
         bnd (on_reader (rd_restore_checkpoint reader (as_progress initial_state))) (\<lambda>restored_initial.
         if restored_initial \<noteq> as_checkpoint initial_state then fail Port_InvalidData
         else
         bnd (on_exec (call (ar_prepare_replay_source archive current source initial_state))) (\<lambda>prepared.
         bnd (on_exec (advance_replay current prepared)) (\<lambda>_.
         read_loop sha256 archive reader control deadline source fuel restored_initial)))
     | Start_Resume progress \<Rightarrow>
         bnd (on_reader (rd_restore_checkpoint reader progress)) (\<lambda>restored_initial.
         bnd (on_reader (rd_validate_checkpoint reader restored_initial)) (\<lambda>_.
         read_loop sha256 archive reader control deadline source fuel restored_initial)))))"

text \<open>\<open>ArchiveReplaySourceSink::on_source\<close>; the adapter gets its reader back.\<close>

definition replay_sink ::
  "hash_fun \<Rightarrow> 'a archive \<Rightarrow> 'r reader \<Rightarrow> control \<Rightarrow> refresh_deadline option \<Rightarrow> nat \<Rightarrow> scope_identity
     \<Rightarrow> 'r replay_item \<Rightarrow> ('a, 'd) exec \<Rightarrow> ((sink_reply \<times> 'r) \<times> ('a, 'd) exec) option" where
  "replay_sink sha256 archive reader control deadline fuel expected_scope item s =
     (let (source, initial_state, r) = item
      in case (if si_scope (ds_identity source) \<noteq> expected_scope then fail Port_InvalidData
               else bnd (replay_source sha256 archive reader control deadline fuel source initial_state) (\<lambda>_.
                    ret Sink_Continue)) (s, r) of
           None \<Rightarrow> None
         | Some (reply, s', r') \<Rightarrow> Some ((reply, r'), s'))"

definition visit_replay_sources ::
  "hash_fun \<Rightarrow> 'a archive \<Rightarrow> ('d, 'r) adapter \<Rightarrow> 'r reader \<Rightarrow> control \<Rightarrow> refresh_deadline option \<Rightarrow> nat
     \<Rightarrow> scope_identity \<Rightarrow> (('a, 'd) exec, port_error, adapter_completion) act" where
  "visit_replay_sources sha256 archive adapter reader control deadline fuel scope = (\<lambda>s.
     drive (ad_visit_replay_sources adapter scope (ex_adapter s))
       (replay_sink sha256 archive reader control deadline fuel scope) s)"

definition replay_sources ::
  "hash_fun \<Rightarrow> 'a archive \<Rightarrow> ('d, 'r) adapter \<Rightarrow> 'r reader \<Rightarrow> control \<Rightarrow> refresh_deadline option \<Rightarrow> nat
     \<Rightarrow> scope_manifest \<Rightarrow> (('a, 'd) exec, execution_failure, unit) act" where
  "replay_sources sha256 archive adapter reader control deadline fuel manifest =
     each (\<lambda>scope.
       bnd (map_fail execution_failure_from (control_check control deadline)) (\<lambda>_.
       bnd (map_fail execution_failure_from
              (visit_replay_sources sha256 archive adapter reader control deadline fuel scope)) (\<lambda>completion.
       if cm_quality completion \<noteq> Quality_Complete
       then fail \<lparr> xf_error = error_for_quality (cm_quality completion), xf_quality = cm_quality completion \<rparr>
       else ret ()))) manifest"

section \<open>Publishing\<close>

text \<open>
  The continuation loop.  The code bounds it by the number of continuations counted so far; the
  rounds given here are one more than that bound, so they never run out.
\<close>

fun continue_loop ::
  "'a archive \<Rightarrow> control \<Rightarrow> refresh_deadline option \<Rightarrow> nat \<Rightarrow> (('a, 'd) exec, port_error, unit) act" where
  "continue_loop archive control deadline 0 = (\<lambda>s. None)"
| "continue_loop archive control deadline (Suc rounds) =
     bnd (control_check control deadline) (\<lambda>_.
     bnd (gets ex_counts) (\<lambda>counts.
     if ec_replay_continuations counts \<ge> word_of_nat MAX_REPLAY_CONTINUATIONS_PER_RUN
     then fail Port_CapacityExceeded
     else
     bnd current_replay (\<lambda>current.
     bnd (call (ar_continue_replay archive current)) (\<lambda>continuation.
     bnd (advance_replay current (rk_replay continuation)) (\<lambda>_.
     bnd (update_counts add_replay_continuation) (\<lambda>_.
     if rk_state continuation = Continuation_Complete then ret ()
     else continue_loop archive control deadline rounds))))))"

definition finish_replay ::
  "'a archive \<Rightarrow> control \<Rightarrow> refresh_deadline option \<Rightarrow> (('a, 'd) exec, port_error, u64) act" where
  "finish_replay archive control deadline =
     bnd (continue_loop archive control deadline (Suc MAX_REPLAY_CONTINUATIONS_PER_RUN)) (\<lambda>_.
     bnd (control_check control deadline) (\<lambda>_.
     bnd current_replay (\<lambda>current.
     bnd (call (ar_seal_replay archive current)) (\<lambda>sealed.
     bnd (advance_replay current sealed) (\<lambda>_.
     bnd (control_check control deadline) (\<lambda>_.
     bnd (call (ar_promote_replay archive sealed)) (\<lambda>_.
     ret (re_revision_id sealed))))))))"

section \<open>The run\<close>

definition run_with_lease ::
  "hash_fun \<Rightarrow> 'a archive \<Rightarrow> ('d, 'r) adapter \<Rightarrow> 'r reader \<Rightarrow> control \<Rightarrow> refresh_deadline option \<Rightarrow> nat
     \<Rightarrow> (('a, 'd) exec, execution_failure, execution_terminal) act" where
  "run_with_lease sha256 archive adapter reader control deadline fuel = (\<lambda>s.
     let (scope_completion, d, scopes) = collect_scopes (ad_visit_scopes adapter (ex_adapter s)) []
     in (bnd (modify (\<lambda>s. s \<lparr> ex_adapter := d \<rparr>)) (\<lambda>_.
         bnd (map_fail execution_failure_from (lift_result scope_completion)) (\<lambda>scope_completion.
         if cm_quality scope_completion \<noteq> Quality_Complete
         then ret (ScanOnly (cm_quality scope_completion))
         else
         bnd (map_fail execution_failure_from (lift_result (map_port_error (scope_manifest_new scopes)))) (\<lambda>manifest.
         bnd (map_fail execution_failure_from (control_check control deadline)) (\<lambda>_.
         bnd (map_fail execution_failure_from (call (ar_begin_scan_set archive manifest))) (\<lambda>scan_set_id.
         bnd (modify (\<lambda>s. s \<lparr> ex_scan_set_id := Some scan_set_id \<rparr>)) (\<lambda>_.
         bnd (scan_scopes archive adapter control deadline scan_set_id manifest) (\<lambda>early.
         case early of
           Some terminal \<Rightarrow> ret terminal
         | None \<Rightarrow>
         bnd (attempt (control_check control deadline)) (\<lambda>checked.
         case checked of
           Inl error \<Rightarrow>
             bnd (close_failed_scan archive scan_set_id [] (quality_for_error error)) (\<lambda>_.
             fail (execution_failure_from error))
         | Inr _ \<Rightarrow>
         bnd (map_fail execution_failure_from (call (ar_finish_scan_set archive scan_set_id))) (\<lambda>scan_quality.
         if scan_quality \<noteq> Quality_Complete then ret (ScanOnly scan_quality)
         else
         bnd (map_fail execution_failure_from (control_check control deadline)) (\<lambda>_.
         bnd (map_fail execution_failure_from (call (ar_begin_replay archive scan_set_id))) (\<lambda>replay.
         bnd (modify (\<lambda>s. s \<lparr> ex_replay := Some replay \<rparr>)) (\<lambda>_.
         bnd (replay_sources sha256 archive adapter reader control deadline fuel manifest) (\<lambda>_.
         bnd (map_fail execution_failure_from (finish_replay archive control deadline)) (\<lambda>revision.
         ret (Published revision)))))))))))))))) s)"

definition failure_result ::
  "refresh_request_id \<Rightarrow> u64 option \<Rightarrow> execution_counts \<Rightarrow> execution_failure \<Rightarrow> replay_cleanup \<Rightarrow> one_shot_result" where
  "failure_result request_id scan_set_id counts failure cleanup =
     \<lparr> os_request_id = request_id,
       os_outcome = (case xf_error failure of
          Port_Cancelled \<Rightarrow> Outcome_Cancelled
        | Port_DeadlineExceeded \<Rightarrow> Outcome_DeadlineExceeded
        | _ \<Rightarrow> Outcome_Failed),
       os_quality = xf_quality failure, os_scan_set_id = scan_set_id,
       os_published_revision_id = None, os_counts = counts, os_cleanup = cleanup,
       os_error = Some (xf_error failure) \<rparr>"

definition lease_failure_result ::
  "refresh_request_id \<Rightarrow> u64 option \<Rightarrow> execution_counts \<Rightarrow> port_error \<Rightarrow> replay_cleanup \<Rightarrow> one_shot_result" where
  "lease_failure_result request_id scan_set_id counts error cleanup =
     (let result = failure_result request_id scan_set_id counts (execution_failure_from error) cleanup
      in if error = Port_Busy then result \<lparr> os_outcome := Outcome_Busy \<rparr> else result)"

definition success_result ::
  "refresh_request_id \<Rightarrow> execution_terminal \<Rightarrow> ('a, 'd) exec \<Rightarrow> one_shot_result" where
  "success_result request_id terminal s =
     (case terminal of
        Published revision \<Rightarrow>
          \<lparr> os_request_id = request_id, os_outcome = Outcome_Completed, os_quality = Quality_Complete,
            os_scan_set_id = ex_scan_set_id s, os_published_revision_id = Some revision,
            os_counts = ex_counts s, os_cleanup = Cleanup_NotRequired, os_error = None \<rparr>
      | ScanOnly quality \<Rightarrow>
          \<lparr> os_request_id = request_id, os_outcome = outcome_for_quality quality, os_quality = quality,
            os_scan_set_id = ex_scan_set_id s, os_published_revision_id = None,
            os_counts = ex_counts s, os_cleanup = Cleanup_NotRequired, os_error = None \<rparr>)"

definition exec_start :: "'a \<Rightarrow> 'd \<Rightarrow> ('a, 'd) exec" where
  "exec_start a d = \<lparr> ex_archive = a, ex_adapter = d, ex_checks = 0, ex_scan_set_id = None,
     ex_replay = None, ex_counts = execution_counts_default \<rparr>"

definition executor_run ::
  "hash_fun \<Rightarrow> 'a archive \<Rightarrow> ('d, 'r) adapter \<Rightarrow> 'r reader \<Rightarrow> control \<Rightarrow> nat \<Rightarrow> refresh_permit
     \<Rightarrow> port_error + unit \<Rightarrow> 'a \<Rightarrow> 'd \<Rightarrow> (one_shot_result \<times> ('a, 'd) exec) option" where
  "executor_run sha256 archive adapter reader control fuel permit lease a d =
     (let deadline = rp_deadline permit
      in case control_check control deadline (exec_start a d) of
           Some (Inl error, s) \<Rightarrow>
             Some (failure_result (rp_id permit) None execution_counts_default
                     (execution_failure_from error) Cleanup_NotRequired, s)
         | Some (Inr _, s) \<Rightarrow>
             (case lease of
                Inl error \<Rightarrow>
                  Some (lease_failure_result (rp_id permit) None execution_counts_default error
                          Cleanup_NotRequired, s)
              | Inr _ \<Rightarrow>
                  (case run_with_lease sha256 archive adapter reader control deadline fuel s of
                     None \<Rightarrow> None
                   | Some (Inr terminal, s') \<Rightarrow> Some (success_result (rp_id permit) terminal s', s')
                   | Some (Inl failure, s') \<Rightarrow>
                       (case ex_replay s' of
                          None \<Rightarrow>
                            Some (failure_result (rp_id permit) (ex_scan_set_id s') (ex_counts s') failure
                                    Cleanup_NotRequired, s')
                        | Some replay \<Rightarrow>
                            (let (discarded, a') = ar_discard_replay archive replay (ex_archive s');
                                 cleanup = (case discarded of Inr _ \<Rightarrow> Cleanup_Discarded | Inl _ \<Rightarrow> Cleanup_Failed)
                             in Some (failure_result (rp_id permit) (ex_scan_set_id s') (ex_counts s') failure
                                        cleanup, s' \<lparr> ex_archive := a' \<rparr>)))))
         | None \<Rightarrow> None)"

end
