(* ===== verification/ExecutorProtocol.thy ===== *)
theory ExecutorProtocol
  imports Executor
begin

text \<open>
  What the executor asks of the archive.  Wrapping an arbitrary archive so that it records the
  calls it gets and the answers it gives, the theorems hold for every archive, adapter, reader
  and clock: the recorded calls follow a protocol (scan a manifest scope by scope, replay only a
  complete scan, read each source between its start and its last batch, drain, seal and promote
  with the latest position, discard what was not promoted), a published revision is what that
  protocol says it is, and a run that publishes nothing leaves no replay open.
\<close>

section \<open>The record of calls\<close>

datatype archive_call =
    Begin_Scan_Set scope_manifest "port_error + u64"
  | Observe_Source u64 discovered_source adapter_source_state "port_error + unit"
  | Finish_Scope u64 scope_identity adapter_completion "port_error + unit"
  | Finish_Scan_Set u64 "port_error + completion_quality"
  | Begin_Replay u64 "port_error + archive_replay"
  | Replay_Source_Start archive_replay discovered_source "port_error + replay_source_start"
  | Prepare_Replay_Source archive_replay discovered_source adapter_source_state "port_error + archive_replay"
  | Append_Replay_Batch archive_replay source_identity canonical_batch "port_error + archive_replay"
  | Continue_Replay archive_replay "port_error + replay_continuation"
  | Seal_Replay archive_replay "port_error + archive_replay"
  | Promote_Replay archive_replay "port_error + unit"
  | Discard_Replay archive_replay "port_error + unit"

definition log_call ::
  "('r \<Rightarrow> archive_call) \<Rightarrow> ('a \<Rightarrow> 'r \<times> 'a) \<Rightarrow> 'a \<times> archive_call list \<Rightarrow> 'r \<times> 'a \<times> archive_call list" where
  "log_call c f st = (let (r, a) = f (fst st) in (r, a, snd st @ [c r]))"

definition logged :: "'a archive \<Rightarrow> ('a \<times> archive_call list) archive" where
  "logged ar = \<lparr>
     ar_begin_scan_set = (\<lambda>m. log_call (Begin_Scan_Set m) (ar_begin_scan_set ar m)),
     ar_observe_source = (\<lambda>i d st. log_call (Observe_Source i d st) (ar_observe_source ar i d st)),
     ar_finish_scope = (\<lambda>i sc c. log_call (Finish_Scope i sc c) (ar_finish_scope ar i sc c)),
     ar_finish_scan_set = (\<lambda>i. log_call (Finish_Scan_Set i) (ar_finish_scan_set ar i)),
     ar_begin_replay = (\<lambda>i. log_call (Begin_Replay i) (ar_begin_replay ar i)),
     ar_replay_source_start = (\<lambda>p d. log_call (Replay_Source_Start p d) (ar_replay_source_start ar p d)),
     ar_prepare_replay_source =
       (\<lambda>p d st. log_call (Prepare_Replay_Source p d st) (ar_prepare_replay_source ar p d st)),
     ar_append_replay_batch =
       (\<lambda>p i b. log_call (Append_Replay_Batch p i b) (ar_append_replay_batch ar p i b)),
     ar_continue_replay = (\<lambda>p. log_call (Continue_Replay p) (ar_continue_replay ar p)),
     ar_seal_replay = (\<lambda>p. log_call (Seal_Replay p) (ar_seal_replay ar p)),
     ar_promote_replay = (\<lambda>p. log_call (Promote_Replay p) (ar_promote_replay ar p)),
     ar_discard_replay = (\<lambda>p. log_call (Discard_Replay p) (ar_discard_replay ar p)) \<rparr>"

lemma logged_simps [wp_simps]:
  "ar_begin_scan_set (logged ar) m = log_call (Begin_Scan_Set m) (ar_begin_scan_set ar m)"
  "ar_observe_source (logged ar) i d st = log_call (Observe_Source i d st) (ar_observe_source ar i d st)"
  "ar_finish_scope (logged ar) i sc c = log_call (Finish_Scope i sc c) (ar_finish_scope ar i sc c)"
  "ar_finish_scan_set (logged ar) i = log_call (Finish_Scan_Set i) (ar_finish_scan_set ar i)"
  "ar_begin_replay (logged ar) i = log_call (Begin_Replay i) (ar_begin_replay ar i)"
  "ar_replay_source_start (logged ar) p d = log_call (Replay_Source_Start p d) (ar_replay_source_start ar p d)"
  "ar_prepare_replay_source (logged ar) p d st =
     log_call (Prepare_Replay_Source p d st) (ar_prepare_replay_source ar p d st)"
  "ar_append_replay_batch (logged ar) p j b = log_call (Append_Replay_Batch p j b) (ar_append_replay_batch ar p j b)"
  "ar_continue_replay (logged ar) p = log_call (Continue_Replay p) (ar_continue_replay ar p)"
  "ar_seal_replay (logged ar) p = log_call (Seal_Replay p) (ar_seal_replay ar p)"
  "ar_promote_replay (logged ar) p = log_call (Promote_Replay p) (ar_promote_replay ar p)"
  "ar_discard_replay (logged ar) p = log_call (Discard_Replay p) (ar_discard_replay ar p)"
  by (simp_all add: logged_def)

section \<open>The protocol\<close>

datatype source_phase = No_Source | Needs_Prepare discovered_source | Reading source_identity

datatype phase =
    Idle
  | Scanning u64 "scope_identity list" bool
  | Scanned u64
  | Scan_Ended
  | Replaying archive_replay source_phase
  | Continuing archive_replay nat
  | Drained archive_replay
  | Sealed archive_replay
  | Failing archive_replay
  | Promoted u64
  | Discarded bool

fun open_replay :: "phase \<Rightarrow> archive_replay option" where
  "open_replay (Replaying p _) = Some p"
| "open_replay (Continuing p _) = Some p"
| "open_replay (Drained p) = Some p"
| "open_replay (Sealed p) = Some p"
| "open_replay (Failing p) = Some p"
| "open_replay _ = None"

definition valid_next :: "archive_replay \<Rightarrow> port_error + archive_replay \<Rightarrow> archive_replay option" where
  "valid_next p r = (case r of Inl _ \<Rightarrow> None
     | Inr n \<Rightarrow> if re_revision_id n = re_revision_id p \<and> re_epoch p \<le> re_epoch n then Some n else None)"

definition continued :: "archive_replay \<Rightarrow> nat \<Rightarrow> port_error + replay_continuation \<Rightarrow> phase" where
  "continued p n r = (case r of Inl _ \<Rightarrow> Failing p
     | Inr k \<Rightarrow> (case valid_next p (Inr (rk_replay k)) of None \<Rightarrow> Failing p
         | Some p' \<Rightarrow> if rk_state k = Continuation_Complete then Drained p' else Continuing p' (Suc n)))"

fun protocol :: "archive_call \<Rightarrow> phase \<Rightarrow> phase option" where
  "protocol (Begin_Scan_Set m r) ph = (case ph of
     Idle \<Rightarrow> Some (case r of Inr i \<Rightarrow> Scanning i m True | Inl _ \<Rightarrow> Scan_Ended)
   | _ \<Rightarrow> None)"
| "protocol (Observe_Source j d st r) ph = (case ph of
     Scanning i scopes complete \<Rightarrow>
       if j = i \<and> complete \<and> scopes \<noteq> [] \<and> si_scope (ds_identity d) = hd scopes then Some ph else None
   | _ \<Rightarrow> None)"
| "protocol (Finish_Scope j sc c r) ph = (case ph of
     Scanning i scopes complete \<Rightarrow>
       if j = i \<and> scopes \<noteq> [] \<and> sc = hd scopes
       then Some (Scanning i (tl scopes) (complete \<and> r = Inr () \<and> cm_quality c = Quality_Complete))
       else None
   | _ \<Rightarrow> None)"
| "protocol (Finish_Scan_Set j r) ph = (case ph of
     Scanning i scopes complete \<Rightarrow>
       if j = i
       then Some (if scopes = [] \<and> complete \<and> r = Inr Quality_Complete then Scanned i else Scan_Ended)
       else None
   | _ \<Rightarrow> None)"
| "protocol (Begin_Replay j r) ph =
     (if ph = Scanned j then Some (case r of Inr p \<Rightarrow> Replaying p No_Source | Inl _ \<Rightarrow> Scan_Ended)
      else None)"
| "protocol (Replay_Source_Start q d r) ph = (case ph of
     Replaying p sp \<Rightarrow>
       if q = p then Some (Replaying p (case r of
           Inl _ \<Rightarrow> No_Source
         | Inr start \<Rightarrow> (case start of
               Start_Fresh \<Rightarrow> Needs_Prepare d
             | Start_Resume _ \<Rightarrow> Reading (ds_identity d)
             | Start_Complete _ \<Rightarrow> No_Source)))
       else None
   | _ \<Rightarrow> None)"
| "protocol (Prepare_Replay_Source q d st r) ph =
     (if ph = Replaying q (Needs_Prepare d)
      then Some (case valid_next q r of
             Some p' \<Rightarrow> Replaying p' (Reading (ds_identity d)) | None \<Rightarrow> Replaying q No_Source)
      else None)"
| "protocol (Append_Replay_Batch q i b r) ph =
     (if ph = Replaying q (Reading i) \<and> ba_source_identity b = i
      then Some (case valid_next q r of
             Some p' \<Rightarrow> Replaying p' (if ba_state b = Batch_SnapshotEnd then No_Source else Reading i)
           | None \<Rightarrow> Replaying q No_Source)
      else None)"
| "protocol (Continue_Replay q r) ph = (case ph of
     Replaying p sp \<Rightarrow> if q = p then Some (continued p 0 r) else None
   | Continuing p n \<Rightarrow> if q = p \<and> n < MAX_REPLAY_CONTINUATIONS_PER_RUN then Some (continued p n r) else None
   | _ \<Rightarrow> None)"
| "protocol (Seal_Replay q r) ph =
     (if ph = Drained q then Some (case valid_next q r of Some p' \<Rightarrow> Sealed p' | None \<Rightarrow> Failing q) else None)"
| "protocol (Promote_Replay q r) ph =
     (if ph = Sealed q then Some (case r of Inr _ \<Rightarrow> Promoted (re_revision_id q) | Inl _ \<Rightarrow> Failing q)
      else None)"
| "protocol (Discard_Replay q r) ph =
     (if open_replay ph = Some q then Some (Discarded (r = Inr ())) else None)"

definition phase_of :: "archive_call list \<Rightarrow> phase option" where
  "phase_of calls = foldl (\<lambda>ph c. Option.bind ph (protocol c)) (Some Idle) calls"

lemma phase_of_simps [simp]:
  "phase_of [] = Some Idle"
  "phase_of (cs @ ds) = foldl (\<lambda>ph c. Option.bind ph (protocol c)) (phase_of cs) ds"
  by (simp_all add: phase_of_def)

text \<open>The phase a run is in.\<close>

abbreviation run_log :: "('a \<times> archive_call list, 'd) exec \<Rightarrow> archive_call list" where
  "run_log s \<equiv> snd (ex_archive s)"

abbreviation run_phase :: "('a \<times> archive_call list, 'd) exec \<Rightarrow> phase option" where
  "run_phase s \<equiv> phase_of (run_log s)"

section \<open>Actions of the executor\<close>

lemma wp_call [wp_simps]:
  "wp (call (log_call c f)) Q s =
     (case f (fst (ex_archive s)) of (r, a) \<Rightarrow> Q r (s \<lparr> ex_archive := (a, run_log s @ [c r]) \<rparr>))"
  by (simp add: wp_def call_def log_call_def split: prod.split)

lemma wp_control_check [wp_simps]:
  "wp (control_check control deadline) Q s =
     (case control (ex_checks s) of (cancelled, now) \<Rightarrow>
        Q (case stop_reason cancelled deadline now of None \<Rightarrow> Inr () | Some stop \<Rightarrow> Inl (stop_error_code stop))
          (s \<lparr> ex_checks := Suc (ex_checks s) \<rparr>))"
  by (simp add: wp_def control_check_def Let_def split: prod.split)

lemma wp_on_exec [wp_simps]: "wp (on_exec m) Q (s, r) = wp m (\<lambda>x s'. Q x (s', r)) s"
  by (simp add: wp_def on_exec_def split: option.split)

lemma wp_on_reader [wp_simps]: "wp (on_reader f) Q (s, r) = (case f r of (x, r') \<Rightarrow> Q x (s, r'))"
  by (simp add: wp_def on_reader_def Let_def split: prod.split)

lemma wp_update_counts [wp_simps]:
  "wp (update_counts f) Q s = (case f (ex_counts s) of
     Inl e \<Rightarrow> Q (Inl e) s | Inr c \<Rightarrow> Q (Inr ()) (s \<lparr> ex_counts := c \<rparr>))"
  by (simp add: update_counts_def wp_simps split: sum.split)

lemma wp_current_replay [wp_simps]:
  "wp current_replay Q s = Q (ok_or Port_StaleState (ex_replay s)) s"
  by (simp add: current_replay_def wp_simps)

lemma validate_replay_transition_eq:
  "validate_replay_transition p n = ok_or Port_InvalidData (valid_next p (Inr n))"
  by (auto simp: validate_replay_transition_def valid_next_def not_less)

lemma wp_advance_replay [wp_simps]:
  "wp (advance_replay p n) Q s = (case valid_next p (Inr n) of
     None \<Rightarrow> Q (Inl Port_InvalidData) s
   | Some p' \<Rightarrow> Q (Inr ()) (s \<lparr> ex_replay := Some p' \<rparr>))"
  by (simp add: advance_replay_def validate_replay_transition_eq wp_simps split: option.split)

lemma valid_next_simps [simp]: "valid_next p (Inl e) = None"
  by (simp add: valid_next_def)

lemma valid_next_Some: "valid_next p (Inr n) = Some p' \<Longrightarrow> p' = n"
  by (simp add: valid_next_def split: if_splits)

lemma wp_drive:
  assumes sink: "\<And>x s y s'. I s \<Longrightarrow> sink x s = Some (y, s') \<Longrightarrow> I s'"
    and adapter: "\<And>s d. I s \<Longrightarrow> I (s \<lparr> ex_adapter := d \<rparr>)" and "I s"
  shows "wp (drive v sink) (\<lambda>_. I) s"
  using assms(3)
proof (induction v arbitrary: s)
  case (Visit_Done r d)
  then show ?case by (simp add: wp_def adapter)
next
  case (Visit_Emit x k)
  show ?case
  proof (cases "sink x s")
    case None
    then show ?thesis by (simp add: wp_def)
  next
    case (Some ys)
    obtain y s' where ys: "ys = (y, s')" by (cases ys)
    with Some sink Visit_Emit.prems have "I s'" by blast
    from Visit_Emit.IH [OF _ this, of "k y"] show ?thesis by (simp add: wp_def Some ys)
  qed
qed

lemma add_counts_keep:
  "add_observed_source c = Inr c' \<Longrightarrow> ec_replay_continuations c' = ec_replay_continuations c"
  "add_adapter_batch c = Inr c' \<Longrightarrow> ec_replay_continuations c' = ec_replay_continuations c"
  "add_canonical_events n c = Inr c' \<Longrightarrow> ec_replay_continuations c' = ec_replay_continuations c"
  by (auto simp: add_observed_source_def add_adapter_batch_def add_canonical_events_def and_then_Inr_iff
        split: if_splits)


section \<open>Scanning follows the protocol\<close>

lemma completion_for_quality_ok:
  "\<exists>c. completion_for_quality q = Inr c \<and> cm_quality c = q"
  by (simp add: completion_for_quality_def adapter_completion_new_def map_port_error_def
      adapter_counters_default_def diagnostics_default_total)

lemma close_scopes_phase:
  assumes "run_phase s = Some (Scanning i scopes complete)"
  shows "wp (close_scopes (logged ar) i scopes q)
     (\<lambda>r s'. (\<exists>rest complete'. run_phase s' = Some (Scanning i rest complete') \<and>
           (complete' \<longrightarrow> complete) \<and>
           (r = Inr () \<and> scopes \<noteq> [] \<and> q \<noteq> Quality_Complete \<longrightarrow> \<not> complete')) \<and>
        ex_replay s' = ex_replay s \<and> ex_scan_set_id s' = ex_scan_set_id s) s"
  using assms
proof (induction scopes arbitrary: s complete)
  case Nil
  then show ?case by (auto simp: close_scopes_def wp_simps)
next
  case (Cons sc scopes)
  obtain c where c: "completion_for_quality q = Inr c" "cm_quality c = q"
    using completion_for_quality_ok by blast
  obtain r a where f: "ar_finish_scope ar i sc c (fst (ex_archive s)) = (r, a)" by force
  define s1 where "s1 = s \<lparr> ex_archive := (a, run_log s @ [Finish_Scope i sc c r]) \<rparr>"
  have s1: "run_phase s1 = Some (Scanning i scopes (complete \<and> r = Inr () \<and> q = Quality_Complete))"
    "ex_replay s1 = ex_replay s" "ex_scan_set_id s1 = ex_scan_set_id s"
    using Cons.prems by (simp_all add: s1_def c(2))
  have step: "wp (close_scopes (logged ar) i (sc # scopes) q) Q s =
      (case r of Inl e \<Rightarrow> Q (Inl e) s1 | Inr _ \<Rightarrow> wp (close_scopes (logged ar) i scopes q) Q s1)" for Q
    by (simp add: close_scopes_def wp_simps c f s1_def split: sum.split)
  show ?case
  proof (cases r)
    case (Inl e)
    then show ?thesis unfolding step using s1 by auto
  next
    case (Inr u)
    show ?thesis unfolding step Inr sum.case
      by (rule wp_mono [OF Cons.IH [OF s1(1)]]) (use s1 Inr in auto)
  qed
qed

lemma close_failed_scan_phase:
  assumes "run_phase s = Some (Scanning i scopes complete)"
  shows "wp (close_failed_scan (logged ar) i scopes q)
     (\<lambda>r s'. run_phase s' \<in> {Some (Scanned i), Some Scan_Ended} \<and>
        ex_replay s' = ex_replay s \<and> ex_scan_set_id s' = ex_scan_set_id s) s"
  unfolding close_failed_scan_def wp_bnd wp_attempt
  by (rule wp_mono [OF close_scopes_phase [OF assms]])
    (auto simp: wp_simps split: prod.splits sum.splits if_splits)

text \<open>What holds between two scopes of a scan.\<close>

definition scan_state :: "u64 \<Rightarrow> scope_identity list \<Rightarrow> ('a \<times> archive_call list, 'd) exec \<Rightarrow> bool" where
  "scan_state i scopes s \<longleftrightarrow> run_phase s = Some (Scanning i scopes True) \<and> ex_replay s = None \<and>
     ex_scan_set_id s = Some i \<and> ec_replay_continuations (ex_counts s) = 0"

text \<open>What holds once the scan is over without a replay.\<close>

definition scan_over :: "('a \<times> archive_call list, 'd) exec \<Rightarrow> bool" where
  "scan_over s \<longleftrightarrow> ex_replay s = None \<and> (\<exists>ph. run_phase s = Some ph \<and> open_replay ph = None \<and>
     (\<forall>revision. ph \<noteq> Promoted revision) \<and> (\<forall>b. ph \<noteq> Discarded b))"

lemma source_sink_phase:
  assumes "scan_state i (sc # rest) s" "source_sink (logged ar) i sc item s = Some (y, s')"
  shows "scan_state i (sc # rest) s'"
proof -
  have "wp (source_sink (logged ar) i sc item) (\<lambda>_. scan_state i (sc # rest)) s"
    using assms(1)
    by (auto simp: source_sink_def scan_state_def wp_simps add_counts_keep
        split: prod.split sum.split)
  from wpD [OF this assms(2)] show ?thesis .
qed

lemma visit_sources_phase:
  assumes "scan_state i (sc # rest) s"
  shows "wp (visit_sources (logged ar) ad i sc) (\<lambda>_. scan_state i (sc # rest)) s"
proof -
  have "wp (drive (ad_visit_sources ad sc (ex_adapter s)) (source_sink (logged ar) i sc))
     (\<lambda>_. scan_state i (sc # rest)) s"
  proof (rule wp_drive [where I = "scan_state i (sc # rest)", OF _ _ assms])
    show "scan_state i (sc # rest) s \<Longrightarrow> scan_state i (sc # rest) (s \<lparr> ex_adapter := d \<rparr>)" for s d
      by (simp add: scan_state_def)
  qed (rule source_sink_phase)
  then show ?thesis by (simp add: wp_def visit_sources_def)
qed


text \<open>The loop over the manifest leaves every scope finished, or the scan closed or given up.\<close>

definition scan_post :: "u64 \<Rightarrow> execution_failure + execution_terminal option
     \<Rightarrow> ('a \<times> archive_call list, 'd) exec \<Rightarrow> bool" where
  "scan_post i r s \<longleftrightarrow>
     (case r of
        Inr None \<Rightarrow> scan_state i [] s
      | Inr (Some t) \<Rightarrow> scan_over s \<and> ex_scan_set_id s = Some i \<and> (\<exists>q. t = ScanOnly q)
      | Inl _ \<Rightarrow> scan_over s \<and> ex_scan_set_id s = Some i)"

lemma close_failed_scan_over:
  assumes "scan_state i scopes s"
  shows "wp (close_failed_scan (logged ar) i scopes q)
     (\<lambda>r s'. scan_over s' \<and> ex_scan_set_id s' = Some i) s"
proof -
  have "run_phase s = Some (Scanning i scopes True)" using assms by (simp add: scan_state_def)
  from close_failed_scan_phase [OF this] show ?thesis
    by (rule wp_mono) (use assms in \<open>auto simp: scan_over_def scan_state_def\<close>)
qed

text \<open>Leaving on an error after closing the scan.\<close>

lemma scan_abort:
  assumes "scan_state i scopes s"
  shows "wp (bnd (close_failed_scan (logged ar) i scopes q) (\<lambda>_. fail e)) (scan_post i) s"
  by (rule wp_seq [OF close_failed_scan_over [OF assms]]) (simp_all add: wp_fail scan_post_def)

text \<open>A scope whose completion was refused, and one that is not complete.\<close>

lemma scan_refused:
  assumes "run_phase s = Some (Scanning i rest complete)" "ex_replay s = None" "ex_scan_set_id s = Some i"
  shows "wp (bnd (close_failed_scan (logged ar) i rest q) (\<lambda>_. fail e)) (scan_post i) s"
  by (rule wp_seq [OF close_failed_scan_phase [OF assms(1)]])
    (use assms in \<open>auto simp: wp_fail scan_post_def scan_over_def\<close>)

lemma scan_incomplete:
  assumes "run_phase s = Some (Scanning i rest False)" "ex_replay s = None" "ex_scan_set_id s = Some i"
  shows "wp (bnd (map_fail execution_failure_from (close_scopes (logged ar) i rest q)) (\<lambda>_.
          bnd (map_fail execution_failure_from (call (ar_finish_scan_set (logged ar) i))) (\<lambda>aggregate.
          if aggregate = Quality_Complete then fail e else ret (Some (ScanOnly q'))))) (scan_post i) s"
  by (rule wp_seq_map_fail [OF close_scopes_phase [OF assms(1)]])
    (use assms(2,3) in \<open>auto simp: wp_simps scan_post_def scan_over_def split: sum.split prod.split\<close>)

text \<open>The end of a scope: its completion is recorded and decides how the scan goes on.\<close>

lemma scan_scope_end:
  assumes s: "scan_state i (sc # rest) s"
    and more: "\<And>s. scan_state i rest s \<Longrightarrow> wp m (scan_post i) s"
  shows "wp (bnd (attempt (call (ar_finish_scope (logged ar) i sc c))) (\<lambda>finished.
     case finished of
       Inl error \<Rightarrow> bnd (close_failed_scan (logged ar) i rest Quality_Failed) (\<lambda>_. fail (e error))
     | Inr _ \<Rightarrow>
     if cm_quality c \<noteq> Quality_Complete
     then bnd (map_fail execution_failure_from (close_scopes (logged ar) i rest (cm_quality c))) (\<lambda>_.
          bnd (map_fail execution_failure_from (call (ar_finish_scan_set (logged ar) i))) (\<lambda>aggregate.
          if aggregate = Quality_Complete then fail e' else ret (Some (ScanOnly (cm_quality c)))))
     else m)) (scan_post i) s"
proof (rule wp_seq_attempt [where R = "\<lambda>r s'.
      run_phase s' = Some (Scanning i rest (r = Inr () \<and> cm_quality c = Quality_Complete)) \<and>
      ex_replay s' = None \<and> ex_scan_set_id s' = Some i \<and> ec_replay_continuations (ex_counts s') = 0"],
    goal_cases)
  case 1
  show ?case using s by (auto simp: wp_call logged_simps scan_state_def split: prod.split)
next
  case (2 r s')
  then show ?case
    using scan_refused [of s' i rest False] scan_incomplete [of s' i rest] more [of s']
    by (cases r) (auto simp: scan_state_def)
qed

lemma scan_scopes_phase:
  "scan_state i scopes s \<Longrightarrow> wp (scan_scopes (logged ar) ad control deadline i scopes) (scan_post i) s"
proof (induction scopes arbitrary: s)
  case Nil
  then show ?case by (simp add: wp_ret scan_post_def)
next
  case (Cons sc rest)
  have check: "wp (control_check control deadline) (\<lambda>_. scan_state i (sc # rest)) s"
    using Cons.prems by (simp add: wp_control_check scan_state_def split: prod.split)
  show ?case
    unfolding scan_scopes.simps
  proof (rule wp_seq_attempt [OF check], goal_cases)
    case (1 r s1)
    show ?case
    proof (cases r)
      case (Inl error)
      then show ?thesis using scan_abort [OF 1] by simp
    next
      case (Inr u)
      show ?thesis
        unfolding Inr sum.case
      proof (rule wp_seq_attempt [OF visit_sources_phase [OF 1]], goal_cases)
        case (1 r s2)
        then show ?case
          by (cases r) (simp_all only: sum.case scan_abort scan_scope_end Cons.IH)
      qed
    qed
  qed
qed


section \<open>Replaying follows the protocol\<close>

lemma map_port_error_Inr_iff: "map_port_error r = Inr x \<longleftrightarrow> r = Inr x"
  by (cases r) (simp_all add: map_port_error_def)

lemma canonicalize_batch_fields:
  assumes "canonicalize_batch sha256 source batch = Inr c"
  shows "ba_source_identity c = source" "ba_state c = ba_state batch"
  using assms
  by (auto simp: canonicalize_batch_def canonical_batch_new_def map_port_error_Inr_iff and_then_Inr_iff
      if_Inr_iff)

text \<open>What holds while sources are replayed; \<open>sp\<close> says which one is being read.\<close>

definition replay_at :: "u64 option \<Rightarrow> source_phase \<Rightarrow> ('a \<times> archive_call list, 'd) exec \<Rightarrow> bool" where
  "replay_at i sp s \<longleftrightarrow> (\<exists>p. run_phase s = Some (Replaying p sp) \<and> ex_replay s = Some p) \<and>
     ex_scan_set_id s = i \<and> ec_replay_continuations (ex_counts s) = 0"

definition replay_state :: "u64 option \<Rightarrow> ('a \<times> archive_call list, 'd) exec \<Rightarrow> bool" where
  "replay_state i s \<longleftrightarrow> (\<exists>sp. replay_at i sp s)"

lemma replay_stateI: "replay_at i sp s \<Longrightarrow> replay_state i s"
  unfolding replay_state_def by blast

text \<open>Appending a batch.\<close>

lemma append_batch_phase:
  assumes "replay_at i (Reading (ds_identity source)) s"
    and "ba_source_identity c = ds_identity source"
    and more: "\<And>s. replay_at i (if ba_state c = Batch_SnapshotEnd then No_Source else Reading (ds_identity source)) s
        \<Longrightarrow> wp (m ()) Q (s, r)"
    and failed: "\<And>e s. replay_state i s \<Longrightarrow> Q (Inl e) (s, r)"
  shows "wp (bnd (on_exec current_replay) (\<lambda>current.
     bnd (on_exec (call (ar_append_replay_batch (logged ar) current (ds_identity source) c))) (\<lambda>appended.
     bnd (on_exec (advance_replay current appended)) (\<lambda>_.
     bnd (on_exec (update_counts add_adapter_batch)) (\<lambda>_.
     bnd (on_exec (update_counts (add_canonical_events n))) m))))) Q (s, r)"
proof -
  obtain p where s: "run_phase s = Some (Replaying p (Reading (ds_identity source)))" "ex_replay s = Some p"
      "ex_scan_set_id s = i" "ec_replay_continuations (ex_counts s) = 0"
    using assms(1) by (auto simp: replay_at_def)
  show ?thesis
    using s assms(2)
    by (auto simp: wp_simps replay_at_def add_counts_keep dest: valid_next_Some
        intro!: failed more replay_stateI [unfolded replay_at_def]
        split: prod.split sum.split option.split)
qed

lemma read_loop_phase:
  assumes "replay_at i (Reading (ds_identity source)) s"
  shows "wp (read_loop sha256 (logged ar) rd control deadline source fuel cp) (\<lambda>_ st. replay_state i (fst st)) (s, r)"
  using assms
proof (induction fuel arbitrary: s r cp)
  case 0
  then show ?case by (simp add: wp_def)
next
  case (Suc fuel)
  have check: "wp (on_exec (control_check control deadline))
      (\<lambda>_ st. replay_at i (Reading (ds_identity source)) (fst st)) (s, r)"
    using Suc.prems by (simp add: wp_simps replay_at_def split: prod.split)
  have step: "wp (bnd (on_reader f) g) (\<lambda>_ st. replay_state i (fst st)) (s, r)"
    if "replay_at i (Reading (ds_identity source)) s"
      "\<And>x r'. wp (g x) (\<lambda>_ st. replay_state i (fst st)) (s, r')" for f g s r
    using that by (auto simp: wp_simps intro: replay_stateI split: prod.split sum.split)
  show ?case
    unfolding read_loop.simps
  proof (rule wp_seq [OF check], goal_cases)
    case (1 e st)
    then show ?case by (rule replay_stateI)
  next
    case (2 u st)
    obtain s1 r1 where st: "st = (s1, r1)" by (cases st)
    have s1: "replay_at i (Reading (ds_identity source)) s1" using 2 by (simp add: st)
    show ?case
      unfolding st
      using replay_stateI [OF s1]
      by (auto simp: wp_fail wp_bnd [of "lift_result _"] wp_lift_result wp_ret canonicalize_batch_fields
          intro!: step [OF s1] append_batch_phase [OF s1] Suc.IH split: sum.split) (erule replay_stateI)
  qed
qed


lemma replay_state_check:
  "replay_state i s \<Longrightarrow> wp (control_check control deadline) (\<lambda>_. replay_state i) s"
  by (auto simp: wp_control_check replay_state_def replay_at_def split: prod.split)

lemma replay_source_phase:
  assumes "replay_state i s"
  shows "wp (replay_source sha256 (logged ar) rd control deadline fuel source st) (\<lambda>_ st. replay_state i (fst st)) (s, r)"
proof -
  obtain p sp where s: "run_phase s = Some (Replaying p sp)" "ex_replay s = Some p"
      "ex_scan_set_id s = i" "ec_replay_continuations (ex_counts s) = 0"
    using assms by (auto simp: replay_state_def replay_at_def)
  show ?thesis
    using s
    by (auto simp: replay_source_def wp_simps replay_at_def dest: valid_next_Some
        intro!: read_loop_phase replay_stateI [unfolded replay_at_def]
        split: prod.split sum.split option.split replay_source_start.split)
qed

lemma replay_sink_phase:
  assumes "replay_state i s"
    and "replay_sink sha256 (logged ar) rd control deadline fuel sc item s = Some (y, s')"
  shows "replay_state i s'"
proof -
  obtain d st r where item: "item = (d, st, r)" by (cases item)
  let ?m = "if si_scope (ds_identity d) \<noteq> sc then fail Port_InvalidData
     else bnd (replay_source sha256 (logged ar) rd control deadline fuel d st) (\<lambda>_. ret Sink_Continue)"
  have "wp ?m (\<lambda>_ st. replay_state i (fst st)) (s, r)"
    using assms(1)
    by (auto simp: wp_fail wp_ret intro!: wp_seq [OF replay_source_phase [OF assms(1)]])
  moreover obtain reply r' where "?m (s, r) = Some (reply, s', r')"
    using assms(2) by (auto simp: replay_sink_def item split: option.splits)
  ultimately show ?thesis using wpD by fastforce
qed

lemma visit_replay_sources_phase:
  assumes "replay_state i s"
  shows "wp (visit_replay_sources sha256 (logged ar) ad rd control deadline fuel sc) (\<lambda>_. replay_state i) s"
proof -
  have "wp (drive (ad_visit_replay_sources ad sc (ex_adapter s))
     (replay_sink sha256 (logged ar) rd control deadline fuel sc)) (\<lambda>_. replay_state i) s"
  proof (rule wp_drive [where I = "replay_state i", OF _ _ assms])
    show "replay_state i s \<Longrightarrow> replay_state i (s \<lparr> ex_adapter := d \<rparr>)" for s d
      by (simp add: replay_state_def replay_at_def)
  qed (rule replay_sink_phase)
  then show ?thesis by (simp add: wp_def visit_replay_sources_def)
qed

lemma replay_sources_phase:
  assumes "replay_state i s"
  shows "wp (replay_sources sha256 (logged ar) ad rd control deadline fuel manifest) (\<lambda>_. replay_state i) s"
  unfolding replay_sources_def
  by (rule wp_each [where I = "replay_state i", OF _ assms])
    (auto simp: wp_fail wp_ret intro!: wp_seq_map_fail [OF replay_state_check]
      wp_seq_map_fail [OF visit_replay_sources_phase])

section \<open>Publishing follows the protocol\<close>

text \<open>Some replay is open, and the run holds its position.\<close>

definition holds_open :: "u64 option \<Rightarrow> ('a \<times> archive_call list, 'd) exec \<Rightarrow> bool" where
  "holds_open i s \<longleftrightarrow> (\<exists>ph p. run_phase s = Some ph \<and> open_replay ph = Some p \<and> ex_replay s = Some p) \<and>
     ex_scan_set_id s = i"

definition drained :: "u64 option \<Rightarrow> ('a \<times> archive_call list, 'd) exec \<Rightarrow> bool" where
  "drained i s \<longleftrightarrow> (\<exists>p. run_phase s = Some (Drained p) \<and> ex_replay s = Some p) \<and> ex_scan_set_id s = i"

text \<open>Before a round of continuation.\<close>

definition continuing :: "u64 option \<Rightarrow> nat \<Rightarrow> ('a \<times> archive_call list, 'd) exec \<Rightarrow> bool" where
  "continuing i n s \<longleftrightarrow> (\<exists>p. (n = 0 \<and> (\<exists>sp. run_phase s = Some (Replaying p sp)) \<or>
       0 < n \<and> run_phase s = Some (Continuing p n)) \<and> ex_replay s = Some p) \<and>
     ex_scan_set_id s = i \<and> unat (ec_replay_continuations (ex_counts s)) = n"

lemma replay_state_continuing: "replay_state i s \<Longrightarrow> continuing i 0 s"
  by (auto simp: replay_state_def replay_at_def continuing_def)

lemma replay_state_open: "replay_state i s \<Longrightarrow> holds_open i s"
  by (auto simp: replay_state_def replay_at_def holds_open_def)


lemma add_replay_continuation_Inr:
  assumes "unat (ec_replay_continuations c) < MAX_REPLAY_CONTINUATIONS_PER_RUN"
  shows "\<exists>c'. add_replay_continuation c = Inr c' \<and>
    unat (ec_replay_continuations c') = Suc (unat (ec_replay_continuations c))"
proof -
  have small: "unat (ec_replay_continuations c) + 1 < 2 ^ 64"
    using assms by (simp add: MAX_REPLAY_CONTINUATIONS_PER_RUN_def)
  then have "unat (ec_replay_continuations c + 1) = Suc (unat (ec_replay_continuations c))"
    by (simp add: unat_add_lem [THEN iffD1] unat_word_ariths)
  with small assms show ?thesis
    by (simp add: add_replay_continuation_def checked_count_add_def checked_add_def i64_max_u64_def
        word_le_nat_alt MAX_REPLAY_CONTINUATIONS_PER_RUN_def)
qed

lemma continuations_limit:
  "word_of_nat MAX_REPLAY_CONTINUATIONS_PER_RUN \<le> (n :: u64) \<longleftrightarrow>
     MAX_REPLAY_CONTINUATIONS_PER_RUN \<le> unat n"
  by (simp add: MAX_REPLAY_CONTINUATIONS_PER_RUN_def word_le_nat_alt)

text \<open>One round of continuation.\<close>

lemma continue_round:
  assumes "continuing i n s" and "n < MAX_REPLAY_CONTINUATIONS_PER_RUN"
    and more: "\<And>k s. (if k = Continuation_Complete then drained i s else continuing i (Suc n) s)
        \<Longrightarrow> wp (m k) Q s"
    and failed: "\<And>e s. holds_open i s \<Longrightarrow> Q (Inl e) s"
  shows "wp (bnd current_replay (\<lambda>current.
     bnd (call (ar_continue_replay (logged ar) current)) (\<lambda>continuation.
     bnd (advance_replay current (rk_replay continuation)) (\<lambda>_.
     bnd (update_counts add_replay_continuation) (\<lambda>_. m (rk_state continuation)))))) Q s"
proof -
  obtain p where s: "ex_replay s = Some p" "ex_scan_set_id s = i"
      "unat (ec_replay_continuations (ex_counts s)) = n"
    and ph: "n = 0 \<and> (\<exists>sp. run_phase s = Some (Replaying p sp)) \<or> 0 < n \<and> run_phase s = Some (Continuing p n)"
    using assms(1) by (auto simp: continuing_def)
  obtain c' where c': "add_replay_continuation (ex_counts s) = Inr c'"
      "unat (ec_replay_continuations c') = Suc n"
    using add_replay_continuation_Inr [of "ex_counts s"] s(3) assms(2) by auto
  have next_phase: "Option.bind (run_phase s) (protocol (Continue_Replay p r)) = Some (continued p n r)" for r
    using ph assms(2) by auto
  show ?thesis
    using s c' by (auto simp: wp_simps next_phase continued_def drained_def continuing_def holds_open_def
        dest: valid_next_Some intro!: failed more split: prod.split sum.split option.split)
qed


lemma continue_loop_phase:
  "continuing i n s \<Longrightarrow> wp (continue_loop (logged ar) control deadline rounds)
     (\<lambda>r. case r of Inl _ \<Rightarrow> holds_open i | Inr _ \<Rightarrow> drained i) s"
proof (induction rounds arbitrary: n s)
  case 0
  then show ?case by (simp add: wp_def)
next
  case (Suc rounds)
  let ?Q = "\<lambda>r. case r of Inl _ \<Rightarrow> holds_open i | Inr _ \<Rightarrow> drained i"
  have check: "wp (control_check control deadline) (\<lambda>_. continuing i n) s"
    using Suc.prems by (auto simp: wp_control_check continuing_def split: prod.split)
  have keep: "continuing i n s \<Longrightarrow> holds_open i s" for s :: "('a \<times> archive_call list, 'd) exec"
    by (auto simp: continuing_def holds_open_def)
  show ?case
    unfolding continue_loop.simps
  proof (rule wp_seq [OF check], goal_cases)
    case (1 e s)
    then show ?case by (simp add: keep)
  next
    case (2 u s)
    show ?case
    proof (cases "n < MAX_REPLAY_CONTINUATIONS_PER_RUN")
      case True
      then have "\<not> word_of_nat MAX_REPLAY_CONTINUATIONS_PER_RUN \<le> ec_replay_continuations (ex_counts s)"
        using 2 by (auto simp: continuations_limit continuing_def)
      then show ?thesis
        by (simp add: wp_bnd [of "gets _"] wp_gets,
            intro continue_round [OF 2 True, where m = "\<lambda>k. if k = Continuation_Complete then ret ()
              else continue_loop (logged ar) control deadline rounds"])
          (auto simp: Suc.IH wp_ret split: if_splits)
    next
      case False
      then show ?thesis
        using 2 keep [OF 2] by (auto simp: wp_simps continuations_limit continuing_def)
    qed
  qed
qed

lemma finish_replay_phase:
  assumes "replay_state i s"
  shows "wp (finish_replay (logged ar) control deadline)
     (\<lambda>r s'. case r of Inl _ \<Rightarrow> holds_open i s'
       | Inr revision \<Rightarrow> run_phase s' = Some (Promoted revision) \<and> ex_scan_set_id s' = i) s"
  unfolding finish_replay_def
proof (rule wp_seq [OF continue_loop_phase [OF replay_state_continuing [OF assms]]], goal_cases)
  case (1 e s)
  then show ?case by simp
next
  case (2 u s)
  then obtain p where s: "run_phase s = Some (Drained p)" "ex_replay s = Some p" "ex_scan_set_id s = i"
    by (auto simp: drained_def)
  then show ?case
    by (auto simp: wp_simps holds_open_def dest: valid_next_Some
        split: prod.split sum.split option.split)
qed

section \<open>The run follows the protocol\<close>

definition run_post :: "execution_failure + execution_terminal \<Rightarrow> ('a \<times> archive_call list, 'd) exec \<Rightarrow> bool" where
  "run_post r s \<longleftrightarrow>
     (case r of
        Inl _ \<Rightarrow> scan_over s \<or> (\<exists>i. holds_open i s)
      | Inr (Published revision) \<Rightarrow> run_phase s = Some (Promoted revision)
      | Inr (ScanOnly q) \<Rightarrow> scan_over s)"


lemma scan_over_check:
  "scan_over s \<Longrightarrow> scan_over (s \<lparr> ex_checks := n \<rparr>)"
  by (simp add: scan_over_def)

text \<open>From the finished scan to the end of the run.\<close>

lemma replay_and_publish_phase:
  assumes "replay_state i s"
  shows "wp (bnd (replay_sources sha256 (logged ar) ad rd control deadline fuel manifest) (\<lambda>_.
         bnd (map_fail execution_failure_from (finish_replay (logged ar) control deadline)) (\<lambda>revision.
         ret (Published revision)))) run_post s"
proof (rule wp_seq [OF replay_sources_phase [OF assms]], goal_cases)
  case (1 e s)
  then show ?case using replay_state_open by (auto simp: run_post_def)
next
  case (2 u s)
  show ?case
    by (rule wp_seq_map_fail [OF finish_replay_phase [OF 2]]) (auto simp: run_post_def wp_ret)
qed

lemma after_scan_phase:
  assumes "scan_state i [] s"
  shows "wp (bnd (attempt (control_check control deadline)) (\<lambda>checked.
         case checked of
           Inl error \<Rightarrow>
             bnd (close_failed_scan (logged ar) i [] (quality_for_error error)) (\<lambda>_.
             fail (execution_failure_from error))
         | Inr _ \<Rightarrow>
         bnd (map_fail execution_failure_from (call (ar_finish_scan_set (logged ar) i))) (\<lambda>scan_quality.
         if scan_quality \<noteq> Quality_Complete then ret (ScanOnly scan_quality)
         else
         bnd (map_fail execution_failure_from (control_check control deadline)) (\<lambda>_.
         bnd (map_fail execution_failure_from (call (ar_begin_replay (logged ar) i))) (\<lambda>replay.
         bnd (modify (\<lambda>s. s \<lparr> ex_replay := Some replay \<rparr>)) (\<lambda>_.
         bnd (replay_sources sha256 (logged ar) ad rd control deadline fuel manifest) (\<lambda>_.
         bnd (map_fail execution_failure_from (finish_replay (logged ar) control deadline)) (\<lambda>revision.
         ret (Published revision))))))))) run_post s"
  (is "wp (bnd _ (\<lambda>checked. case checked of Inl error \<Rightarrow> ?abort error | Inr _ \<Rightarrow> ?go)) _ _")
proof -
  have check: "wp (control_check control deadline) (\<lambda>_. scan_state i []) s"
    using assms by (simp add: wp_control_check scan_state_def split: prod.split)
  have abort: "wp (?abort error) run_post s'" if "scan_state i [] s'" for error s'
    by (rule wp_seq [OF close_failed_scan_over [OF that]]) (simp_all add: wp_fail run_post_def)
  have finish: "wp (call (ar_finish_scan_set (logged ar) i)) (\<lambda>r s'. ex_scan_set_id s' = Some i \<and>
      ex_replay s' = None \<and> ec_replay_continuations (ex_counts s') = 0 \<and>
      run_phase s' = Some (if r = Inr Quality_Complete then Scanned i else Scan_Ended)) s'"
    if "scan_state i [] s'" for s'
    using that by (simp add: wp_call logged_simps scan_state_def split: prod.split)
  have begin_ph: "wp (call (ar_begin_replay (logged ar) i)) (\<lambda>r s'. case r of
      Inl _ \<Rightarrow> scan_over s' | Inr p \<Rightarrow> replay_state (Some i) (s' \<lparr> ex_replay := Some p \<rparr>)) s'"
    if "run_phase s' = Some (Scanned i)" "ex_replay s' = None" "ex_scan_set_id s' = Some i"
      "ec_replay_continuations (ex_counts s') = 0" for s'
    using that by (auto simp: wp_call logged_simps scan_over_def replay_state_def replay_at_def
        split: prod.split sum.split)
  have go: "wp ?go run_post s'" if "scan_state i [] s'" for s'
    by (rule wp_seq_map_fail [OF finish [OF that]])
      (auto simp: run_post_def scan_over_def wp_ret wp_bnd [of "modify _"] wp_modify wp_control_check
        wp_bnd [of "map_fail _ (control_check _ _)"] wp_map_fail [of _ "control_check _ _"]
        intro!: wp_seq_map_fail [OF begin_ph] replay_and_publish_phase
        split: if_splits prod.split sum.split option.split)
  show ?thesis
  proof (rule wp_seq_attempt [OF check], goal_cases)
    case (1 r s')
    then show ?case by (cases r) (simp_all only: sum.case abort go)
  qed
qed


text \<open>From the manifest to the end of the run.\<close>

lemma scan_and_replay_phase:
  assumes "scan_state i manifest s" and more: "\<And>s. scan_state i [] s \<Longrightarrow> wp m run_post s"
  shows "wp (bnd (scan_scopes (logged ar) ad control deadline i manifest) (\<lambda>early.
     case early of Some terminal \<Rightarrow> ret terminal | None \<Rightarrow> m)) run_post s"
proof (rule wp_seq [OF scan_scopes_phase [OF assms(1)]], goal_cases)
  case (1 e s)
  then show ?case by (simp add: scan_post_def run_post_def)
next
  case (2 early s)
  then show ?case
    using more by (auto simp: scan_post_def run_post_def wp_ret split: option.splits)
qed

lemma run_with_lease_phase:
  assumes s: "run_phase s = Some Idle" "ex_replay s = None" "ec_replay_continuations (ex_counts s) = 0"
  shows "wp (run_with_lease sha256 (logged ar) ad rd control deadline fuel) run_post s"
proof -
  obtain c d scopes where visit: "collect_scopes (ad_visit_scopes ad (ex_adapter s)) [] = (c, d, scopes)"
    by (metis prod.exhaust)
  have over: "scan_over s" using s by (simp add: scan_over_def)
  have begun: "wp (bnd (map_fail execution_failure_from (call (ar_begin_scan_set (logged ar) manifest))) (\<lambda>i.
         bnd (modify (\<lambda>s. s \<lparr> ex_scan_set_id := Some i \<rparr>)) (\<lambda>_. m i))) run_post s'"
    if "run_phase s' = Some Idle" "ex_replay s' = None" "ec_replay_continuations (ex_counts s') = 0"
      and "\<And>i s. scan_state i manifest s \<Longrightarrow> wp (m i) run_post s" for manifest m s'
    using that by (auto simp: wp_simps run_post_def scan_over_def scan_state_def split: prod.split sum.split)
  show ?thesis
    unfolding wp_def run_with_lease_def visit Let_def prod.case
    unfolding wp_def [of _ run_post s, symmetric]
    using s over
    by (auto simp: wp_bnd [of "modify _"] wp_modify wp_ret wp_bnd [of "map_fail _ (lift_result _)"]
        wp_map_fail [of _ "lift_result _"] wp_lift_result wp_control_check
        wp_bnd [of "map_fail _ (control_check _ _)"] wp_map_fail [of _ "control_check _ _"]
        run_post_def scan_over_def
        intro!: begun scan_and_replay_phase after_scan_phase
        split: sum.split prod.split option.split)
qed


section \<open>What a phase says about the calls before it\<close>

fun finish_of :: "archive_call \<Rightarrow> (scope_identity \<times> completion_quality) list" where
  "finish_of (Finish_Scope i sc c (Inr _)) = [(sc, cm_quality c)]"
| "finish_of _ = []"

definition finishes :: "archive_call list \<Rightarrow> (scope_identity \<times> completion_quality) list" where
  "finishes calls = concat (map finish_of calls)"

definition all_complete :: "scope_identity list \<Rightarrow> (scope_identity \<times> completion_quality) list" where
  "all_complete scopes = map (\<lambda>sc. (sc, Quality_Complete)) scopes"

definition scan_history :: "u64 \<Rightarrow> archive_call list \<Rightarrow> bool" where
  "scan_history i calls \<longleftrightarrow> (\<exists>manifest. Begin_Scan_Set manifest (Inr i) \<in> set calls \<and>
     finishes calls = all_complete manifest) \<and> Finish_Scan_Set i (Inr Quality_Complete) \<in> set calls"

definition replay_history :: "archive_replay \<Rightarrow> archive_call list \<Rightarrow> bool" where
  "replay_history p calls \<longleftrightarrow> (\<exists>i begun. scan_history i calls \<and> Begin_Replay i (Inr begun) \<in> set calls \<and>
     re_revision_id p = re_revision_id begun \<and> re_epoch begun \<le> re_epoch p)"

definition drain_history :: "archive_replay \<Rightarrow> archive_call list \<Rightarrow> bool" where
  "drain_history p calls \<longleftrightarrow> (\<exists>before q k. calls = before @ [Continue_Replay q (Inr k)] \<and>
     rk_state k = Continuation_Complete \<and> rk_replay k = p \<and> replay_history p before)"

definition seal_history :: "archive_replay \<Rightarrow> archive_call list \<Rightarrow> bool" where
  "seal_history p calls \<longleftrightarrow> (\<exists>before q. calls = before @ [Seal_Replay q (Inr p)] \<and>
     drain_history q before \<and> re_revision_id p = re_revision_id q \<and> re_epoch q \<le> re_epoch p)"

definition replay_begun :: "archive_call list \<Rightarrow> bool" where
  "replay_begun calls \<longleftrightarrow> (\<exists>i p. Begin_Replay i (Inr p) \<in> set calls)"

fun phase_history :: "phase \<Rightarrow> archive_call list \<Rightarrow> bool" where
  "phase_history Idle calls = (calls = [])"
| "phase_history (Scanning i rest complete) calls = (\<not> replay_begun calls \<and> (complete \<longrightarrow>
     (\<exists>manifest. Begin_Scan_Set manifest (Inr i) \<in> set calls \<and>
        all_complete manifest = finishes calls @ all_complete rest)))"
| "phase_history (Scanned i) calls = (\<not> replay_begun calls \<and> scan_history i calls)"
| "phase_history (Drained p) calls = drain_history p calls"
| "phase_history (Sealed p) calls = seal_history p calls"
| "phase_history (Promoted revision) calls = (\<exists>before p. calls = before @ [Promote_Replay p (Inr ())] \<and>
     seal_history p before \<and> revision = re_revision_id p)"
| "phase_history (Discarded ok) calls = (\<exists>before p r. calls = before @ [Discard_Replay p r] \<and>
     ok = (r = Inr ()) \<and> replay_history p before)"
| "phase_history (Replaying p sp) calls = replay_history p calls"
| "phase_history (Continuing p n) calls = replay_history p calls"
| "phase_history (Failing p) calls = replay_history p calls"
| "phase_history Scan_Ended calls = (\<not> replay_begun calls)"

lemma finishes_simps [simp]: "finishes [] = []" "finishes (cs @ ds) = finishes cs @ finishes ds"
  "finishes (c # cs) = finish_of c @ finishes cs"
  by (simp_all add: finishes_def)

lemma all_complete_simps [simp]: "all_complete [] = []"
  "all_complete (sc # scopes) = (sc, Quality_Complete) # all_complete scopes"
  by (simp_all add: all_complete_def)

lemma replay_begun_simps [simp]: "\<not> replay_begun []"
  "replay_begun [c] \<longleftrightarrow> (\<exists>i p. c = Begin_Replay i (Inr p))"
  "replay_begun (cs @ [c]) \<longleftrightarrow> replay_begun cs \<or> (\<exists>i p. c = Begin_Replay i (Inr p))"
  by (auto simp: replay_begun_def)

lemma scan_history_step [simp]: "scan_history i calls \<Longrightarrow> finish_of c = [] \<Longrightarrow> scan_history i (calls @ [c])"
  by (auto simp: scan_history_def)

lemma replay_history_step [simp]: "replay_history p calls \<Longrightarrow> finish_of c = [] \<Longrightarrow> replay_history p (calls @ [c])"
  unfolding replay_history_def using scan_history_step by fastforce

lemma replay_history_next:
  "replay_history p calls \<Longrightarrow> re_revision_id p' = re_revision_id p \<Longrightarrow> re_epoch p \<le> re_epoch p' \<Longrightarrow>
     replay_history p' calls"
  unfolding replay_history_def by (metis order_trans)

lemma drain_replay_history: "drain_history p calls \<Longrightarrow> replay_history p calls"
  by (auto simp: drain_history_def)

lemma seal_replay_history: "seal_history p calls \<Longrightarrow> replay_history p calls"
  by (auto simp: seal_history_def intro!: replay_history_step intro: replay_history_next drain_replay_history)

lemma valid_next_SomeD:
  "valid_next p r = Some p' \<Longrightarrow> r = Inr p' \<and> re_revision_id p' = re_revision_id p \<and> re_epoch p \<le> re_epoch p'"
  by (auto simp: valid_next_def split: sum.splits if_splits)

lemma open_replay_history: "open_replay ph = Some p \<Longrightarrow> phase_history ph calls \<Longrightarrow> replay_history p calls"
  by (cases ph) (auto dest: drain_replay_history seal_replay_history)

lemma phase_history_step:
  assumes "phase_history ph calls" "protocol c ph = Some ph'"
  shows "phase_history ph' (calls @ [c])"
proof (cases c)
  case (Continue_Replay q r)
  then show ?thesis
    using assms
    by (auto simp: continued_def drain_history_def dest!: valid_next_SomeD
        intro!: replay_history_step intro: replay_history_next
        split: phase.splits if_splits sum.splits option.splits)
next
  case (Discard_Replay q r)
  then show ?thesis using assms open_replay_history by (auto split: if_splits)
next
  case (Seal_Replay q r)
  then show ?thesis
    using assms drain_replay_history
    by (auto simp: seal_history_def dest!: valid_next_SomeD split: if_splits option.splits)
next
  case (Promote_Replay q r)
  then show ?thesis
    using assms seal_replay_history by (auto split: if_splits sum.splits)
next
  case (Finish_Scope j sc f r)
  obtain i scopes complete where ph: "ph = Scanning i scopes complete"
    using assms(2) Finish_Scope by (auto split: phase.splits)
  have "scopes = hd scopes # tl scopes" using assms(2) Finish_Scope ph by (auto split: if_splits)
  then have "all_complete scopes = (hd scopes, Quality_Complete) # all_complete (tl scopes)"
    by (metis all_complete_simps(2))
  then show ?thesis using assms Finish_Scope ph by (auto split: if_splits sum.splits)
next
  case (Finish_Scan_Set j r)
  then show ?thesis
    using assms by (fastforce simp: scan_history_def split: phase.splits if_splits)
next
  case (Begin_Replay j r)
  then show ?thesis
    using assms by (auto simp: replay_history_def intro!: exI [of _ j] split: if_splits sum.splits)
qed (use assms in \<open>auto dest!: valid_next_SomeD intro!: replay_history_step intro: replay_history_next
       split: phase.splits if_splits sum.splits option.splits\<close>)

lemma phase_of_history: "phase_of calls = Some ph \<Longrightarrow> phase_history ph calls"
proof (induction calls arbitrary: ph rule: rev_induct)
  case Nil
  then show ?case by (simp add: phase_of_def)
next
  case (snoc c calls)
  then show ?case
    using phase_history_step by (fastforce simp: Option.bind_eq_Some_conv)
qed

end
