(* ===== verification/ExecutorRuns.thy ===== *)
theory ExecutorRuns
  imports ExecutorProtocol
begin

text \<open>
  Whole runs of the one-shot executor: how the result relates to the calls the archive received,
  and when a run returns.  The theorems hold for every archive, adapter, reader, clock and
  cancellation; a small concrete archive and adapter show that they apply.
\<close>

section \<open>Whole runs\<close>

text \<open>How the result of a run relates to the phase its calls end in.\<close>

definition cleanup_of :: "phase \<Rightarrow> replay_cleanup" where
  "cleanup_of ph = (case ph of
     Discarded ok \<Rightarrow> if ok then Cleanup_Discarded else Cleanup_Failed
   | _ \<Rightarrow> Cleanup_NotRequired)"

definition published_of :: "phase \<Rightarrow> u64 option" where
  "published_of ph = (case ph of Promoted revision \<Rightarrow> Some revision | _ \<Rightarrow> None)"

lemma published_of_Some: "published_of ph = Some revision \<longleftrightarrow> ph = Promoted revision"
  by (cases ph) (simp_all add: published_of_def)

definition run_ends :: "one_shot_result \<Rightarrow> ('a \<times> archive_call list, 'd) exec \<Rightarrow> bool" where
  "run_ends result s \<longleftrightarrow> (\<exists>ph. run_phase s = Some ph \<and> open_replay ph = None \<and>
     os_published_revision_id result = published_of ph \<and> os_cleanup result = cleanup_of ph)"

lemma scan_over_ends:
  assumes "scan_over s" "os_published_revision_id result = None" "os_cleanup result = Cleanup_NotRequired"
  shows "run_ends result s"
proof -
  obtain ph where ph: "run_phase s = Some ph" "open_replay ph = None"
      "\<And>revision. ph \<noteq> Promoted revision" "\<And>b. ph \<noteq> Discarded b"
    using assms(1) by (auto simp: scan_over_def)
  have "published_of ph = None" "cleanup_of ph = Cleanup_NotRequired"
    using ph(3,4) by (cases ph; simp add: published_of_def cleanup_of_def)+
  with ph(1,2) assms(2,3) show ?thesis by (auto simp: run_ends_def)
qed

lemma failure_result_simps [simp]:
  "os_published_revision_id (failure_result i ss c f cl) = None"
  "os_cleanup (failure_result i ss c f cl) = cl"
  by (simp_all add: failure_result_def)

lemma lease_failure_result_simps [simp]:
  "os_published_revision_id (lease_failure_result i ss c e cl) = None"
  "os_cleanup (lease_failure_result i ss c e cl) = cl"
  by (simp_all add: lease_failure_result_def Let_def)

lemma run_start_over: "scan_over (exec_start (a, []) d \<lparr> ex_checks := n \<rparr>)"
  by (simp add: scan_over_def exec_start_def)

lemma run_post_ends:
  "run_post (Inr terminal) s \<Longrightarrow> run_ends (success_result i terminal s) s"
proof (cases terminal)
  case (Published revision)
  then show "run_post (Inr terminal) s \<Longrightarrow> ?thesis"
    by (simp add: run_post_def success_result_def run_ends_def published_of_def cleanup_of_def)
next
  case (ScanOnly q)
  then show "run_post (Inr terminal) s \<Longrightarrow> ?thesis"
    by (simp add: run_post_def success_result_def scan_over_ends)
qed

lemma run_post_discarded:
  assumes "run_post (Inl f) s" "ex_replay s = Some p"
    and "os_published_revision_id result = None"
    and "os_cleanup result = (if r = Inr () then Cleanup_Discarded else Cleanup_Failed)"
  shows "run_ends result (s \<lparr> ex_archive := (a, run_log s @ [Discard_Replay p r]) \<rparr>)"
  using assms by (auto simp: run_post_def scan_over_def holds_open_def run_ends_def published_of_def cleanup_of_def)

lemma executor_end:
  assumes post: "run_post x s1"
    and run: "(case x of
       Inr terminal \<Rightarrow> Some (success_result i terminal s1, s1)
     | Inl failure \<Rightarrow>
         (case ex_replay s1 of
            None \<Rightarrow> Some (failure_result i (ex_scan_set_id s1) (ex_counts s1) failure Cleanup_NotRequired, s1)
          | Some replay \<Rightarrow>
              (case ar_discard_replay (logged ar) replay (ex_archive s1) of
                 (discarded, a') \<Rightarrow>
                   Some (failure_result i (ex_scan_set_id s1) (ex_counts s1) failure
                     (case discarded of Inl _ \<Rightarrow> Cleanup_Failed | Inr _ \<Rightarrow> Cleanup_Discarded),
                     s1 \<lparr> ex_archive := a' \<rparr>)))) = Some (result, s)"
  shows "run_ends result s"
proof (cases x)
  case (Inr terminal)
  have "s = s1" "result = success_result i terminal s1" using run by (auto simp: Inr)
  then show ?thesis using run_post_ends [OF post [unfolded Inr]] by simp
next
  case (Inl f)
  show ?thesis
  proof (cases "ex_replay s1")
    case None
    have "scan_over s1" using post by (auto simp: Inl None run_post_def holds_open_def)
    then show ?thesis using run by (auto simp: Inl None intro: scan_over_ends)
  next
    case (Some p)
    obtain y a' where f: "ar_discard_replay ar p (fst (ex_archive s1)) = (y, a')" by force
    have s: "s = s1 \<lparr> ex_archive := (a', run_log s1 @ [Discard_Replay p y]) \<rparr>"
      and r: "result = failure_result i (ex_scan_set_id s1) (ex_counts s1) f
         (case y of Inl _ \<Rightarrow> Cleanup_Failed | Inr _ \<Rightarrow> Cleanup_Discarded)"
      using run by (simp_all add: Inl Some logged_simps log_call_def f)
    show ?thesis unfolding s r
      by (rule run_post_discarded [OF post [unfolded Inl] Some]) (simp_all split: sum.split)
  qed
qed

lemma executor_run_ends:
  assumes "executor_run sha256 (logged ar) ad rd control fuel permit lease (a, []) d = Some (result, s)"
  shows "run_ends result s"
proof -
  let ?deadline = "rp_deadline permit"
  define s0 where "s0 = exec_start (a, [] :: archive_call list) d \<lparr> ex_checks := Suc 0 \<rparr>"
  have over: "scan_over s0" unfolding s0_def by (rule run_start_over)
  obtain r where check: "control_check control ?deadline (exec_start (a, []) d) = Some (r, s0)"
    by (cases "control 0") (simp add: control_check_def s0_def exec_start_def)
  note run = assms [unfolded executor_run_def Let_def check option.case prod.case]
  consider e where "r = Inl e" | u e where "r = Inr u" "lease = Inl e" | u v where "r = Inr u" "lease = Inr v"
    by (metis sum.exhaust)
  then show ?thesis
  proof cases
    case 1
    have "s = s0" "os_published_revision_id result = None" "os_cleanup result = Cleanup_NotRequired"
      using run unfolding 1 sum.case by auto
    then show ?thesis using over scan_over_ends by blast
  next
    case 2
    have "s = s0" "os_published_revision_id result = None" "os_cleanup result = Cleanup_NotRequired"
      using run unfolding 2 sum.case by auto
    then show ?thesis using over scan_over_ends by blast
  next
    case 3
    note run1 = run [unfolded 3 sum.case]
    obtain x s1 where lease: "run_with_lease sha256 (logged ar) ad rd control ?deadline fuel s0 = Some (x, s1)"
      using run1 by (cases "run_with_lease sha256 (logged ar) ad rd control ?deadline fuel s0") auto
    have post: "run_post x s1"
      by (rule wpD [OF run_with_lease_phase lease])
        (simp_all add: s0_def exec_start_def execution_counts_default_def)
    note run2 = run1 [unfolded lease option.case prod.case]
    show ?thesis by (rule executor_end [OF post run2])
  qed
qed


section \<open>Runs return\<close>

lemma returns_control_check: "returns (control_check control deadline)"
  by (simp add: returns_def control_check_def Let_def split: prod.split)

lemma returns_call: "returns (call f)"
  by (simp add: returns_def call_def Let_def split: prod.split)

lemma returns_on_exec: "returns m \<Longrightarrow> returns (on_exec m)"
  unfolding returns_def on_exec_def by (auto split: option.splits)

lemma returns_on_reader: "returns (on_reader f)"
  by (simp add: returns_def on_reader_def Let_def split: prod.split)

lemma returns_update_counts: "returns (update_counts f)"
  unfolding update_counts_def by (intro returns_intros)

lemma returns_current_replay: "returns current_replay"
  unfolding current_replay_def by (intro returns_intros)

lemma returns_advance_replay: "returns (advance_replay p n)"
  unfolding advance_replay_def by (intro returns_intros)

lemma returns_if: "(b \<Longrightarrow> returns m) \<Longrightarrow> (\<not> b \<Longrightarrow> returns m') \<Longrightarrow> returns (if b then m else m')"
  by simp

lemma returns_case_sum:
  "(\<And>e. returns (f e)) \<Longrightarrow> (\<And>x. returns (g x)) \<Longrightarrow> returns (case r of Inl e \<Rightarrow> f e | Inr x \<Rightarrow> g x)"
  by (cases r) simp_all

lemmas executor_returns_intros = returns_intros returns_control_check returns_call returns_on_exec
  returns_on_reader returns_update_counts returns_current_replay returns_advance_replay returns_if
  returns_case_sum

lemma returns_drive: "(\<And>x s. sink x s \<noteq> None) \<Longrightarrow> returns (drive v sink)"
proof (induction v)
  case (Visit_Emit x k)
  then have "drive (k y) sink s \<noteq> None" for y s by (auto simp: returns_def)
  with Visit_Emit.prems [of x] show ?case
    by (auto simp: returns_def split: option.split)
qed (simp add: returns_def)

lemma returns_close_failed_scan: "returns (close_failed_scan ar i scopes q)"
  unfolding close_failed_scan_def close_scopes_def by (intro executor_returns_intros)

lemma returns_source_sink: "returns (source_sink ar i sc item)"
  unfolding source_sink_def Let_def by (cases item) (auto intro!: executor_returns_intros)

lemma returns_visit_sources:
  fixes ar :: "'a archive" and ad :: "('d, 'r) adapter"
  shows "returns (visit_sources ar ad i sc)"
proof -
  have "drive v (source_sink ar i sc) s \<noteq> None" for v and s :: "('a, 'd) exec"
    using returns_drive [of "source_sink ar i sc"] returns_source_sink [of ar i sc]
    unfolding returns_def by blast
  then show ?thesis by (simp add: returns_def visit_sources_def del: not_None_eq)
qed

lemma returns_scan_scopes: "returns (scan_scopes ar ad control deadline i scopes)"
proof (induction scopes)
  case Nil
  then show ?case by (simp add: returns_simple)
next
  case (Cons sc scopes)
  show ?case
    unfolding scan_scopes.simps close_scopes_def
    by (intro executor_returns_intros returns_close_failed_scan returns_visit_sources Cons.IH)
qed

text \<open>A reader whose batches advance: what is left of the source shrinks until the last batch.\<close>

definition advances :: "'r reader \<Rightarrow> (adapter_checkpoint \<Rightarrow> nat) \<Rightarrow> bool" where
  "advances rd left \<longleftrightarrow> (\<forall>cp r b r'. rd_read_batch rd cp r = (Inr b, r') \<and> ba_state b = Batch_More \<longrightarrow>
     left (ba_next_checkpoint b) < left cp)"

lemma returns_bnd_reader:
  assumes "\<And>x r r'. f r = (Inr x, r') \<Longrightarrow> returns (g x)"
  shows "returns (bnd (on_reader f) g)"
  unfolding returns_def
proof (rule allI)
  fix st
  show "bnd (on_reader f) g st \<noteq> None"
    using assms by (cases st; cases "f (snd st)"; cases "fst (f (snd st))")
      (auto simp: bnd_def on_reader_def returns_def)
qed

lemma returns_read_loop:
  fixes ar :: "'a archive" and rd :: "'r reader"
  assumes "advances rd left"
  shows "left cp < fuel \<Longrightarrow> returns (read_loop sha256 ar rd control deadline source fuel cp
    :: (('a, 'd) exec \<times> 'r, port_error, unit) act)"
proof (induction fuel arbitrary: cp)
  case (Suc fuel)
  have next_batch: "returns (read_loop sha256 ar rd control deadline source fuel (ba_next_checkpoint b)
      :: (('a, 'd) exec \<times> 'r, port_error, unit) act)"
    if read: "rd_read_batch rd cp r = (Inr b, r')" "ba_state b \<noteq> Batch_SnapshotEnd" for b r r'
  proof (rule Suc.IH)
    have "ba_state b = Batch_More" using read(2) by (cases "ba_state b") simp_all
    with read(1) assms have "left (ba_next_checkpoint b) < left cp" unfolding advances_def by blast
    with Suc.prems show "left (ba_next_checkpoint b) < fuel" by simp
  qed
  show ?case
    unfolding read_loop.simps by (intro next_batch returns_bnd_reader executor_returns_intros)
qed simp

lemma returns_case_start:
  "returns m \<Longrightarrow> (\<And>p. returns (g p)) \<Longrightarrow> (\<And>p. returns (f p)) \<Longrightarrow>
   returns (case start of Start_Fresh \<Rightarrow> m | Start_Resume p \<Rightarrow> g p | Start_Complete p \<Rightarrow> f p)"
  by (cases start) simp_all

lemma returns_replay_source:
  assumes "advances rd left" "\<And>cp. left cp < fuel"
  shows "returns (replay_source sha256 ar rd control deadline fuel source st)"
  unfolding replay_source_def
  by (intro executor_returns_intros returns_case_start returns_read_loop [OF assms])

lemma replay_sink_returns:
  assumes "advances rd left" "\<And>cp. left cp < fuel"
  shows "replay_sink sha256 ar rd control deadline fuel sc item s \<noteq> None"
proof -
  obtain d st r where item: "item = (d, st, r)" by (cases item)
  let ?m = "if si_scope (ds_identity d) \<noteq> sc then fail Port_InvalidData
     else bnd (replay_source sha256 ar rd control deadline fuel d st) (\<lambda>_. ret Sink_Continue)"
  have "returns ?m"
    by (intro executor_returns_intros returns_replay_source [OF assms])
  then have "?m (s, r) \<noteq> None" unfolding returns_def by blast
  then show ?thesis
    unfolding replay_sink_def item Let_def prod.case by (simp only: option.case_eq_if) (simp split: prod.split)
qed

lemma returns_replay_sources:
  fixes ar :: "'a archive" and ad :: "('d, 'r) adapter"
  assumes "advances rd left" "\<And>cp. left cp < fuel"
  shows "returns (replay_sources sha256 ar ad rd control deadline fuel manifest)"
proof -
  have "drive v (replay_sink sha256 ar rd control deadline fuel sc) s \<noteq> None" for v sc and s :: "('a, 'd) exec"
    using returns_drive [of "replay_sink sha256 ar rd control deadline fuel sc"]
      replay_sink_returns [OF assms, of sha256 ar control deadline sc]
    unfolding returns_def by blast
  then have visit: "returns (visit_replay_sources sha256 ar ad rd control deadline fuel sc)" for sc
    by (simp add: returns_def visit_replay_sources_def del: not_None_eq)
  show ?thesis
    unfolding replay_sources_def by (intro executor_returns_intros visit)
qed

lemma add_replay_continuation_count:
  "add_replay_continuation c = Inr c' \<Longrightarrow>
     unat (ec_replay_continuations c') = Suc (unat (ec_replay_continuations c))"
  by (auto simp: add_replay_continuation_def checked_count_add_def and_then_Inr_iff ok_or_Inr_iff
      filter_option_Some_iff checked_add_iff)

text \<open>The continuation loop ends by its own bound, from whatever state it is started in.\<close>

lemma continue_loop_returns:
  fixes s :: "('a, 'd) exec"
  shows "MAX_REPLAY_CONTINUATIONS_PER_RUN < unat (ec_replay_continuations (ex_counts s)) + rounds \<Longrightarrow> 0 < rounds \<Longrightarrow>
     continue_loop ar control deadline rounds s \<noteq> None"
proof (induction rounds arbitrary: s)
  case (Suc rounds)
  show ?case
  proof (cases "unat (ec_replay_continuations (ex_counts s)) < MAX_REPLAY_CONTINUATIONS_PER_RUN")
    case True
    then have "continue_loop ar control deadline rounds s' \<noteq> None"
      if "add_replay_continuation (ex_counts s) = Inr (ex_counts s')" for s' :: "('a, 'd) exec"
      using Suc.prems add_replay_continuation_count [OF that] by (intro Suc.IH) simp_all
    then show ?thesis
      by (auto simp: bnd_def control_check_def gets_def fail_def ret_def current_replay_def lift_result_def
          call_def advance_replay_def modify_def update_counts_def Let_def
          split: option.split prod.split sum.split)
  next
    case False
    then show ?thesis
      by (simp add: bnd_def control_check_def gets_def fail_def continuations_limit Let_def
          split: option.split prod.split sum.split)
  qed
qed simp

lemma returns_finish_replay: "returns (finish_replay ar control deadline)"
proof -
  have "returns (continue_loop ar control deadline (Suc MAX_REPLAY_CONTINUATIONS_PER_RUN))"
    unfolding returns_def by (intro allI continue_loop_returns) simp_all
  then show ?thesis unfolding finish_replay_def by (intro executor_returns_intros)
qed

lemma returns_run_with_lease:
  assumes "advances rd left" "\<And>cp. left cp < fuel"
  shows "run_with_lease sha256 ar ad rd control deadline fuel s \<noteq> None"
proof -
  have opt: "returns (case early of Some t \<Rightarrow> f t | None \<Rightarrow> m)" if "\<And>t. returns (f t)" "returns m" for early f m
    using that by (cases early) simp_all
  obtain c d scopes where visit: "collect_scopes (ad_visit_scopes ad (ex_adapter s)) [] = (c, d, scopes)"
    by (metis prod.exhaust)
  show ?thesis
    unfolding run_with_lease_def visit Let_def prod.case
    by (rule returns_def [THEN iffD1, rule_format])
      (intro executor_returns_intros opt returns_scan_scopes returns_close_failed_scan
        returns_replay_sources [OF assms] returns_finish_replay)
qed


section \<open>A concrete archive, adapter and reader\<close>

definition sample_archive :: "unit archive" where
  "sample_archive = \<lparr>
     ar_begin_scan_set = (\<lambda>m a. (Inr 5, a)),
     ar_observe_source = (\<lambda>i d st a. (Inr (), a)),
     ar_finish_scope = (\<lambda>i sc c a. (Inr (), a)),
     ar_finish_scan_set = (\<lambda>i a. (Inr Quality_Complete, a)),
     ar_begin_replay = (\<lambda>i a. (Inr \<lparr> re_revision_id = 7, re_epoch = 3 \<rparr>, a)),
     ar_replay_source_start = (\<lambda>p d a. (Inr Start_Fresh, a)),
     ar_prepare_replay_source = (\<lambda>p d st a. (Inr p, a)),
     ar_append_replay_batch = (\<lambda>p i b a. (Inr (p \<lparr> re_epoch := re_epoch p + 1 \<rparr>), a)),
     ar_continue_replay = (\<lambda>p a. (Inr \<lparr> rk_replay = p, rk_state = Continuation_Complete \<rparr>, a)),
     ar_seal_replay = (\<lambda>p a. (Inr p, a)),
     ar_promote_replay = (\<lambda>p a. (Inr (), a)),
     ar_discard_replay = (\<lambda>p a. (Inr (), a)) \<rparr>"

definition sample_reader :: "unit reader" where
  "sample_reader = \<lparr>
     rd_restore_checkpoint = (\<lambda>progress r. (Inr [7], r)),
     rd_validate_checkpoint = (\<lambda>cp r. (Inr (), r)),
     rd_read_batch = (\<lambda>cp r. (Inr sample_batch, r)) \<rparr>"

definition sample_completion :: adapter_completion where
  "sample_completion = \<lparr> cm_quality = Quality_Complete, cm_counters = adapter_counters_default,
     cm_diagnostics = adapter_diagnostics_default \<rparr>"

definition sample_discovered :: discovered_source where
  "sample_discovered = \<lparr> ds_identity = sample_source, ds_kind = Kind_Active \<rparr>"

definition sample_state :: adapter_source_state where
  "sample_state = \<lparr> as_checkpoint = [7], as_progress = sample_progress \<rparr>"

definition sample_adapter :: "(unit, unit) adapter" where
  "sample_adapter = \<lparr>
     ad_visit_scopes = (\<lambda>d. Visit_Emit (si_scope sample_source) (\<lambda>_. Visit_Done (Inr sample_completion) d)),
     ad_visit_sources = (\<lambda>sc d. Visit_Emit (sample_discovered, sample_state)
        (\<lambda>_. Visit_Done (Inr sample_completion) d)),
     ad_visit_replay_sources = (\<lambda>sc d. Visit_Emit (sample_discovered, sample_state, ())
        (\<lambda>_. Visit_Done (Inr sample_completion) d)) \<rparr>"

definition sample_permit :: refresh_permit where
  "sample_permit = \<lparr> rp_id = 9, rp_urgency = Urgency_Hint, rp_deadline = None, rp_cancellation = 0 \<rparr>"

definition sample_run :: "control \<Rightarrow> (one_shot_result \<times> (unit \<times> archive_call list, unit) exec) option" where
  "sample_run control = executor_run id (logged sample_archive) sample_adapter sample_reader control 1
     sample_permit (Inr ()) ((), []) ()"

lemmas action_defs = ret_def fail_def lift_result_def bnd_def attempt_def map_fail_def gets_def modify_def

lemmas sample_defs = sample_archive_def sample_reader_def sample_adapter_def sample_permit_def sample_completion_def

lemma sample_batch_fields:
  "ba_state sample_batch = Batch_SnapshotEnd" "ba_next_checkpoint sample_batch = [7]"
  "ba_source_identity sample_batch = sample_source" "ba_payload sample_batch = []"
  by (simp_all add: sample_batch_def)

lemma sample_canonical: "\<exists>c. canonicalize_batch id sample_source sample_batch = Inr c \<and> ba_payload c = []"
  by (simp add: canonicalize_batch_def sample_batch_def canonical_batch_new_def map_port_error_def
      validate_batch_capacity_def validate_counts_def sample_source_def sample_progress_def
      diagnostics_default_total adapter_counters_default_def)

lemma continuations_positive: "0 < MAX_REPLAY_CONTINUATIONS_PER_RUN"
  by (simp add: MAX_REPLAY_CONTINUATIONS_PER_RUN_def)

lemma sample_manifest: "scope_manifest_new [sc] = Inr [sc]"
  by (simp add: scope_manifest_new_def has_equal_neighbours_def MAX_SCOPE_MANIFEST_ENTRIES_def)

lemma sample_run_publishes:
  "\<exists>result s. sample_run (\<lambda>_. (False, 0)) = Some (result, s) \<and> os_published_revision_id result = Some 7"
proof -
  obtain c where c: "canonicalize_batch id sample_source sample_batch = Inr c" "ba_payload c = []"
    using sample_canonical by blast
  show ?thesis
    by (simp add: sample_run_def executor_run_def exec_start_def control_check_def stop_reason_def
       run_with_lease_def sample_defs action_defs sample_manifest map_port_error_def call_def logged_simps log_call_def
       visit_sources_def source_sink_def sample_discovered_def sample_state_def update_counts_def
       add_observed_source_def checked_count_add_def execution_counts_default_def checked_add_def i64_max_u64_def
       replay_sources_def visit_replay_sources_def replay_sink_def replay_source_def on_exec_def on_reader_def
       current_replay_def advance_replay_def validate_replay_transition_def c sample_batch_fields add_adapter_batch_def
       add_canonical_events_def finish_replay_def add_replay_continuation_def continuations_limit
       MAX_SCOPE_MANIFEST_ENTRIES_def continuations_positive success_result_def)
qed


section \<open>Properties\<close>

lemma executor_run_published:
  assumes "executor_run sha256 ar ad rd control fuel permit lease a d = Some (result, s)"
    and "os_published_revision_id result = Some revision"
  shows "os_outcome result = Outcome_Completed \<and> os_quality result = Quality_Complete \<and>
    os_error result = None \<and> os_request_id result = rp_id permit"
proof -
  have "\<exists>terminal. result = success_result (rp_id permit) terminal s"
    using assms unfolding executor_run_def Let_def
    by (auto split: option.splits sum.splits prod.splits)
  then obtain terminal where r: "result = success_result (rp_id permit) terminal s" by blast
  then show ?thesis
    using assms(2) by (cases terminal) (simp_all add: success_result_def)
qed

text \<open>
  C1. The executor speaks the archive's protocol.  Whatever the archive answers, whatever the
  adapter and its readers do, and whenever the run is cancelled or times out, the calls the archive
  receives are accepted by the protocol: the scopes of the manifest are finished once each and in
  order, a replay begins only on a scan set whose scopes were all complete, every call names the
  latest position the archive gave out, batches are appended only to the source being read, sealing
  follows a complete continuation and promotion follows sealing.  At the end no replay is open, the
  reported revision is the promoted one, and the reported clean-up is what happened.
\<close>

theorem executor_protocol:
  assumes "executor_run sha256 (logged ar) ad rd control fuel permit lease (a, []) d = Some (result, s)"
  shows "\<exists>ph. phase_of (run_log s) = Some ph \<and> open_replay ph = None \<and>
    os_published_revision_id result = published_of ph \<and> os_cleanup result = cleanup_of ph"
  using executor_run_ends [OF assms] unfolding run_ends_def .

theorem executor_protocol_witness:
  "\<exists>result s. sample_run (\<lambda>_. (False, 0)) = Some (result, s) \<and> phase_of (run_log s) = Some (Promoted 7)"
proof -
  obtain result s where run: "sample_run (\<lambda>_. (False, 0)) = Some (result, s)"
    and published: "os_published_revision_id result = Some 7"
    using sample_run_publishes by blast
  from executor_protocol [OF run [unfolded sample_run_def]] published
  have "phase_of (run_log s) = Some (Promoted 7)" by (metis published_of_Some)
  with run show ?thesis by blast
qed

text \<open>
  C13. What a published revision means.  When a run reports a revision, the last three calls were a
  continuation that reported the replay complete, the sealing of exactly that position, and a
  successful promotion of exactly the sealed position; the revision is the one of the replay that
  was begun on the scan set; every scope of the manifest had been finished as complete, once and in
  order, and the scan set itself was complete.  The run is reported as completed, of complete
  quality and without an error.
\<close>

theorem executor_publishes:
  assumes "executor_run sha256 (logged ar) ad rd control fuel permit lease (a, []) d = Some (result, s)"
    and "os_published_revision_id result = Some revision"
  shows "\<exists>before q k p manifest i begun.
    run_log s = before @ [Continue_Replay q (Inr k), Seal_Replay (rk_replay k) (Inr p), Promote_Replay p (Inr ())] \<and>
    rk_state k = Continuation_Complete \<and> re_revision_id p = revision \<and>
    Begin_Scan_Set manifest (Inr i) \<in> set before \<and>
    finishes before = map (\<lambda>sc. (sc, Quality_Complete)) manifest \<and>
    Finish_Scan_Set i (Inr Quality_Complete) \<in> set before \<and>
    Begin_Replay i (Inr begun) \<in> set before \<and> re_revision_id begun = revision \<and>
    os_outcome result = Outcome_Completed \<and> os_quality result = Quality_Complete \<and> os_error result = None"
proof -
  obtain ph where ph: "phase_of (run_log s) = Some ph" "published_of ph = os_published_revision_id result"
    using executor_run_ends [OF assms(1)] unfolding run_ends_def by metis
  then have "phase_of (run_log s) = Some (Promoted revision)"
    using assms(2) published_of_Some [of ph revision] by simp
  from phase_of_history [OF this] obtain sealed p where
    "run_log s = sealed @ [Promote_Replay p (Inr ())]" "seal_history p sealed" "revision = re_revision_id p"
    unfolding phase_history.simps by blast
  moreover from this(2) obtain drained q where "sealed = drained @ [Seal_Replay q (Inr p)]"
      "drain_history q drained" "re_revision_id p = re_revision_id q"
    unfolding seal_history_def by blast
  moreover from this(2) obtain before q' k where "drained = before @ [Continue_Replay q' (Inr k)]"
      "rk_state k = Continuation_Complete" "rk_replay k = q" "replay_history q before"
    unfolding drain_history_def by blast
  moreover from this(4) obtain manifest i begun where "Begin_Scan_Set manifest (Inr i) \<in> set before"
      "finishes before = map (\<lambda>sc. (sc, Quality_Complete)) manifest"
      "Finish_Scan_Set i (Inr Quality_Complete) \<in> set before"
      "Begin_Replay i (Inr begun) \<in> set before" "re_revision_id q = re_revision_id begun"
    unfolding replay_history_def scan_history_def all_complete_def by blast
  ultimately show ?thesis
    using executor_run_published [OF assms]
    by (intro exI [of _ before] exI [of _ q'] exI [of _ k] exI [of _ p] exI [of _ manifest] exI [of _ i]
        exI [of _ begun]) simp
qed

theorem executor_publishes_witness:
  "\<exists>result s before q k p. sample_run (\<lambda>_. (False, 0)) = Some (result, s) \<and>
     os_published_revision_id result = Some 7 \<and>
     run_log s = before @ [Continue_Replay q (Inr k), Seal_Replay (rk_replay k) (Inr p), Promote_Replay p (Inr ())]"
proof -
  obtain result s where run: "sample_run (\<lambda>_. (False, 0)) = Some (result, s)"
    and published: "os_published_revision_id result = Some 7"
    using sample_run_publishes by blast
  from executor_publishes [OF run [unfolded sample_run_def] published] run published show ?thesis by blast
qed


text \<open>
  C14. A run that publishes nothing leaves no replay behind: either no replay was ever begun, and
  none needs cleaning up, or the last call discarded the replay that was begun, at its latest
  position, and the reported clean-up says whether the archive accepted that.
\<close>

theorem executor_cleans_up:
  assumes "executor_run sha256 (logged ar) ad rd control fuel permit lease (a, []) d = Some (result, s)"
    and "os_published_revision_id result = None"
  shows "\<not> replay_begun (run_log s) \<and> os_cleanup result = Cleanup_NotRequired \<or>
    (\<exists>before p r. run_log s = before @ [Discard_Replay p r] \<and> replay_history p before \<and>
       os_cleanup result = (if r = Inr () then Cleanup_Discarded else Cleanup_Failed))"
proof -
  obtain ph where ph: "phase_of (run_log s) = Some ph" "open_replay ph = None" "published_of ph = None"
      "os_cleanup result = cleanup_of ph"
    using executor_run_ends [OF assms(1)] assms(2) by (auto simp: run_ends_def)
  with phase_of_history [OF ph(1)] show ?thesis
    by (cases ph) (auto simp: cleanup_of_def published_of_Some published_of_def)
qed

lemma sample_run_discards:
  "\<exists>result s. sample_run (\<lambda>n. (4 < n, 0)) = Some (result, s) \<and> os_published_revision_id result = None \<and>
     os_cleanup result = Cleanup_Discarded"
  by (simp add: sample_run_def executor_run_def exec_start_def control_check_def stop_reason_def
       run_with_lease_def sample_defs action_defs sample_manifest map_port_error_def call_def logged_simps log_call_def
       visit_sources_def source_sink_def sample_discovered_def sample_state_def update_counts_def
       add_observed_source_def checked_count_add_def execution_counts_default_def checked_add_def i64_max_u64_def
       replay_sources_def visit_replay_sources_def replay_sink_def replay_source_def on_exec_def on_reader_def
       current_replay_def advance_replay_def validate_replay_transition_def
       MAX_SCOPE_MANIFEST_ENTRIES_def execution_failure_from_def)

theorem executor_cleans_up_witness:
  "\<exists>result s before p r. sample_run (\<lambda>n. (4 < n, 0)) = Some (result, s) \<and>
     os_published_revision_id result = None \<and> run_log s = before @ [Discard_Replay p r]"
proof -
  obtain result s where run: "sample_run (\<lambda>n. (4 < n, 0)) = Some (result, s)"
    and r: "os_published_revision_id result = None" "os_cleanup result = Cleanup_Discarded"
    using sample_run_discards by blast
  from executor_cleans_up [OF run [unfolded sample_run_def] r(1)] run r show ?thesis by fastforce
qed

text \<open>
  C25. Runs return.  For a reader whose batches advance, so that what is left of a source shrinks with
  every batch that announces more, a number of batches above what can be left is enough: the run
  gives a result, whatever the archive, the adapter, the clock and the cancellation do.  No further
  assumption is needed for the continuation loop, which ends by its own bound.
\<close>

theorem executor_returns:
  assumes "advances rd left" and "\<And>cp. left cp < fuel"
  shows "\<exists>result s. executor_run sha256 ar ad rd control fuel permit lease a d = Some (result, s)"
proof -
  obtain r s where check: "control_check control (rp_deadline permit) (exec_start a d) = Some (r, s)"
    using returns_control_check unfolding returns_def by fastforce
  obtain x s' where run: "run_with_lease sha256 ar ad rd control (rp_deadline permit) fuel s = Some (x, s')"
    using returns_run_with_lease [OF assms] by fastforce
  show ?thesis
    unfolding executor_run_def Let_def check option.case prod.case
    by (cases r; cases lease; cases x; cases "ex_replay s'") (auto simp: run split: prod.split)
qed

theorem executor_returns_witness:
  "advances sample_reader (\<lambda>_. 0) \<and>
   (\<exists>result s. executor_run id sample_archive sample_adapter sample_reader (\<lambda>_. (False, 0)) 1
      sample_permit (Inr ()) () () = Some (result, s))"
proof -
  have adv: "advances sample_reader (\<lambda>_. 0)"
    by (simp add: advances_def sample_reader_def sample_batch_fields)
  from executor_returns [OF adv, of 1] adv show ?thesis by simp
qed

end
