(* ===== verification/QueryStatus.thy ===== *)
theory QueryStatus
  imports Prelude
begin

text \<open>
  The query identities of \<open>crates/query/src/identity.rs\<close>, the data status of \<open>status.rs\<close> with
  \<open>map_capture\<close>, which builds it from what the archive holds
  (\<open>crates/store/src/usage/query/status.rs\<close>), and the freshness and quality rules of \<open>service.rs\<close>.
\<close>

section \<open>Query identities\<close>

datatype query_error =
    Query_InvalidValue
  | Query_InvalidTimeZone
  | Query_SystemTimeZoneUnavailable
  | Query_UnsupportedTimeBoundary
  | Query_CapacityExceeded
  | Query_Unavailable
  | Query_VersionMismatch
  | Query_StaleSnapshot
  | Query_DeadlineExceeded
  | Query_CorruptArchive
  | Query_Overflow
  | Query_Internal

datatype dataset_identity =
    Dataset_Empty
  | Dataset_LegacySnapshotV1
  | Dataset_ReplayRevision (ds_revision: u64) (ds_dataset_generation: u64)

text \<open>\<open>PublicationGeneration\<close>, \<open>ReplayRevision\<close> and \<open>DatasetGeneration\<close> share one check.\<close>

definition query_number_new :: "u64 \<Rightarrow> query_error + u64" where
  "query_number_new v = (if v > i64_max_u64 then Inl Query_InvalidValue else Inr v)"

definition snapshot_generation_new :: "u64 \<Rightarrow> query_error + u64" where
  "snapshot_generation_new v = (if v = 0 then Inl Query_InvalidValue else Inr v)"

definition snapshot_generation_checked_next :: "u64 \<Rightarrow> query_error + u64" where
  "snapshot_generation_checked_next v = ok_or Query_Overflow (checked_add v 1)"

fun is_newer_than :: "u64 \<Rightarrow> u64 option \<Rightarrow> bool" where
  "is_newer_than self (Some current) \<longleftrightarrow> self > current"
| "is_newer_than self None \<longleftrightarrow> True"

datatype query_freshness = Fresh | Aging | Stale | Freshness_Unavailable

datatype query_quality =
  Quality_Authoritative | Quality_Derived | Quality_Estimated | Quality_Partial | Quality_Conflict | Quality_Unknown

datatype query_warning_code =
    Query_LegacyUnverified
  | Query_Partial
  | Query_RecoveryPending
  | Query_ClockDiscontinuity
  | Query_AccountingVersionStale

definition MAX_QUERY_SCOPES :: nat where
  "MAX_QUERY_SCOPES = 32"

definition MAX_QUERY_WARNINGS :: nat where
  "MAX_QUERY_WARNINGS = 16"

record query_scope =
  sc_provider_id :: string
  sc_profile_id :: string

text \<open>\<open>QueryHeaderParts\<close> and \<open>QueryHeader\<close> have the same fields.\<close>

record query_header =
  hd_snapshot_generation :: u64
  hd_publication_generation :: u64
  hd_dataset_identity :: dataset_identity
  hd_generated_at_ms :: i64
  hd_data_through_ms :: "i64 option"
  hd_freshness :: query_freshness
  hd_quality :: query_quality
  hd_scopes :: "query_scope list"
  hd_warnings :: "query_warning_code list"

definition query_header_new :: "query_header \<Rightarrow> query_error + query_header" where
  "query_header_new parts =
     (if length (hd_scopes parts) > MAX_QUERY_SCOPES \<or> length (hd_warnings parts) > MAX_QUERY_WARNINGS
      then Inl Query_CapacityExceeded else Inr parts)"

record 'p query_envelope =
  qe_header :: query_header
  qe_payload :: 'p

definition envelope_is_newer_than :: "'p query_envelope \<Rightarrow> 'p query_envelope option \<Rightarrow> bool" where
  "envelope_is_newer_than self current = is_newer_than (hd_snapshot_generation (qe_header self))
     (map_option (\<lambda>c. hd_snapshot_generation (qe_header c)) current)"

section \<open>Data status\<close>

datatype product_component_state = Component_Empty | Component_Published

datatype product_aggregate_state =
  Aggregate_Ready | Aggregate_RebuildRequired | Aggregate_Rebuilding | Aggregate_Failed

record product_aggregate_status =
  ag_state :: product_aggregate_state
  ag_expected_dataset_generation :: u64
  ag_active_generation :: u64
  ag_current_event_count :: u64
  ag_legacy_event_count :: u64
  ag_progress :: "(u64 \<times> u64) option"

datatype product_data_warning_code =
    Warning_LegacyUnverified
  | Warning_Partial
  | Warning_RecoveryPending
  | Warning_ClockDiscontinuity
  | Warning_AccountingVersionStale
  | Warning_ReplayStaging
  | Warning_AggregateRebuildRequired
  | Warning_AggregateRebuilding
  | Warning_AggregateFailed

record product_usage_data_status =
  us_publication_generation :: u64
  us_dataset_identity :: dataset_identity
  us_data_through_ms :: "i64 option"
  us_freshness :: query_freshness
  us_quality :: query_quality
  us_scope_count :: nat
  us_import_progress :: "(u64 \<times> u64) option"
  us_aggregate :: product_aggregate_status
  us_warnings :: "product_data_warning_code list"

record product_quota_data_status =
  qs_state :: product_component_state
  qs_revision :: u64
  qs_retained_sample_count :: u64
  qs_retained_epoch_count :: u64
  qs_retained_transition_count :: u64
  qs_last_published_at_ms :: "i64 option"

record product_benefit_data_status =
  bs_state :: product_component_state
  bs_revision :: u64
  bs_current_lot_count :: u64
  bs_retained_change_count :: u64
  bs_pending_due_count :: u64
  bs_retained_delivery_count :: u64
  bs_last_published_at_ms :: "i64 option"

record product_git_data_status =
  gs_state :: product_component_state
  gs_revision :: u64
  gs_repository_count :: u64
  gs_association_count :: u64
  gs_last_published_at_ms :: "i64 option"

record product_data_status =
  st_snapshot_generation :: u64
  st_generated_at_ms :: i64
  st_usage :: product_usage_data_status
  st_quota :: product_quota_data_status
  st_benefit :: product_benefit_data_status
  st_git :: product_git_data_status

definition component_state :: "u64 \<Rightarrow> product_component_state" where
  "component_state revision = (if revision = 0 then Component_Empty else Component_Published)"

section \<open>The status from the archive's capture\<close>

datatype usage_query_dataset_identity =
    Store_Empty
  | Store_LegacySnapshotV1
  | Store_ReplayRevision (su_revision_id: u64) (su_dataset_generation: u64)

datatype archive_publication_quality = Archive_Empty | Archive_Complete | Archive_Partial | Archive_RecoveryPending

datatype store_aggregate_state =
  Store_Ready | Store_RebuildRequired | Store_Rebuilding | Store_Failed

record store_aggregate_status =
  sa_state :: store_aggregate_state
  sa_expected_dataset_generation :: u64
  sa_active_generation :: u64
  sa_current_event_count :: u64
  sa_legacy_event_count :: u64
  sa_progress :: "(u64 \<times> u64) option"

record product_usage_status =
  su_publication_generation :: u64
  su_dataset_identity :: usage_query_dataset_identity
  su_accounting_versions_current :: bool
  su_data_through_ms :: "i64 option"
  su_quality :: archive_publication_quality
  su_scope_count :: nat
  su_replay_staging :: bool
  su_import_progress :: "(u64 \<times> u64) option"
  su_aggregate :: store_aggregate_status

record product_quota_status =
  sq_revision :: u64
  sq_retained_sample_count :: u64
  sq_retained_epoch_count :: u64
  sq_retained_transition_count :: u64
  sq_last_published_at_ms :: "i64 option"

record product_benefit_status =
  sb_revision :: u64
  sb_current_lot_count :: u64
  sb_retained_change_count :: u64
  sb_pending_due_count :: u64
  sb_retained_delivery_count :: u64
  sb_last_published_at_ms :: "i64 option"

record product_git_status =
  sg_publication_revision :: u64
  sg_repository_count :: u64
  sg_association_count :: u64
  sg_last_published_at_ms :: "i64 option"

record product_data_status_capture =
  cp_usage :: product_usage_status
  cp_quota :: product_quota_status
  cp_benefit :: product_benefit_status
  cp_git :: product_git_status

definition QUERY_FRESH_MAX_AGE_MS :: i64 where
  "QUERY_FRESH_MAX_AGE_MS = 20 * 60 * 1000"

definition QUERY_STALE_MIN_AGE_MS :: i64 where
  "QUERY_STALE_MIN_AGE_MS = 2 * 60 * 60 * 1000"

definition corrupt_number :: "u64 \<Rightarrow> query_error + u64" where
  "corrupt_number v = (case query_number_new v of Inl _ \<Rightarrow> Inl Query_CorruptArchive | Inr n \<Rightarrow> Inr n)"

fun from_store_identity :: "usage_query_dataset_identity \<Rightarrow> query_error + dataset_identity" where
  "from_store_identity Store_Empty = Inr Dataset_Empty"
| "from_store_identity Store_LegacySnapshotV1 = Inr Dataset_LegacySnapshotV1"
| "from_store_identity (Store_ReplayRevision revision_id dataset_generation) =
     and_then (corrupt_number revision_id) (\<lambda>revision.
     and_then (corrupt_number dataset_generation) (\<lambda>dataset_generation.
     Inr (Dataset_ReplayRevision revision dataset_generation)))"

fun to_store_identity :: "dataset_identity \<Rightarrow> usage_query_dataset_identity" where
  "to_store_identity Dataset_Empty = Store_Empty"
| "to_store_identity Dataset_LegacySnapshotV1 = Store_LegacySnapshotV1"
| "to_store_identity (Dataset_ReplayRevision revision dataset_generation) =
     Store_ReplayRevision revision dataset_generation"

text \<open>\<open>map_quality\<close> and \<open>map_freshness\<close> push onto the warnings they are given.\<close>

definition map_quality :: "dataset_identity \<Rightarrow> archive_publication_quality \<Rightarrow> bool
    \<Rightarrow> query_warning_code list \<Rightarrow> query_error + query_quality \<times> query_warning_code list" where
  "map_quality identity quality accounting_versions_current warnings =
     (if identity = Dataset_LegacySnapshotV1
      then Inr (Quality_Unknown, warnings @ [Query_LegacyUnverified])
      else and_then
        (case quality of
           Archive_Empty \<Rightarrow> if identity = Dataset_Empty then Inr (Quality_Authoritative, warnings)
             else Inl Query_CorruptArchive
         | Archive_Complete \<Rightarrow> Inr (Quality_Authoritative, warnings)
         | Archive_Partial \<Rightarrow> Inr (Quality_Partial, warnings @ [Query_Partial])
         | Archive_RecoveryPending \<Rightarrow> Inr (Quality_Partial, warnings @ [Query_RecoveryPending]))
        (\<lambda>(mapped, warnings).
           if \<not> accounting_versions_current
           then Inr (Quality_Unknown, warnings @ [Query_AccountingVersionStale])
           else Inr (mapped, warnings)))"

definition map_freshness :: "i64 \<Rightarrow> i64 option \<Rightarrow> query_warning_code list
    \<Rightarrow> query_freshness \<times> query_warning_code list" where
  "map_freshness generated_at_ms data_through_ms warnings =
     (case data_through_ms of
        None \<Rightarrow> (Freshness_Unavailable, warnings)
      | Some data_through_ms \<Rightarrow>
          (case i64_checked_sub generated_at_ms data_through_ms of
             None \<Rightarrow> (Freshness_Unavailable, warnings @ [Query_ClockDiscontinuity])
           | Some age_ms \<Rightarrow>
               if age_ms < 0 then (Freshness_Unavailable, warnings @ [Query_ClockDiscontinuity])
               else if age_ms \<le> QUERY_FRESH_MAX_AGE_MS then (Fresh, warnings)
               else if age_ms \<le> QUERY_STALE_MIN_AGE_MS then (Aging, warnings)
               else (Stale, warnings)))"

fun map_common_warning :: "query_warning_code \<Rightarrow> product_data_warning_code" where
  "map_common_warning Query_LegacyUnverified = Warning_LegacyUnverified"
| "map_common_warning Query_Partial = Warning_Partial"
| "map_common_warning Query_RecoveryPending = Warning_RecoveryPending"
| "map_common_warning Query_ClockDiscontinuity = Warning_ClockDiscontinuity"
| "map_common_warning Query_AccountingVersionStale = Warning_AccountingVersionStale"

fun map_aggregate_state ::
  "store_aggregate_state \<Rightarrow> product_aggregate_state \<times> product_data_warning_code option" where
  "map_aggregate_state Store_Ready = (Aggregate_Ready, None)"
| "map_aggregate_state Store_RebuildRequired = (Aggregate_RebuildRequired, Some Warning_AggregateRebuildRequired)"
| "map_aggregate_state Store_Rebuilding = (Aggregate_Rebuilding, Some Warning_AggregateRebuilding)"
| "map_aggregate_state Store_Failed = (Aggregate_Failed, Some Warning_AggregateFailed)"

definition map_capture ::
  "product_data_status_capture \<Rightarrow> u64 \<Rightarrow> i64 \<Rightarrow> query_error + product_data_status" where
  "map_capture capture snapshot_generation generated_at_ms =
     (let store_usage = cp_usage capture; quota = cp_quota capture; benefit = cp_benefit capture;
          git = cp_git capture; store_aggregate = su_aggregate store_usage in
      and_then (from_store_identity (su_dataset_identity store_usage)) (\<lambda>dataset_identity.
      and_then (map_quality dataset_identity (su_quality store_usage)
          (su_accounting_versions_current store_usage) []) (\<lambda>(quality, common_warnings).
      let (freshness, common_warnings) =
            map_freshness generated_at_ms (su_data_through_ms store_usage) common_warnings;
          usage_warnings = map map_common_warning common_warnings;
          usage_warnings = (if su_replay_staging store_usage then usage_warnings @ [Warning_ReplayStaging]
            else usage_warnings);
          (aggregate_state, aggregate_warning) = map_aggregate_state (sa_state store_aggregate);
          usage_warnings = (case aggregate_warning of Some warning \<Rightarrow> usage_warnings @ [warning]
            | None \<Rightarrow> usage_warnings);
          aggregate = \<lparr> ag_state = aggregate_state,
            ag_expected_dataset_generation = sa_expected_dataset_generation store_aggregate,
            ag_active_generation = sa_active_generation store_aggregate,
            ag_current_event_count = sa_current_event_count store_aggregate,
            ag_legacy_event_count = sa_legacy_event_count store_aggregate,
            ag_progress = sa_progress store_aggregate \<rparr>
      in and_then (query_number_new (su_publication_generation store_usage)) (\<lambda>publication_generation.
         and_then (query_number_new (sq_revision quota)) (\<lambda>quota_revision.
         and_then (query_number_new (sb_revision benefit)) (\<lambda>benefit_revision.
         Inr \<lparr> st_snapshot_generation = snapshot_generation, st_generated_at_ms = generated_at_ms,
               st_usage = \<lparr> us_publication_generation = publication_generation,
                 us_dataset_identity = dataset_identity,
                 us_data_through_ms = su_data_through_ms store_usage, us_freshness = freshness,
                 us_quality = quality, us_scope_count = su_scope_count store_usage,
                 us_import_progress = su_import_progress store_usage, us_aggregate = aggregate,
                 us_warnings = usage_warnings \<rparr>,
               st_quota = \<lparr> qs_state = component_state (sq_revision quota), qs_revision = quota_revision,
                 qs_retained_sample_count = sq_retained_sample_count quota,
                 qs_retained_epoch_count = sq_retained_epoch_count quota,
                 qs_retained_transition_count = sq_retained_transition_count quota,
                 qs_last_published_at_ms = sq_last_published_at_ms quota \<rparr>,
               st_benefit = \<lparr> bs_state = component_state (sb_revision benefit),
                 bs_revision = benefit_revision,
                 bs_current_lot_count = sb_current_lot_count benefit,
                 bs_retained_change_count = sb_retained_change_count benefit,
                 bs_pending_due_count = sb_pending_due_count benefit,
                 bs_retained_delivery_count = sb_retained_delivery_count benefit,
                 bs_last_published_at_ms = sb_last_published_at_ms benefit \<rparr>,
               st_git = \<lparr> gs_state = component_state (sg_publication_revision git),
                 gs_revision = sg_publication_revision git,
                 gs_repository_count = sg_repository_count git,
                 gs_association_count = sg_association_count git,
                 gs_last_published_at_ms = sg_last_published_at_ms git \<rparr> \<rparr>))))))"


section \<open>The status explains itself\<close>

definition quality_warnings :: "product_data_warning_code set" where
  "quality_warnings = {Warning_LegacyUnverified, Warning_Partial, Warning_RecoveryPending,
     Warning_AccountingVersionStale}"

definition aggregate_warnings :: "product_data_warning_code set" where
  "aggregate_warnings = {Warning_AggregateRebuildRequired, Warning_AggregateRebuilding, Warning_AggregateFailed}"

lemma query_number_new_iff: "query_number_new v = Inr n \<longleftrightarrow> n = v \<and> v \<le> i64_max_u64"
  by (auto simp: query_number_new_def)

lemma corrupt_number_iff: "corrupt_number v = Inr n \<longleftrightarrow> n = v \<and> v \<le> i64_max_u64"
  by (auto simp: corrupt_number_def query_number_new_def)

lemma from_store_identity_roundtrip: "from_store_identity i = Inr d \<Longrightarrow> to_store_identity d = i"
  by (cases i) (auto simp: result_simps corrupt_number_iff)

lemma map_quality_warnings:
  assumes "map_quality i q current [] = Inr (quality, warnings)"
  shows "distinct (map map_common_warning warnings)"
    "quality = Quality_Authoritative \<longleftrightarrow> warnings = []"
    "set (map map_common_warning warnings) \<subseteq> quality_warnings"
  using assms
  by (cases q; cases current; auto simp: map_quality_def quality_warnings_def split: if_splits)+

lemma map_freshness_warnings:
  assumes "map_freshness t through warnings = (freshness, warnings')"
  shows "warnings' = warnings \<and> (freshness = Freshness_Unavailable \<longleftrightarrow> through = None)
    \<or> warnings' = warnings @ [Query_ClockDiscontinuity] \<and> freshness = Freshness_Unavailable"
  using assms by (auto simp: map_freshness_def split: option.splits if_splits)

lemma map_aggregate_state_warning:
  assumes "map_aggregate_state state = (aggregate, warning)"
  shows "aggregate = Aggregate_Ready \<longleftrightarrow> warning = None" "set_option warning \<subseteq> aggregate_warnings"
  using assms by (cases state; auto simp: aggregate_warnings_def)+

text \<open>Every refusal of \<open>map_capture\<close>, and what a status it builds is made of.\<close>

lemma map_capture_cases:
  assumes "map_capture capture g t = Inr status"
  obtains quality common freshness common' aggregate warning where
    "from_store_identity (su_dataset_identity (cp_usage capture)) = Inr (us_dataset_identity (st_usage status))"
    "map_quality (us_dataset_identity (st_usage status)) (su_quality (cp_usage capture))
       (su_accounting_versions_current (cp_usage capture)) [] = Inr (quality, common)"
    "map_freshness t (su_data_through_ms (cp_usage capture)) common = (freshness, common')"
    "map_aggregate_state (sa_state (su_aggregate (cp_usage capture))) = (aggregate, warning)"
    "us_quality (st_usage status) = quality" "us_freshness (st_usage status) = freshness"
    "ag_state (us_aggregate (st_usage status)) = aggregate"
    "us_warnings (st_usage status) = map map_common_warning common'
       @ (if su_replay_staging (cp_usage capture) then [Warning_ReplayStaging] else [])
       @ (case warning of None \<Rightarrow> [] | Some w \<Rightarrow> [w])"
    "qs_state (st_quota status) = component_state (qs_revision (st_quota status))"
    "bs_state (st_benefit status) = component_state (bs_revision (st_benefit status))"
    "gs_state (st_git status) = component_state (gs_revision (st_git status))"
proof -
  let ?u = "cp_usage capture"
  obtain identity where identity: "from_store_identity (su_dataset_identity ?u) = Inr identity"
    using assms by (auto simp: map_capture_def Let_def result_simps)
  obtain quality common where quality:
    "map_quality identity (su_quality ?u) (su_accounting_versions_current ?u) [] = Inr (quality, common)"
    using assms identity by (auto simp: map_capture_def Let_def result_simps)
  obtain freshness common' where freshness:
    "map_freshness t (su_data_through_ms ?u) common = (freshness, common')"
    by fastforce
  obtain aggregate warning where aggregate:
    "map_aggregate_state (sa_state (su_aggregate ?u)) = (aggregate, warning)"
    by fastforce
  have status: "us_dataset_identity (st_usage status) = identity"
    "us_quality (st_usage status) = quality" "us_freshness (st_usage status) = freshness"
    "ag_state (us_aggregate (st_usage status)) = aggregate"
    "us_warnings (st_usage status) = map map_common_warning common'
       @ (if su_replay_staging ?u then [Warning_ReplayStaging] else [])
       @ (case warning of None \<Rightarrow> [] | Some w \<Rightarrow> [w])"
    "qs_state (st_quota status) = component_state (qs_revision (st_quota status))"
    "bs_state (st_benefit status) = component_state (bs_revision (st_benefit status))"
    "gs_state (st_git status) = component_state (gs_revision (st_git status))"
    using assms unfolding map_capture_def Let_def identity quality freshness aggregate and_then_simps prod.case
    by (auto simp: result_simps query_number_new_iff split: option.splits)
  show thesis
    by (rule that [of quality common freshness common' aggregate warning])
      (simp_all only: status identity quality freshness aggregate)
qed

lemma quality_warnings_disjoint:
  "Warning_ClockDiscontinuity \<notin> quality_warnings" "Warning_ReplayStaging \<notin> quality_warnings"
  "w \<in> aggregate_warnings \<Longrightarrow> w \<notin> quality_warnings"
  "Warning_ClockDiscontinuity \<notin> aggregate_warnings" "Warning_ReplayStaging \<notin> aggregate_warnings"
  by (auto simp: quality_warnings_def aggregate_warnings_def)

text \<open>The four groups the warnings are made of, each in the set it belongs to.\<close>

lemma warning_groups:
  fixes clock staging :: bool
  assumes "distinct A" "set A \<subseteq> quality_warnings" "set_option w \<subseteq> aggregate_warnings"
  defines "ws \<equiv> A @ (if clock then [Warning_ClockDiscontinuity] else [])
    @ (if staging then [Warning_ReplayStaging] else []) @ (case w of None \<Rightarrow> [] | Some x \<Rightarrow> [x])"
  shows "distinct ws" "length ws \<le> 9"
    "set ws \<inter> quality_warnings = {} \<longleftrightarrow> A = []" "set ws \<inter> aggregate_warnings = {} \<longleftrightarrow> w = None"
    "Warning_ReplayStaging \<in> set ws \<longleftrightarrow> staging" "Warning_ClockDiscontinuity \<in> set ws \<longleftrightarrow> clock"
proof -
  have "length A \<le> card quality_warnings"
    using assms(1,2) card_mono [of quality_warnings "set A"] by (simp add: distinct_card quality_warnings_def)
  also have "card quality_warnings = 4"
    by (simp add: quality_warnings_def)
  finally show "length ws \<le> 9"
    by (simp add: ws_def split: option.split)
  have A: "x \<in> set A \<Longrightarrow> x \<noteq> Warning_ClockDiscontinuity \<and> x \<noteq> Warning_ReplayStaging \<and> x \<notin> aggregate_warnings" for x
    using assms(2) quality_warnings_disjoint by blast
  show "distinct ws" "Warning_ReplayStaging \<in> set ws \<longleftrightarrow> staging" "Warning_ClockDiscontinuity \<in> set ws \<longleftrightarrow> clock"
    using assms(1,3) A quality_warnings_disjoint(4,5) by (auto simp: ws_def split: option.split)
  show "set ws \<inter> quality_warnings = {} \<longleftrightarrow> A = []"
    using assms(2,3) quality_warnings_disjoint by (cases A) (auto simp: ws_def split: option.split)
  show "set ws \<inter> aggregate_warnings = {} \<longleftrightarrow> w = None"
    using assms(3) A quality_warnings_disjoint(4,5) by (cases w) (auto simp: ws_def)
qed

text \<open>
  C33. A data status names its own shortcomings. Its warnings are distinct and fit the capacity reserved
  for them; the quality is authoritative exactly when no quality warning is present; the
  aggregates are ready exactly when no aggregate warning is; a staged replay is always reported; without a
  clock warning the freshness is unavailable only for an archive with no data; each
  component is published exactly when its revision is not zero; and the dataset is the
  archive's.
\<close>

theorem map_capture_explains:
  assumes "map_capture capture g t = Inr status"
  shows "distinct (us_warnings (st_usage status)) \<and> length (us_warnings (st_usage status)) \<le> 9
    \<and> (us_quality (st_usage status) = Quality_Authoritative
        \<longleftrightarrow> set (us_warnings (st_usage status)) \<inter> quality_warnings = {})
    \<and> (ag_state (us_aggregate (st_usage status)) = Aggregate_Ready
        \<longleftrightarrow> set (us_warnings (st_usage status)) \<inter> aggregate_warnings = {})
    \<and> (Warning_ReplayStaging \<in> set (us_warnings (st_usage status)) \<longleftrightarrow> su_replay_staging (cp_usage capture))
    \<and> (us_freshness (st_usage status) = Freshness_Unavailable
        \<longleftrightarrow> Warning_ClockDiscontinuity \<in> set (us_warnings (st_usage status))
          \<or> su_data_through_ms (cp_usage capture) = None)
    \<and> (qs_state (st_quota status) = Component_Published \<longleftrightarrow> qs_revision (st_quota status) \<noteq> 0)
    \<and> (bs_state (st_benefit status) = Component_Published \<longleftrightarrow> bs_revision (st_benefit status) \<noteq> 0)
    \<and> (gs_state (st_git status) = Component_Published \<longleftrightarrow> gs_revision (st_git status) \<noteq> 0)
    \<and> to_store_identity (us_dataset_identity (st_usage status)) = su_dataset_identity (cp_usage capture)"
proof -
  let ?u = "cp_usage capture"
  from assms obtain quality common freshness common' aggregate warning where
    identity: "from_store_identity (su_dataset_identity ?u) = Inr (us_dataset_identity (st_usage status))"
    and quality: "map_quality (us_dataset_identity (st_usage status)) (su_quality ?u)
       (su_accounting_versions_current ?u) [] = Inr (quality, common)"
    and freshness: "map_freshness t (su_data_through_ms ?u) common = (freshness, common')"
    and aggregate: "map_aggregate_state (sa_state (su_aggregate ?u)) = (aggregate, warning)"
    and fields: "us_quality (st_usage status) = quality" "us_freshness (st_usage status) = freshness"
      "ag_state (us_aggregate (st_usage status)) = aggregate"
    and warnings: "us_warnings (st_usage status) = map map_common_warning common'
       @ (if su_replay_staging ?u then [Warning_ReplayStaging] else [])
       @ (case warning of None \<Rightarrow> [] | Some w \<Rightarrow> [w])"
    and states: "qs_state (st_quota status) = component_state (qs_revision (st_quota status))"
      "bs_state (st_benefit status) = component_state (bs_revision (st_benefit status))"
      "gs_state (st_git status) = component_state (gs_revision (st_git status))"
    by (rule map_capture_cases)
  define clock where "clock \<longleftrightarrow> common' \<noteq> common"
  have clock: "map map_common_warning common'
      = map map_common_warning common @ (if clock then [Warning_ClockDiscontinuity] else [])"
    and unavailable: "freshness = Freshness_Unavailable \<longleftrightarrow> clock \<or> su_data_through_ms ?u = None"
    using map_freshness_warnings [OF freshness] by (auto simp: clock_def)
  note groups = warning_groups [OF map_quality_warnings(1,3) [OF quality]
      map_aggregate_state_warning(2) [OF aggregate], of clock "su_replay_staging ?u"]
  show ?thesis
    unfolding warnings clock append_assoc fields states
    using groups map_quality_warnings(2) [OF quality] map_aggregate_state_warning(1) [OF aggregate]
      unavailable from_store_identity_roundtrip [OF identity]
    by (simp add: component_state_def)
qed

definition sample_capture :: product_data_status_capture where
  "sample_capture =
     \<lparr> cp_usage = \<lparr> su_publication_generation = 3, su_dataset_identity = Store_ReplayRevision 2 5,
         su_accounting_versions_current = True, su_data_through_ms = Some 1000, su_quality = Archive_Partial,
         su_scope_count = 1, su_replay_staging = True, su_import_progress = None,
         su_aggregate = \<lparr> sa_state = Store_Rebuilding, sa_expected_dataset_generation = 5,
           sa_active_generation = 4, sa_current_event_count = 10, sa_legacy_event_count = 0,
           sa_progress = Some (1, 10) \<rparr> \<rparr>,
       cp_quota = \<lparr> sq_revision = 7, sq_retained_sample_count = 1, sq_retained_epoch_count = 1,
         sq_retained_transition_count = 0, sq_last_published_at_ms = Some 900 \<rparr>,
       cp_benefit = \<lparr> sb_revision = 0, sb_current_lot_count = 0, sb_retained_change_count = 0,
         sb_pending_due_count = 0, sb_retained_delivery_count = 0, sb_last_published_at_ms = None \<rparr>,
       cp_git = \<lparr> sg_publication_revision = 0, sg_repository_count = 0, sg_association_count = 0,
         sg_last_published_at_ms = None \<rparr> \<rparr>"

theorem map_capture_explains_witness:
  "\<exists>status. map_capture sample_capture 1 2000 = Inr status \<and> length (us_warnings (st_usage status)) \<le> 9
     \<and> us_quality (st_usage status) \<noteq> Quality_Authoritative
     \<and> set (us_warnings (st_usage status)) \<inter> quality_warnings \<noteq> {}"
proof -
  obtain status where status: "map_capture sample_capture 1 2000 = Inr status"
    and "us_quality (st_usage status) = Quality_Partial"
    by (simp add: map_capture_def sample_capture_def corrupt_number_def query_number_new_def i64_max_u64_def
        map_quality_def map_freshness_def i64_checked_sub_def in_i64_def i64_min_def i64_max_def
        QUERY_FRESH_MAX_AGE_MS_def)
  then show ?thesis
    using map_capture_explains [OF status] by auto
qed

end
