(* ===== verification/ProductValues.thy ===== *)
theory ProductValues
  imports QueryStatus
begin

text \<open>
  The values of the product layer: the sections of \<open>crates/product/src/section.rs\<close>, the runtime
  health of \<open>runtime.rs\<close>, the snapshot of \<open>snapshot.rs\<close> and the routes of \<open>route.rs\<close>. What a section
  shows is passed on unread, and is the type variable \<open>'p\<close> here.
\<close>

section \<open>Answers\<close>

text \<open>
  Quota, benefit and Git answers carry the revision they were computed at; the rest of their headers
  the product never reads.
\<close>

record 'p revision_envelope =
  re_revision :: u64
  re_payload :: 'p

section \<open>Sections\<close>

datatype product_section_kind = Section_Waiting | Section_Ready | Section_Unavailable

record 'e product_section =
  ps_attempt_generation :: "u64 option"
  ps_payload :: "'e option"
  ps_failure :: "query_error option"

definition section_waiting :: "'e product_section" where
  "section_waiting = \<lparr> ps_attempt_generation = None, ps_payload = None, ps_failure = None \<rparr>"

definition section_ready :: "u64 \<Rightarrow> 'e \<Rightarrow> 'e product_section" where
  "section_ready generation payload =
     \<lparr> ps_attempt_generation = Some generation, ps_payload = Some payload, ps_failure = None \<rparr>"

definition section_unavailable :: "u64 \<Rightarrow> query_error \<Rightarrow> 'e product_section" where
  "section_unavailable generation code =
     \<lparr> ps_attempt_generation = Some generation, ps_payload = None, ps_failure = Some code \<rparr>"

definition section_unavailable_retaining ::
  "u64 \<Rightarrow> query_error \<Rightarrow> 'e product_section \<Rightarrow> 'e product_section" where
  "section_unavailable_retaining generation code current =
     \<lparr> ps_attempt_generation = Some generation, ps_payload = ps_payload current, ps_failure = Some code \<rparr>"

definition section_kind :: "'e product_section \<Rightarrow> product_section_kind" where
  "section_kind self = (case (ps_payload self, ps_failure self) of
     (Some _, None) \<Rightarrow> Section_Ready
   | (None, Some _) \<Rightarrow> Section_Unavailable
   | (None, None) \<Rightarrow> Section_Waiting
   | (Some _, Some _) \<Rightarrow> Section_Unavailable)"

definition retains_payload :: "'e product_section \<Rightarrow> bool" where
  "retains_payload self \<longleftrightarrow> ps_payload self \<noteq> None \<and> ps_failure self \<noteq> None"

section \<open>Runtime health\<close>

datatype product_runtime_lifecycle =
  Runtime_Running | Runtime_Paused | Runtime_Stopping | Runtime_Stopped | Runtime_Faulted

datatype product_scheduler_lifecycle =
  Scheduler_Running | Scheduler_Paused | Scheduler_Stopping | Scheduler_Stopped | Scheduler_Faulted

datatype product_worker_lifecycle = Worker_Running | Worker_Stopping | Worker_Stopped | Worker_Faulted

datatype product_refresh_outcome =
  Refresh_Completed | Refresh_Busy | Refresh_Cancelled | Refresh_DeadlineExceeded | Refresh_Failed

datatype product_retry_mode = Retry_Normal | Retry_Accelerated

datatype product_usage_refresh_kind = Usage_None | Usage_Incremental | Usage_FullRebuild

datatype product_runtime_failure_code =
    Failure_UsageRefresh
  | Failure_QuotaDiscovery
  | Failure_QuotaClock
  | Failure_QuotaTransport
  | Failure_QuotaPublication
  | Failure_BenefitPublication
  | Failure_RuntimeControl
  | Failure_ReminderBusy
  | Failure_ReminderClock
  | Failure_ReminderStoreUnavailable
  | Failure_ReminderInvalidData
  | Failure_ReminderCapacityExceeded
  | Failure_ReminderCancelled
  | Failure_ReminderDeadlineExceeded
  | Failure_ReminderControl
  | Failure_GitBackend
  | Failure_GitPublication
  | Failure_GitControl
  | Failure_Unclassified

datatype product_runtime_observation_error =
    Observation_InvalidConfiguration
  | Observation_ProviderUnavailable
  | Observation_StoreUnavailable
  | Observation_Busy
  | Observation_Closed
  | Observation_Faulted
  | Observation_Internal

record product_runtime_core =
  co_lifecycle :: product_runtime_lifecycle
  co_scheduler :: product_scheduler_lifecycle
  co_worker :: product_worker_lifecycle
  co_recovery_pending :: bool
  co_pending_work_count :: nat
  co_accepted_request_count :: u64
  co_submitted_count :: u64

definition core_is_degraded :: "product_runtime_core \<Rightarrow> bool" where
  "core_is_degraded self \<longleftrightarrow> co_lifecycle self \<noteq> Runtime_Running
     \<or> co_scheduler self \<noteq> Scheduler_Running \<or> co_worker self \<noteq> Worker_Running"

record product_usage_runtime_health =
  uh_core :: product_runtime_core
  uh_watcher_degraded :: bool
  uh_watcher_root_count :: nat
  uh_engine_generation :: u64
  uh_refresh_kind :: product_usage_refresh_kind
  uh_outcome :: "product_refresh_outcome option"
  uh_failure :: "product_runtime_failure_code option"
  uh_initial_import_in_progress :: bool
  uh_completed_refresh_count :: u64
  uh_busy_refresh_count :: u64
  uh_cancelled_refresh_count :: u64
  uh_deadline_exceeded_refresh_count :: u64
  uh_failed_refresh_count :: u64
  uh_counter_overflowed :: bool

definition usage_health_is_degraded :: "product_usage_runtime_health \<Rightarrow> bool" where
  "usage_health_is_degraded self \<longleftrightarrow> core_is_degraded (uh_core self) \<or> uh_watcher_degraded self
     \<or> uh_failure self \<noteq> None
     \<or> uh_outcome self \<in> {Some Refresh_Busy, Some Refresh_Cancelled, Some Refresh_DeadlineExceeded,
          Some Refresh_Failed}"

record product_quota_runtime_health =
  qh_core :: product_runtime_core
  qh_source_attempt_sequence :: u64
  qh_retry_mode :: product_retry_mode
  qh_outcome :: "product_refresh_outcome option"
  qh_quota_failure :: "product_runtime_failure_code option"
  qh_benefit_failure :: "product_runtime_failure_code option"
  qh_quota_observation_count :: u16
  qh_quota_processed_count :: u16
  qh_quota_changed_count :: u16
  qh_started_count :: u16
  qh_advanced_count :: u16
  qh_duplicate_count :: u16
  qh_stale_count :: u16
  qh_allowance_change_count :: u16
  qh_reset_count :: u16
  qh_benefit_observation_count :: u8
  qh_benefit_processed_count :: u8
  qh_benefit_changed_count :: u8
  qh_benefit_freshness_only_count :: u8
  qh_benefit_duplicate_count :: u8
  qh_benefit_stale_count :: u8
  qh_benefit_lot_change_count :: u16
  qh_benefit_pending_due_count :: u16

definition quota_health_quota_is_degraded :: "product_quota_runtime_health \<Rightarrow> bool" where
  "quota_health_quota_is_degraded self \<longleftrightarrow> core_is_degraded (qh_core self) \<or> qh_quota_failure self \<noteq> None"

definition quota_health_benefit_is_degraded :: "product_quota_runtime_health \<Rightarrow> bool" where
  "quota_health_benefit_is_degraded self \<longleftrightarrow> core_is_degraded (qh_core self) \<or> qh_benefit_failure self \<noteq> None"

record product_reminder_runtime_health =
  rh_core :: product_runtime_core
  rh_source_attempt_sequence :: u64
  rh_retry_mode :: product_retry_mode
  rh_outcome :: "product_refresh_outcome option"
  rh_failure :: "product_runtime_failure_code option"
  rh_notification_pending :: bool
  rh_examined_count :: u16
  rh_expired_count :: u16
  rh_suppressed_count :: u16
  rh_delivery_count :: u16
  rh_pending_due_count :: u64
  rh_retained_delivery_count :: u64
  rh_nearest_due_at_ms :: "i64 option"

definition reminder_health_is_degraded :: "product_reminder_runtime_health \<Rightarrow> bool" where
  "reminder_health_is_degraded self \<longleftrightarrow> core_is_degraded (rh_core self) \<or> rh_failure self \<noteq> None"

record product_git_runtime_health =
  gh_core :: product_runtime_core
  gh_source_attempt_sequence :: u64
  gh_outcome :: "product_refresh_outcome option"
  gh_failure :: "product_runtime_failure_code option"
  gh_scanned_count :: u64
  gh_published_count :: u64
  gh_rebuild_count :: u64
  gh_append_count :: u64
  gh_unchanged_count :: u64
  gh_partial_count :: u64
  gh_unavailable_count :: u64
  gh_cancelled_count :: u64
  gh_stale_count :: u64
  gh_retained_hint_count :: nat
  gh_dropped_hint_count :: u64

definition git_health_is_degraded :: "product_git_runtime_health \<Rightarrow> bool" where
  "git_health_is_degraded self \<longleftrightarrow> core_is_degraded (gh_core self) \<or> gh_failure self \<noteq> None"

record 'h product_runtime_section =
  rs_generation :: "u64 option"
  rs_health :: "'h option"
  rs_observation_error :: "product_runtime_observation_error option"

definition runtime_section_waiting :: "'h product_runtime_section" where
  "runtime_section_waiting = \<lparr> rs_generation = None, rs_health = None, rs_observation_error = None \<rparr>"

definition runtime_section_ready :: "u64 \<Rightarrow> 'h \<Rightarrow> 'h product_runtime_section" where
  "runtime_section_ready generation health =
     \<lparr> rs_generation = Some generation, rs_health = Some health, rs_observation_error = None \<rparr>"

definition runtime_section_unavailable_retaining ::
  "u64 \<Rightarrow> product_runtime_observation_error \<Rightarrow> 'h product_runtime_section \<Rightarrow> 'h product_runtime_section" where
  "runtime_section_unavailable_retaining generation error current =
     \<lparr> rs_generation = Some generation, rs_health = rs_health current, rs_observation_error = Some error \<rparr>"

definition runtime_section_kind :: "'h product_runtime_section \<Rightarrow> product_section_kind" where
  "runtime_section_kind self = (case (rs_health self \<noteq> None, rs_observation_error self \<noteq> None) of
     (False, False) \<Rightarrow> Section_Waiting
   | (True, False) \<Rightarrow> Section_Ready
   | (_, True) \<Rightarrow> Section_Unavailable)"

record product_runtime_status =
  rt_usage :: "product_usage_runtime_health product_runtime_section"
  rt_quota :: "product_quota_runtime_health product_runtime_section"
  rt_reminder :: "product_reminder_runtime_health product_runtime_section"
  rt_git :: "product_git_runtime_health product_runtime_section"

definition runtime_status_waiting :: product_runtime_status where
  "runtime_status_waiting = \<lparr> rt_usage = runtime_section_waiting, rt_quota = runtime_section_waiting,
     rt_reminder = runtime_section_waiting, rt_git = runtime_section_waiting \<rparr>"

definition usage_is_degraded :: "product_runtime_status \<Rightarrow> bool" where
  "usage_is_degraded self \<longleftrightarrow> rs_observation_error (rt_usage self) \<noteq> None
     \<or> is_some_and usage_health_is_degraded (rs_health (rt_usage self))"

definition quota_is_degraded :: "product_runtime_status \<Rightarrow> bool" where
  "quota_is_degraded self \<longleftrightarrow> rs_observation_error (rt_quota self) \<noteq> None
     \<or> is_some_and quota_health_quota_is_degraded (rs_health (rt_quota self))"

definition benefit_is_degraded :: "product_runtime_status \<Rightarrow> bool" where
  "benefit_is_degraded self \<longleftrightarrow> rs_observation_error (rt_quota self) \<noteq> None
     \<or> rs_observation_error (rt_reminder self) \<noteq> None
     \<or> is_some_and quota_health_benefit_is_degraded (rs_health (rt_quota self))
     \<or> is_some_and reminder_health_is_degraded (rs_health (rt_reminder self))"

definition git_is_degraded :: "product_runtime_status \<Rightarrow> bool" where
  "git_is_degraded self \<longleftrightarrow> rs_observation_error (rt_git self) \<noteq> None
     \<or> is_some_and git_health_is_degraded (rs_health (rt_git self))"

section \<open>Routes\<close>

datatype product_route =
    Route_Dashboard
  | Route_History
  | Route_Sessions
  | Route_Models
  | Route_Projects
  | Route_Activity
  | Route_DataHealth
  | Route_Notifications
  | Route_Settings
  | Route_HelpAbout
  | Route_CompactWidget

definition ROUTE_ALL :: "product_route list" where
  "ROUTE_ALL = [Route_Dashboard, Route_History, Route_Sessions, Route_Models, Route_Projects,
     Route_Activity, Route_DataHealth, Route_Notifications, Route_Settings, Route_HelpAbout,
     Route_CompactWidget]"

datatype product_route_state = Route_Ready | Route_Degraded | Route_Unavailable

datatype product_route_reason =
    Reason_DataStatusUnavailable
  | Reason_UsageUnavailable
  | Reason_AggregateRebuildRequired
  | Reason_AggregateRebuilding
  | Reason_AggregateFailed
  | Reason_QuotaUnavailable
  | Reason_BenefitUnavailable
  | Reason_GitUnavailable
  | Reason_ActivityUnavailable
  | Reason_SessionsUnavailable
  | Reason_SessionDetailUnavailable

definition REASON_ALL :: "product_route_reason list" where
  "REASON_ALL = [Reason_DataStatusUnavailable, Reason_UsageUnavailable, Reason_AggregateRebuildRequired,
     Reason_AggregateRebuilding, Reason_AggregateFailed, Reason_QuotaUnavailable,
     Reason_BenefitUnavailable, Reason_GitUnavailable, Reason_ActivityUnavailable,
     Reason_SessionsUnavailable, Reason_SessionDetailUnavailable]"

text \<open>\<open>reason as u8\<close>: the position of the variant.\<close>

fun reason_bit :: "product_route_reason \<Rightarrow> nat" where
  "reason_bit Reason_DataStatusUnavailable = 0"
| "reason_bit Reason_UsageUnavailable = 1"
| "reason_bit Reason_AggregateRebuildRequired = 2"
| "reason_bit Reason_AggregateRebuilding = 3"
| "reason_bit Reason_AggregateFailed = 4"
| "reason_bit Reason_QuotaUnavailable = 5"
| "reason_bit Reason_BenefitUnavailable = 6"
| "reason_bit Reason_GitUnavailable = 7"
| "reason_bit Reason_ActivityUnavailable = 8"
| "reason_bit Reason_SessionsUnavailable = 9"
| "reason_bit Reason_SessionDetailUnavailable = 10"

type_synonym product_route_reasons = u16

unbundle bit_operations_syntax

definition reasons_empty :: product_route_reasons where
  "reasons_empty = 0"

definition reasons_with :: "product_route_reasons \<Rightarrow> product_route_reason \<Rightarrow> product_route_reasons" where
  "reasons_with self reason = self OR push_bit (reason_bit reason) 1"

definition reasons_contains :: "product_route_reasons \<Rightarrow> product_route_reason \<Rightarrow> bool" where
  "reasons_contains self reason \<longleftrightarrow> self AND push_bit (reason_bit reason) 1 \<noteq> 0"

definition reasons_is_empty :: "product_route_reasons \<Rightarrow> bool" where
  "reasons_is_empty self \<longleftrightarrow> self = 0"

text \<open>The iterator: the next reason at or after an index, and the index to go on from.\<close>

function reasons_next :: "product_route_reasons \<Rightarrow> nat \<Rightarrow> (product_route_reason \<times> nat) option" where
  "reasons_next self index =
     (if index < length REASON_ALL
      then if reasons_contains self (REASON_ALL ! index) then Some (REASON_ALL ! index, index + 1)
           else reasons_next self (index + 1)
      else None)"
  by pat_completeness auto

termination reasons_next
  by (relation "measure (\<lambda>(_, index). length REASON_ALL - index)") auto

declare reasons_next.simps [simp del]

lemma reasons_next_spec:
  "reasons_next self index = Some (reason, index') \<Longrightarrow>
     \<exists>k. index \<le> k \<and> k < length REASON_ALL \<and> index' = k + 1 \<and> reason = REASON_ALL ! k
       \<and> reasons_contains self reason \<and> (\<forall>m. index \<le> m \<and> m < k \<longrightarrow> \<not> reasons_contains self (REASON_ALL ! m))"
  "reasons_next self index = None \<Longrightarrow>
     \<forall>m. index \<le> m \<and> m < length REASON_ALL \<longrightarrow> \<not> reasons_contains self (REASON_ALL ! m)"
proof (induction self index rule: reasons_next.induct)
  case (1 self index)
  note IH = "1.IH" and step = reasons_next.simps [of self index]
  {
    case 1
    show ?case
    proof (cases "reasons_contains self (REASON_ALL ! index)")
      case True
      with 1 step show ?thesis
        by (auto split: if_splits intro!: exI [of _ index])
    next
      case False
      with 1 step have less: "index < length REASON_ALL"
        and tail: "reasons_next self (index + 1) = Some (reason, index')"
        by (auto split: if_splits)
      from IH(1) [OF less False tail] False show ?thesis
        by (metis Suc_eq_plus1 Suc_leD le_antisym not_less_eq_eq)
    qed
  next
    case 2
    with step have "index < length REASON_ALL \<Longrightarrow>
        \<not> reasons_contains self (REASON_ALL ! index) \<and> reasons_next self (index + 1) = None"
      by (auto split: if_splits)
    with IH(2) show ?case
      by (metis Suc_eq_plus1 le_antisym le_less_trans not_less_eq_eq)
  }
qed

record product_route_status =
  pr_route :: product_route
  pr_state :: product_route_state
  pr_reasons :: product_route_reasons

definition status_for :: "product_route \<Rightarrow> product_route_reasons \<Rightarrow> product_route_status" where
  "status_for route reasons =
     \<lparr> pr_route = route,
       pr_state = (if reasons_is_empty reasons then Route_Ready else Route_Degraded),
       pr_reasons = reasons \<rparr>"

definition aggregate_status_for :: "product_route \<Rightarrow> product_route_reasons \<Rightarrow> product_route_status" where
  "aggregate_status_for route reasons =
     (let aggregate_unavailable = reasons_contains reasons Reason_AggregateRebuildRequired
        \<or> reasons_contains reasons Reason_AggregateRebuilding
        \<or> reasons_contains reasons Reason_AggregateFailed
      in \<lparr> pr_route = route,
           pr_state = (if aggregate_unavailable then Route_Unavailable
             else if reasons_is_empty reasons then Route_Ready else Route_Degraded),
           pr_reasons = reasons \<rparr>)"

definition initial_routes :: "product_route_status list" where
  "initial_routes =
     (let unavailable = reasons_with reasons_empty Reason_DataStatusUnavailable;
          off = (\<lambda>route. \<lparr> pr_route = route, pr_state = Route_Unavailable, pr_reasons = unavailable \<rparr>);
          on = (\<lambda>route. \<lparr> pr_route = route, pr_state = Route_Ready, pr_reasons = reasons_empty \<rparr>)
      in [off Route_Dashboard, off Route_History, off Route_Sessions, off Route_Models, off Route_Projects,
          off Route_Activity, off Route_DataHealth, off Route_Notifications, on Route_Settings,
          on Route_HelpAbout, off Route_CompactWidget])"

section \<open>The snapshot\<close>

record product_session_detail_selection =
  sd_generation :: u64
  sd_row_ordinal :: u8

record 'p product_snapshot =
  sn_generation :: u64
  sn_data_status :: "product_data_status product_section"
  sn_lifetime :: "'p product_section"
  sn_analytics :: "'p query_envelope product_section"
  sn_history :: "'p query_envelope product_section"
  sn_quota :: "'p revision_envelope product_section"
  sn_benefit :: "'p revision_envelope product_section"
  sn_git :: "'p revision_envelope product_section"
  sn_activity :: "'p query_envelope product_section"
  sn_sessions :: "'p query_envelope product_section"
  sn_session_detail_selection :: "product_session_detail_selection option"
  sn_session_detail :: "'p query_envelope product_section"
  sn_runtime :: product_runtime_status
  sn_routes :: "product_route_status list"

definition snapshot_initial :: "'p product_snapshot" where
  "snapshot_initial = \<lparr> sn_generation = 0, sn_data_status = section_waiting, sn_lifetime = section_waiting,
     sn_analytics = section_waiting, sn_history = section_waiting, sn_quota = section_waiting,
     sn_benefit = section_waiting, sn_git = section_waiting, sn_activity = section_waiting,
     sn_sessions = section_waiting, sn_session_detail_selection = None,
     sn_session_detail = section_waiting, sn_runtime = runtime_status_waiting,
     sn_routes = initial_routes \<rparr>"

definition aggregate_reason :: "product_aggregate_state \<Rightarrow> product_route_reason option" where
  "aggregate_reason state = (case state of
     Aggregate_Ready \<Rightarrow> None
   | Aggregate_RebuildRequired \<Rightarrow> Some Reason_AggregateRebuildRequired
   | Aggregate_Rebuilding \<Rightarrow> Some Reason_AggregateRebuilding
   | Aggregate_Failed \<Rightarrow> Some Reason_AggregateFailed)"

definition with_unless :: "bool \<Rightarrow> product_route_reason \<Rightarrow> product_route_reasons \<Rightarrow> product_route_reasons" where
  "with_unless ready reason reasons = (if \<not> ready then reasons_with reasons reason else reasons)"

definition with_option :: "product_route_reason option \<Rightarrow> product_route_reasons \<Rightarrow> product_route_reasons" where
  "with_option reason reasons = (case reason of Some r \<Rightarrow> reasons_with reasons r | None \<Rightarrow> reasons)"

definition derive_routes :: "'p product_snapshot \<Rightarrow> product_route_status list" where
  "derive_routes snapshot =
     (case ps_payload (sn_data_status snapshot) of
        None \<Rightarrow> initial_routes
      | Some status \<Rightarrow>
          (let common = (if section_kind (sn_data_status snapshot) \<noteq> Section_Ready
                 then reasons_with reasons_empty Reason_DataStatusUnavailable else reasons_empty);
               aggregate = aggregate_reason (ag_state (us_aggregate (st_usage status)));
               usage_runtime_ready = (\<not> usage_is_degraded (sn_runtime snapshot));
               usage_ready = (section_kind (sn_analytics snapshot) = Section_Ready \<and> usage_runtime_ready);
               history_ready = (section_kind (sn_history snapshot) = Section_Ready \<and> usage_runtime_ready);
               activity_ready = (section_kind (sn_activity snapshot) = Section_Ready \<and> usage_runtime_ready);
               sessions_ready = (section_kind (sn_sessions snapshot) = Section_Ready \<and> usage_runtime_ready);
               quota_ready = (qs_state (st_quota status) = Component_Published
                 \<and> section_kind (sn_quota snapshot) = Section_Ready
                 \<and> \<not> quota_is_degraded (sn_runtime snapshot));
               benefit_ready = (bs_state (st_benefit status) = Component_Published
                 \<and> section_kind (sn_benefit snapshot) = Section_Ready
                 \<and> \<not> benefit_is_degraded (sn_runtime snapshot));
               git_ready = (gs_state (st_git status) = Component_Published
                 \<and> section_kind (sn_git snapshot) = Section_Ready
                 \<and> \<not> git_is_degraded (sn_runtime snapshot));
               dashboard = with_unless git_ready Reason_GitUnavailable
                 (with_unless benefit_ready Reason_BenefitUnavailable
                 (with_unless quota_ready Reason_QuotaUnavailable
                 (with_option aggregate (with_unless usage_ready Reason_UsageUnavailable common))));
               recent_usage = with_option aggregate (with_unless history_ready Reason_UsageUnavailable common);
               sessions = with_option aggregate (with_unless sessions_ready Reason_SessionsUnavailable common);
               projects = with_unless git_ready Reason_GitUnavailable recent_usage;
               activity = with_unless activity_ready Reason_ActivityUnavailable common;
               notifications = with_unless benefit_ready Reason_BenefitUnavailable common;
               compact = with_unless quota_ready Reason_QuotaUnavailable common
           in [status_for Route_Dashboard dashboard,
               aggregate_status_for Route_History recent_usage,
               aggregate_status_for Route_Sessions sessions,
               aggregate_status_for Route_Models recent_usage,
               aggregate_status_for Route_Projects projects,
               status_for Route_Activity activity,
               status_for Route_DataHealth common,
               status_for Route_Notifications notifications,
               \<lparr> pr_route = Route_Settings, pr_state = Route_Ready, pr_reasons = reasons_empty \<rparr>,
               \<lparr> pr_route = Route_HelpAbout, pr_state = Route_Ready, pr_reasons = reasons_empty \<rparr>,
               status_for Route_CompactWidget compact]))"

definition refresh_routes :: "'p product_snapshot \<Rightarrow> 'p product_snapshot" where
  "refresh_routes self = self \<lparr> sn_routes := derive_routes self \<rparr>"

end
