(* ===== verification/ProductReducer.thy ===== *)
theory ProductReducer
  imports ProductValues
begin

text \<open>
  The product reducer of \<open>crates/product/src/reducer.rs\<close>: the one place where answers and health
  observations become the snapshot the interface shows. The macros \<open>section_methods!\<close> and
  \<open>runtime_methods!\<close> are functions over the field they are expanded at, a reader and a writer;
  the locales \<open>section_slot\<close> and \<open>runtime_slot\<close> say what the proofs need of such a field and are
  interpreted at every field of the snapshot.
\<close>

section \<open>Operations\<close>

datatype product_publish_outcome = Accepted | Coalesced | RejectedOlder | RejectedIncompatible

datatype product_reducer_error = GenerationOverflow

type_synonym 'p reducer_result =
  "(product_reducer_error + product_publish_outcome) \<times> 'p product_snapshot"

definition generation_checked_next :: "u64 \<Rightarrow> product_reducer_error + u64" where
  "generation_checked_next self = ok_or GenerationOverflow (checked_add self 1)"

definition classify_attempt :: "u64 option \<Rightarrow> u64 \<Rightarrow> product_publish_outcome" where
  "classify_attempt current candidate = (case current of
     Some current \<Rightarrow> if candidate < current then RejectedOlder
       else if candidate = current then Coalesced else Accepted
   | None \<Rightarrow> Accepted)"

definition classify_session_detail ::
  "'p product_snapshot \<Rightarrow> u64 \<Rightarrow> product_session_detail_selection \<Rightarrow> product_publish_outcome" where
  "classify_session_detail snapshot attempt selection =
     (case sn_session_detail_selection snapshot of
        Some current \<Rightarrow>
          if sd_generation selection < sd_generation current then RejectedOlder
          else if sd_generation selection = sd_generation current
              \<and> sd_row_ordinal selection \<noteq> sd_row_ordinal current then RejectedIncompatible
          else if sd_generation selection = sd_generation current
          then classify_attempt (ps_attempt_generation (sn_session_detail snapshot)) attempt
          else Accepted
      | None \<Rightarrow> Accepted)"

definition usage_compatible :: "'p product_snapshot \<Rightarrow> 'v query_envelope \<Rightarrow> bool" where
  "usage_compatible snapshot value = is_none_or (\<lambda>status.
     hd_dataset_identity (qe_header value) = us_dataset_identity (st_usage status))
     (ps_payload (sn_data_status snapshot))"

definition quota_compatible :: "'p product_snapshot \<Rightarrow> 'v revision_envelope \<Rightarrow> bool" where
  "quota_compatible snapshot value =
     is_none_or (\<lambda>status. re_revision value = qs_revision (st_quota status)) (ps_payload (sn_data_status snapshot))"

definition benefit_overview_compatible :: "'p product_snapshot \<Rightarrow> 'v revision_envelope \<Rightarrow> bool" where
  "benefit_overview_compatible snapshot value =
     is_none_or (\<lambda>status. re_revision value = bs_revision (st_benefit status)) (ps_payload (sn_data_status snapshot))"

definition git_compatible :: "'p product_snapshot \<Rightarrow> 'v revision_envelope \<Rightarrow> bool" where
  "git_compatible snapshot value =
     is_none_or (\<lambda>status. re_revision value = gs_revision (st_git status)) (ps_payload (sn_data_status snapshot))"

definition lifetime_compatible :: "'p product_snapshot \<Rightarrow> 'v \<Rightarrow> bool" where
  "lifetime_compatible snapshot value = True"

definition invalidate_if :: "u64 \<Rightarrow> ('e \<Rightarrow> bool) \<Rightarrow> 'e product_section \<Rightarrow> 'e product_section" where
  "invalidate_if status_attempt incompatible self =
     (case ps_payload self of
        None \<Rightarrow> self
      | Some payload \<Rightarrow>
          if \<not> incompatible payload then self
          else section_unavailable
            (case ps_attempt_generation self of Some attempt \<Rightarrow> attempt | None \<Rightarrow> status_attempt)
            Query_StaleSnapshot)"

definition invalidate_usage ::
  "u64 \<Rightarrow> dataset_identity \<Rightarrow> 'v query_envelope product_section \<Rightarrow> 'v query_envelope product_section" where
  "invalidate_usage status_attempt expected =
     invalidate_if status_attempt (\<lambda>value. hd_dataset_identity (qe_header value) \<noteq> expected)"

definition invalidate_incompatible_sections :: "u64 \<Rightarrow> 'p product_snapshot \<Rightarrow> 'p product_snapshot" where
  "invalidate_incompatible_sections status_attempt snapshot =
     (case ps_payload (sn_data_status snapshot) of
        None \<Rightarrow> snapshot
      | Some status \<Rightarrow>
          (let usage_identity = us_dataset_identity (st_usage status) in
           snapshot \<lparr>
             sn_analytics := invalidate_usage status_attempt usage_identity (sn_analytics snapshot),
             sn_history := invalidate_usage status_attempt usage_identity (sn_history snapshot),
             sn_activity := invalidate_usage status_attempt usage_identity (sn_activity snapshot),
             sn_sessions := invalidate_usage status_attempt usage_identity (sn_sessions snapshot),
             sn_session_detail := invalidate_usage status_attempt usage_identity (sn_session_detail snapshot),
             sn_quota := invalidate_if status_attempt
               (\<lambda>value. re_revision value \<noteq> qs_revision (st_quota status)) (sn_quota snapshot),
             sn_benefit := invalidate_if status_attempt
               (\<lambda>value. re_revision value \<noteq> bs_revision (st_benefit status)) (sn_benefit snapshot),
             sn_git := invalidate_if status_attempt
               (\<lambda>value. re_revision value \<noteq> gs_revision (st_git status)) (sn_git snapshot) \<rparr>))"

text \<open>
  Every accepted operation clones the snapshot, raises its generation, changes the clone and swaps
  it in; an overflow of the generation leaves the current one.
\<close>

definition replace_with ::
  "('p product_snapshot \<Rightarrow> 'p product_snapshot) \<Rightarrow> 'p product_snapshot \<Rightarrow> 'p reducer_result" where
  "replace_with change self =
     (case generation_checked_next (sn_generation self) of
        Inl e \<Rightarrow> (Inl e, self)
      | Inr generation \<Rightarrow> (Inr Accepted, refresh_routes (change (self \<lparr> sn_generation := generation \<rparr>))))"

type_synonym ('p, 'e) slot_get = "'p product_snapshot \<Rightarrow> 'e product_section"
type_synonym ('p, 'e) slot_put = "'e product_section \<Rightarrow> 'p product_snapshot \<Rightarrow> 'p product_snapshot"

definition replace_section ::
  "'e product_section \<Rightarrow> ('p, 'e) slot_put \<Rightarrow> 'p product_snapshot \<Rightarrow> 'p reducer_result" where
  "replace_section section replace = replace_with (replace section)"

definition publish_section :: "('p, 'e) slot_get \<Rightarrow> ('p, 'e) slot_put
    \<Rightarrow> ('p product_snapshot \<Rightarrow> 'e \<Rightarrow> bool) \<Rightarrow> u64 \<Rightarrow> 'e \<Rightarrow> 'p product_snapshot \<Rightarrow> 'p reducer_result" where
  "publish_section field replace compatible attempt value self =
     (let outcome = classify_attempt (ps_attempt_generation (field self)) attempt in
      if outcome \<noteq> Accepted then (Inr outcome, self)
      else if \<not> compatible self value then (Inr RejectedIncompatible, self)
      else replace_section (section_ready attempt value) replace self)"

definition fail_section :: "('p, 'e) slot_get \<Rightarrow> ('p, 'e) slot_put
    \<Rightarrow> u64 \<Rightarrow> query_error \<Rightarrow> 'p product_snapshot \<Rightarrow> 'p reducer_result" where
  "fail_section field replace attempt code self =
     (let outcome = classify_attempt (ps_attempt_generation (field self)) attempt in
      if outcome \<noteq> Accepted then (Inr outcome, self)
      else replace_section (section_unavailable_retaining attempt code (field self)) replace self)"

definition publish_runtime_health ::
  "('p product_snapshot \<Rightarrow> 'h product_runtime_section)
    \<Rightarrow> ('h product_runtime_section \<Rightarrow> 'p product_snapshot \<Rightarrow> 'p product_snapshot)
    \<Rightarrow> u64 \<Rightarrow> 'h \<Rightarrow> 'p product_snapshot \<Rightarrow> 'p reducer_result" where
  "publish_runtime_health field replace generation health self =
     (let outcome = classify_attempt (rs_generation (field self)) generation in
      if outcome \<noteq> Accepted then (Inr outcome, self)
      else replace_with (replace (runtime_section_ready generation health)) self)"

definition fail_runtime_observation ::
  "('p product_snapshot \<Rightarrow> 'h product_runtime_section)
    \<Rightarrow> ('h product_runtime_section \<Rightarrow> 'p product_snapshot \<Rightarrow> 'p product_snapshot)
    \<Rightarrow> u64 \<Rightarrow> product_runtime_observation_error \<Rightarrow> 'p product_snapshot \<Rightarrow> 'p reducer_result" where
  "fail_runtime_observation field replace generation error self =
     (let outcome = classify_attempt (rs_generation (field self)) generation in
      if outcome \<noteq> Accepted then (Inr outcome, self)
      else replace_with (replace (runtime_section_unavailable_retaining generation error (field self))) self)"

definition publish_data_status ::
  "u64 \<Rightarrow> product_data_status \<Rightarrow> 'p product_snapshot \<Rightarrow> 'p reducer_result" where
  "publish_data_status attempt value self =
     (let outcome = classify_attempt (ps_attempt_generation (sn_data_status self)) attempt in
      if outcome \<noteq> Accepted then (Inr outcome, self)
      else replace_with (\<lambda>next. invalidate_incompatible_sections attempt
        (next \<lparr> sn_data_status := section_ready attempt value \<rparr>)) self)"

definition put_data_status :: "('p, product_data_status) slot_put" where
  "put_data_status section next = next \<lparr> sn_data_status := section \<rparr>"

definition fail_data_status :: "u64 \<Rightarrow> query_error \<Rightarrow> 'p product_snapshot \<Rightarrow> 'p reducer_result" where
  "fail_data_status = fail_section sn_data_status put_data_status"

definition put_analytics :: "('p, 'p query_envelope) slot_put" where
  "put_analytics section next = next \<lparr> sn_analytics := section \<rparr>"

definition publish_analytics where
  "publish_analytics = publish_section sn_analytics put_analytics usage_compatible"

definition fail_analytics where
  "fail_analytics = fail_section sn_analytics put_analytics"

definition put_history :: "('p, 'p query_envelope) slot_put" where
  "put_history section next = next \<lparr> sn_history := section \<rparr>"

definition publish_history where
  "publish_history = publish_section sn_history put_history usage_compatible"

definition fail_history where
  "fail_history = fail_section sn_history put_history"

definition put_lifetime :: "('p, 'p) slot_put" where
  "put_lifetime section next = next \<lparr> sn_lifetime := section \<rparr>"

definition publish_lifetime where
  "publish_lifetime = publish_section sn_lifetime put_lifetime lifetime_compatible"

definition fail_lifetime where
  "fail_lifetime = fail_section sn_lifetime put_lifetime"

definition put_quota :: "('p, 'p revision_envelope) slot_put" where
  "put_quota section next = next \<lparr> sn_quota := section \<rparr>"

definition publish_quota where
  "publish_quota = publish_section sn_quota put_quota quota_compatible"

definition fail_quota where
  "fail_quota = fail_section sn_quota put_quota"

definition put_benefit :: "('p, 'p revision_envelope) slot_put" where
  "put_benefit section next = next \<lparr> sn_benefit := section \<rparr>"

definition publish_benefit where
  "publish_benefit = publish_section sn_benefit put_benefit benefit_overview_compatible"

definition fail_benefit where
  "fail_benefit = fail_section sn_benefit put_benefit"

definition put_git :: "('p, 'p revision_envelope) slot_put" where
  "put_git section next = next \<lparr> sn_git := section \<rparr>"

definition publish_git where
  "publish_git = publish_section sn_git put_git git_compatible"

definition fail_git where
  "fail_git = fail_section sn_git put_git"

definition put_activity :: "('p, 'p query_envelope) slot_put" where
  "put_activity section next = next \<lparr> sn_activity := section \<rparr>"

definition publish_activity where
  "publish_activity = publish_section sn_activity put_activity usage_compatible"

definition fail_activity where
  "fail_activity = fail_section sn_activity put_activity"

text \<open>
  \<open>replace_sessions\<close> also drops the detail of a row of the page it replaces, so the sessions field has
  a writer that does both.
\<close>

definition put_sessions :: "('p, 'p query_envelope) slot_put" where
  "put_sessions section next = next \<lparr> sn_sessions := section, sn_session_detail_selection := None,
     sn_session_detail := section_waiting \<rparr>"

definition replace_sessions ::
  "'p query_envelope product_section \<Rightarrow> 'p product_snapshot \<Rightarrow> 'p reducer_result" where
  "replace_sessions section = replace_with (put_sessions section)"

definition publish_sessions :: "u64 \<Rightarrow> 'p query_envelope \<Rightarrow> 'p product_snapshot \<Rightarrow> 'p reducer_result" where
  "publish_sessions attempt value self =
     (let outcome = classify_attempt (ps_attempt_generation (sn_sessions self)) attempt in
      if outcome \<noteq> Accepted then (Inr outcome, self)
      else if \<not> usage_compatible self value then (Inr RejectedIncompatible, self)
      else replace_sessions (section_ready attempt value) self)"

definition fail_sessions :: "u64 \<Rightarrow> query_error \<Rightarrow> 'p product_snapshot \<Rightarrow> 'p reducer_result" where
  "fail_sessions attempt code self =
     (let outcome = classify_attempt (ps_attempt_generation (sn_sessions self)) attempt in
      if outcome \<noteq> Accepted then (Inr outcome, self)
      else replace_sessions (section_unavailable_retaining attempt code (sn_sessions self)) self)"

definition replace_session_detail :: "product_session_detail_selection
    \<Rightarrow> 'p query_envelope product_section \<Rightarrow> 'p product_snapshot \<Rightarrow> 'p reducer_result" where
  "replace_session_detail selection section = replace_with (\<lambda>next.
     next \<lparr> sn_session_detail_selection := Some selection, sn_session_detail := section \<rparr>)"

definition publish_session_detail :: "u64 \<Rightarrow> product_session_detail_selection \<Rightarrow> 'p query_envelope
    \<Rightarrow> 'p product_snapshot \<Rightarrow> 'p reducer_result" where
  "publish_session_detail attempt selection value self =
     (let outcome = classify_session_detail self attempt selection in
      if outcome \<noteq> Accepted then (Inr outcome, self)
      else if \<not> usage_compatible self value then (Inr RejectedIncompatible, self)
      else replace_session_detail selection (section_ready attempt value) self)"

definition fail_session_detail :: "u64 \<Rightarrow> product_session_detail_selection \<Rightarrow> query_error
    \<Rightarrow> 'p product_snapshot \<Rightarrow> 'p reducer_result" where
  "fail_session_detail attempt selection code self =
     (let outcome = classify_session_detail self attempt selection in
      if outcome \<noteq> Accepted then (Inr outcome, self)
      else replace_session_detail selection (section_unavailable attempt code) self)"

definition get_usage_runtime where
  "get_usage_runtime self = rt_usage (sn_runtime self)"

definition put_usage_runtime where
  "put_usage_runtime section next = next \<lparr> sn_runtime := (sn_runtime next) \<lparr> rt_usage := section \<rparr> \<rparr>"

definition get_quota_runtime where
  "get_quota_runtime self = rt_quota (sn_runtime self)"

definition put_quota_runtime where
  "put_quota_runtime section next = next \<lparr> sn_runtime := (sn_runtime next) \<lparr> rt_quota := section \<rparr> \<rparr>"

definition get_reminder_runtime where
  "get_reminder_runtime self = rt_reminder (sn_runtime self)"

definition put_reminder_runtime where
  "put_reminder_runtime section next = next \<lparr> sn_runtime := (sn_runtime next) \<lparr> rt_reminder := section \<rparr> \<rparr>"

definition get_git_runtime where
  "get_git_runtime self = rt_git (sn_runtime self)"

definition put_git_runtime where
  "put_git_runtime section next = next \<lparr> sn_runtime := (sn_runtime next) \<lparr> rt_git := section \<rparr> \<rparr>"

text \<open>The calls the desktop makes on the reducer, in any order.\<close>

datatype 'p reducer_call =
    Publish_Data_Status u64 product_data_status
  | Fail_Data_Status u64 query_error
  | Publish_Lifetime u64 'p
  | Fail_Lifetime u64 query_error
  | Publish_Analytics u64 "'p query_envelope"
  | Fail_Analytics u64 query_error
  | Publish_History u64 "'p query_envelope"
  | Fail_History u64 query_error
  | Publish_Quota u64 "'p revision_envelope"
  | Fail_Quota u64 query_error
  | Publish_Benefit u64 "'p revision_envelope"
  | Fail_Benefit u64 query_error
  | Publish_Git u64 "'p revision_envelope"
  | Fail_Git u64 query_error
  | Publish_Activity u64 "'p query_envelope"
  | Fail_Activity u64 query_error
  | Publish_Sessions u64 "'p query_envelope"
  | Fail_Sessions u64 query_error
  | Publish_Session_Detail u64 product_session_detail_selection "'p query_envelope"
  | Fail_Session_Detail u64 product_session_detail_selection query_error
  | Publish_Usage_Runtime u64 product_usage_runtime_health
  | Fail_Usage_Runtime u64 product_runtime_observation_error
  | Publish_Quota_Runtime u64 product_quota_runtime_health
  | Fail_Quota_Runtime u64 product_runtime_observation_error
  | Publish_Reminder_Runtime u64 product_reminder_runtime_health
  | Fail_Reminder_Runtime u64 product_runtime_observation_error
  | Publish_Git_Runtime u64 product_git_runtime_health
  | Fail_Git_Runtime u64 product_runtime_observation_error

primrec reducer_apply :: "'p reducer_call \<Rightarrow> 'p product_snapshot \<Rightarrow> 'p reducer_result" where
  "reducer_apply (Publish_Data_Status a v) = publish_data_status a v"
| "reducer_apply (Fail_Data_Status a e) = fail_data_status a e"
| "reducer_apply (Publish_Lifetime a v) = publish_lifetime a v"
| "reducer_apply (Fail_Lifetime a e) = fail_lifetime a e"
| "reducer_apply (Publish_Analytics a v) = publish_analytics a v"
| "reducer_apply (Fail_Analytics a e) = fail_analytics a e"
| "reducer_apply (Publish_History a v) = publish_history a v"
| "reducer_apply (Fail_History a e) = fail_history a e"
| "reducer_apply (Publish_Quota a v) = publish_quota a v"
| "reducer_apply (Fail_Quota a e) = fail_quota a e"
| "reducer_apply (Publish_Benefit a v) = publish_benefit a v"
| "reducer_apply (Fail_Benefit a e) = fail_benefit a e"
| "reducer_apply (Publish_Git a v) = publish_git a v"
| "reducer_apply (Fail_Git a e) = fail_git a e"
| "reducer_apply (Publish_Activity a v) = publish_activity a v"
| "reducer_apply (Fail_Activity a e) = fail_activity a e"
| "reducer_apply (Publish_Sessions a v) = publish_sessions a v"
| "reducer_apply (Fail_Sessions a e) = fail_sessions a e"
| "reducer_apply (Publish_Session_Detail a s v) = publish_session_detail a s v"
| "reducer_apply (Fail_Session_Detail a s e) = fail_session_detail a s e"
| "reducer_apply (Publish_Usage_Runtime g h) = publish_runtime_health get_usage_runtime put_usage_runtime g h"
| "reducer_apply (Fail_Usage_Runtime g e) = fail_runtime_observation get_usage_runtime put_usage_runtime g e"
| "reducer_apply (Publish_Quota_Runtime g h) = publish_runtime_health get_quota_runtime put_quota_runtime g h"
| "reducer_apply (Fail_Quota_Runtime g e) = fail_runtime_observation get_quota_runtime put_quota_runtime g e"
| "reducer_apply (Publish_Reminder_Runtime g h) =
     publish_runtime_health get_reminder_runtime put_reminder_runtime g h"
| "reducer_apply (Fail_Reminder_Runtime g e) =
     fail_runtime_observation get_reminder_runtime put_reminder_runtime g e"
| "reducer_apply (Publish_Git_Runtime g h) = publish_runtime_health get_git_runtime put_git_runtime g h"
| "reducer_apply (Fail_Git_Runtime g e) = fail_runtime_observation get_git_runtime put_git_runtime g e"

primrec reducer_run :: "'p reducer_call list \<Rightarrow> 'p product_snapshot \<Rightarrow> 'p product_snapshot" where
  "reducer_run [] self = self"
| "reducer_run (call # calls) self = reducer_run calls (snd (reducer_apply call self))"


section \<open>What every call keeps\<close>

definition attempt_le :: "u64 option \<Rightarrow> u64 option \<Rightarrow> bool" where
  "attempt_le a b = is_none_or (\<lambda>x. is_some_and (\<lambda>y. x \<le> y) b) a"

text \<open>The fields that count attempts of their own; the session detail counts per selected row.\<close>

datatype product_slot =
    Slot_Data_Status | Slot_Lifetime | Slot_Analytics | Slot_History | Slot_Quota | Slot_Benefit | Slot_Git
  | Slot_Activity | Slot_Sessions
  | Slot_Usage_Runtime | Slot_Quota_Runtime | Slot_Reminder_Runtime | Slot_Git_Runtime

primrec slot_attempt :: "product_slot \<Rightarrow> 'p product_snapshot \<Rightarrow> u64 option" where
  "slot_attempt Slot_Data_Status s = ps_attempt_generation (sn_data_status s)"
| "slot_attempt Slot_Lifetime s = ps_attempt_generation (sn_lifetime s)"
| "slot_attempt Slot_Analytics s = ps_attempt_generation (sn_analytics s)"
| "slot_attempt Slot_History s = ps_attempt_generation (sn_history s)"
| "slot_attempt Slot_Quota s = ps_attempt_generation (sn_quota s)"
| "slot_attempt Slot_Benefit s = ps_attempt_generation (sn_benefit s)"
| "slot_attempt Slot_Git s = ps_attempt_generation (sn_git s)"
| "slot_attempt Slot_Activity s = ps_attempt_generation (sn_activity s)"
| "slot_attempt Slot_Sessions s = ps_attempt_generation (sn_sessions s)"
| "slot_attempt Slot_Usage_Runtime s = rs_generation (rt_usage (sn_runtime s))"
| "slot_attempt Slot_Quota_Runtime s = rs_generation (rt_quota (sn_runtime s))"
| "slot_attempt Slot_Reminder_Runtime s = rs_generation (rt_reminder (sn_runtime s))"
| "slot_attempt Slot_Git_Runtime s = rs_generation (rt_git (sn_runtime s))"

primrec call_slot :: "'p reducer_call \<Rightarrow> (product_slot \<times> u64) option" where
  "call_slot (Publish_Data_Status a v) = Some (Slot_Data_Status, a)"
| "call_slot (Fail_Data_Status a e) = Some (Slot_Data_Status, a)"
| "call_slot (Publish_Lifetime a v) = Some (Slot_Lifetime, a)"
| "call_slot (Fail_Lifetime a e) = Some (Slot_Lifetime, a)"
| "call_slot (Publish_Analytics a v) = Some (Slot_Analytics, a)"
| "call_slot (Fail_Analytics a e) = Some (Slot_Analytics, a)"
| "call_slot (Publish_History a v) = Some (Slot_History, a)"
| "call_slot (Fail_History a e) = Some (Slot_History, a)"
| "call_slot (Publish_Quota a v) = Some (Slot_Quota, a)"
| "call_slot (Fail_Quota a e) = Some (Slot_Quota, a)"
| "call_slot (Publish_Benefit a v) = Some (Slot_Benefit, a)"
| "call_slot (Fail_Benefit a e) = Some (Slot_Benefit, a)"
| "call_slot (Publish_Git a v) = Some (Slot_Git, a)"
| "call_slot (Fail_Git a e) = Some (Slot_Git, a)"
| "call_slot (Publish_Activity a v) = Some (Slot_Activity, a)"
| "call_slot (Fail_Activity a e) = Some (Slot_Activity, a)"
| "call_slot (Publish_Sessions a v) = Some (Slot_Sessions, a)"
| "call_slot (Fail_Sessions a e) = Some (Slot_Sessions, a)"
| "call_slot (Publish_Session_Detail a s v) = None"
| "call_slot (Fail_Session_Detail a s e) = None"
| "call_slot (Publish_Usage_Runtime g h) = Some (Slot_Usage_Runtime, g)"
| "call_slot (Fail_Usage_Runtime g e) = Some (Slot_Usage_Runtime, g)"
| "call_slot (Publish_Quota_Runtime g h) = Some (Slot_Quota_Runtime, g)"
| "call_slot (Fail_Quota_Runtime g e) = Some (Slot_Quota_Runtime, g)"
| "call_slot (Publish_Reminder_Runtime g h) = Some (Slot_Reminder_Runtime, g)"
| "call_slot (Fail_Reminder_Runtime g e) = Some (Slot_Reminder_Runtime, g)"
| "call_slot (Publish_Git_Runtime g h) = Some (Slot_Git_Runtime, g)"
| "call_slot (Fail_Git_Runtime g e) = Some (Slot_Git_Runtime, g)"

text \<open>Everything the snapshot shows was computed from the data its status describes.\<close>

definition snapshot_consistent :: "'p product_snapshot \<Rightarrow> bool" where
  "snapshot_consistent s \<longleftrightarrow>
     (\<forall>envelope \<in> set_option (ps_payload (sn_analytics s)) \<union> set_option (ps_payload (sn_history s))
        \<union> set_option (ps_payload (sn_activity s)) \<union> set_option (ps_payload (sn_sessions s))
        \<union> set_option (ps_payload (sn_session_detail s)). usage_compatible s envelope)
     \<and> (\<forall>envelope \<in> set_option (ps_payload (sn_quota s)). quota_compatible s envelope)
     \<and> (\<forall>envelope \<in> set_option (ps_payload (sn_benefit s)). benefit_overview_compatible s envelope)
     \<and> (\<forall>envelope \<in> set_option (ps_payload (sn_git s)). git_compatible s envelope)
     \<and> (sn_session_detail_selection s = None \<longrightarrow> ps_payload (sn_session_detail s) = None)"

text \<open>What a call may do to the snapshot: swap in the next one, or leave it.\<close>

definition reducer_step :: "'p product_snapshot \<Rightarrow> 'p reducer_result \<Rightarrow> bool" where
  "reducer_step s r \<longleftrightarrow>
     (if fst r = Inr Accepted
      then unat (sn_generation (snd r)) = unat (sn_generation s) + 1
        \<and> sn_routes (snd r) = derive_routes (snd r)
        \<and> (\<forall>k. attempt_le (slot_attempt k s) (slot_attempt k (snd r)))
        \<and> (snapshot_consistent s \<longrightarrow> snapshot_consistent (snd r))
      else snd r = s \<and> (\<forall>e. fst r = Inl e \<longrightarrow> sn_generation s = - 1))"

lemma attempt_le_simps [simp]:
  "attempt_le None b" "attempt_le (Some x) None = False" "attempt_le (Some x) (Some y) = (x \<le> y)"
  by (simp_all add: attempt_le_def)

lemma attempt_le_refl [simp]: "attempt_le a a"
  by (cases a) simp_all

lemma attempt_le_trans: "attempt_le a b \<Longrightarrow> attempt_le b c \<Longrightarrow> attempt_le a c"
  by (cases a; cases b; cases c) simp_all

lemma classify_attempt_accepted [simp]:
  "classify_attempt current candidate = Accepted
   \<longleftrightarrow> attempt_le current (Some candidate) \<and> current \<noteq> Some candidate"
  by (cases current) (auto simp: classify_attempt_def)

lemma classify_attempt_late:
  "attempt_le (Some candidate) current \<Longrightarrow> classify_attempt current candidate \<in> {Coalesced, RejectedOlder}"
  by (cases current) (auto simp: classify_attempt_def)

lemma unat_next: "g \<noteq> - 1 \<Longrightarrow> unat (g + 1) = unat g + 1" for g :: u64
  using unatSuc [of g] by (auto simp: add.commute eq_neg_iff_add_eq_0)

lemma generation_checked_next_cases:
  "generation_checked_next g = (if g = - 1 then Inl GenerationOverflow else Inr (g + 1))"
proof (cases "g = - 1")
  case True
  then show ?thesis
    by (simp add: generation_checked_next_def checked_add_def unsigned_minus_1_eq_mask mask_eq_exp_minus_1)
next
  case False
  then have "unat (g + 1) = unat g + unat (1 :: u64)"
    by (simp add: unat_next)
  then show ?thesis
    using False checked_add_iff [of g 1 "g + 1"] by (simp add: generation_checked_next_def)
qed

lemma derive_routes_routes [simp]: "derive_routes (s \<lparr> sn_routes := r \<rparr>) = derive_routes s"
  by (cases s) (simp only: derive_routes_def product_snapshot.select_convs product_snapshot.update_convs)

lemma derive_routes_generation [simp]: "derive_routes (s \<lparr> sn_generation := g \<rparr>) = derive_routes s"
  by (cases s) (simp only: derive_routes_def product_snapshot.select_convs product_snapshot.update_convs)

lemma slot_attempt_generation [simp]: "slot_attempt k (s \<lparr> sn_generation := g \<rparr>) = slot_attempt k s"
  by (cases k) simp_all

lemma slot_attempt_routes [simp]: "slot_attempt k (s \<lparr> sn_routes := r \<rparr>) = slot_attempt k s"
  by (cases k) simp_all

lemma snapshot_consistent_generation [simp]:
  "snapshot_consistent (s \<lparr> sn_generation := g \<rparr>) = snapshot_consistent s"
  by (simp add: snapshot_consistent_def usage_compatible_def quota_compatible_def
      benefit_overview_compatible_def git_compatible_def)

lemma snapshot_consistent_routes [simp]:
  "snapshot_consistent (s \<lparr> sn_routes := r \<rparr>) = snapshot_consistent s"
  by (simp add: snapshot_consistent_def usage_compatible_def quota_compatible_def
      benefit_overview_compatible_def git_compatible_def)

lemma replace_with_step:
  assumes "\<And>s. sn_generation (change s) = sn_generation s"
    and "\<And>k. attempt_le (slot_attempt k s) (slot_attempt k (change (s \<lparr> sn_generation := sn_generation s + 1 \<rparr>)))"
    and "snapshot_consistent s \<Longrightarrow> snapshot_consistent (change (s \<lparr> sn_generation := sn_generation s + 1 \<rparr>))"
  shows "reducer_step s (replace_with change s)"
  using assms
  by (simp add: reducer_step_def replace_with_def generation_checked_next_cases refresh_routes_def)
    (simp add: unat_next)

lemma replace_with_attempt:
  "fst (replace_with change s) = Inr Accepted \<Longrightarrow>
   slot_attempt k (snd (replace_with change s)) = slot_attempt k (change (s \<lparr> sn_generation := sn_generation s + 1 \<rparr>))"
  by (simp add: replace_with_def generation_checked_next_cases refresh_routes_def split: if_splits)

lemma rejected_step: "outcome \<noteq> Accepted \<Longrightarrow> reducer_step s (Inr outcome, s)"
  by (simp add: reducer_step_def)

section \<open>Fields as slots\<close>

locale section_slot =
  fixes slot :: product_slot
    and field :: "'p product_snapshot \<Rightarrow> 'e product_section"
    and replace :: "'e product_section \<Rightarrow> 'p product_snapshot \<Rightarrow> 'p product_snapshot"
    and compatible :: "'p product_snapshot \<Rightarrow> 'e \<Rightarrow> bool"
  assumes slot_field: "slot_attempt slot s = ps_attempt_generation (field s)"
    and slot_replace: "slot_attempt k (replace x s)
      = (if k = slot then ps_attempt_generation x else slot_attempt k s)"
    and generation_replace: "sn_generation (replace x s) = sn_generation s"
    and compatible_generation: "compatible (s \<lparr> sn_generation := g \<rparr>) v = compatible s v"
    and consistent_field: "snapshot_consistent s \<Longrightarrow> ps_payload (field s) = Some v \<Longrightarrow> compatible s v"
    and consistent_replace: "snapshot_consistent s \<Longrightarrow> (\<And>v. ps_payload x = Some v \<Longrightarrow> compatible s v)
      \<Longrightarrow> snapshot_consistent (replace x s)"
begin

lemma replace_section_step:
  assumes "ps_attempt_generation x = Some attempt"
    and "attempt_le (ps_attempt_generation (field s)) (Some attempt)"
    and "\<And>v. snapshot_consistent s \<Longrightarrow> ps_payload x = Some v \<Longrightarrow> compatible s v"
  shows "reducer_step s (replace_section x replace s)"
  unfolding replace_section_def
proof (rule replace_with_step)
  show "attempt_le (slot_attempt k s) (slot_attempt k (replace x (s \<lparr> sn_generation := sn_generation s + 1 \<rparr>)))" for k
    using assms(1,2) by (simp add: slot_replace slot_field)
  show "snapshot_consistent (replace x (s \<lparr> sn_generation := sn_generation s + 1 \<rparr>))" if "snapshot_consistent s"
    using assms(3) that by (intro consistent_replace) (simp_all add: compatible_generation)
qed (rule generation_replace)

lemma publish_step: "reducer_step s (publish_section field replace compatible attempt value s)"
  by (auto simp: publish_section_def Let_def section_ready_def intro!: rejected_step replace_section_step)

lemma fail_step: "reducer_step s (fail_section field replace attempt code s)"
  by (auto simp: fail_section_def Let_def section_unavailable_retaining_def
      intro!: rejected_step replace_section_step intro: consistent_field)

lemma publish_attempt:
  "fst (publish_section field replace compatible attempt value s) = Inr Accepted
   \<Longrightarrow> slot_attempt slot (snd (publish_section field replace compatible attempt value s)) = Some attempt"
  by (auto simp: publish_section_def Let_def replace_section_def replace_with_attempt slot_replace
      section_ready_def split: if_splits)

lemma fail_attempt:
  "fst (fail_section field replace attempt code s) = Inr Accepted
   \<Longrightarrow> slot_attempt slot (snd (fail_section field replace attempt code s)) = Some attempt"
  by (auto simp: fail_section_def Let_def replace_section_def replace_with_attempt slot_replace
      section_unavailable_retaining_def split: if_splits)

lemma publish_late:
  assumes "attempt_le (Some attempt) (slot_attempt slot s)"
  shows "publish_section field replace compatible attempt value s
    = (Inr (classify_attempt (slot_attempt slot s) attempt), s)"
  using classify_attempt_late [OF assms]
  by (auto simp: publish_section_def Let_def slot_field simp del: classify_attempt_accepted)

lemma fail_late:
  assumes "attempt_le (Some attempt) (slot_attempt slot s)"
  shows "fail_section field replace attempt code s
    = (Inr (classify_attempt (slot_attempt slot s) attempt), s)"
  using classify_attempt_late [OF assms]
  by (auto simp: fail_section_def Let_def slot_field simp del: classify_attempt_accepted)

end

locale runtime_slot =
  fixes slot :: product_slot
    and field :: "'p product_snapshot \<Rightarrow> 'h product_runtime_section"
    and replace :: "'h product_runtime_section \<Rightarrow> 'p product_snapshot \<Rightarrow> 'p product_snapshot"
  assumes slot_field: "slot_attempt slot s = rs_generation (field s)"
    and slot_replace: "slot_attempt k (replace x s) = (if k = slot then rs_generation x else slot_attempt k s)"
    and generation_replace: "sn_generation (replace x s) = sn_generation s"
    and consistent_replace: "snapshot_consistent (replace x s) = snapshot_consistent s"
begin

lemma replace_runtime_step:
  assumes "attempt_le (rs_generation (field s)) (rs_generation x)"
  shows "reducer_step s (replace_with (replace x) s)"
  using assms by (intro replace_with_step) (auto simp: slot_replace slot_field generation_replace consistent_replace)

lemma publish_step: "reducer_step s (publish_runtime_health field replace g health s)"
  by (auto simp: publish_runtime_health_def Let_def runtime_section_ready_def
      intro!: rejected_step replace_runtime_step)

lemma fail_step: "reducer_step s (fail_runtime_observation field replace g error s)"
  by (auto simp: fail_runtime_observation_def Let_def runtime_section_unavailable_retaining_def
      intro!: rejected_step replace_runtime_step)

lemma publish_attempt:
  "fst (publish_runtime_health field replace g health s) = Inr Accepted
   \<Longrightarrow> slot_attempt slot (snd (publish_runtime_health field replace g health s)) = Some g"
  by (auto simp: publish_runtime_health_def Let_def replace_with_attempt slot_replace
      runtime_section_ready_def split: if_splits)

lemma fail_attempt:
  "fst (fail_runtime_observation field replace g error s) = Inr Accepted
   \<Longrightarrow> slot_attempt slot (snd (fail_runtime_observation field replace g error s)) = Some g"
  by (auto simp: fail_runtime_observation_def Let_def replace_with_attempt slot_replace
      runtime_section_unavailable_retaining_def split: if_splits)

lemma publish_late:
  assumes "attempt_le (Some g) (slot_attempt slot s)"
  shows "publish_runtime_health field replace g health s = (Inr (classify_attempt (slot_attempt slot s) g), s)"
  using classify_attempt_late [OF assms]
  by (auto simp: publish_runtime_health_def Let_def slot_field simp del: classify_attempt_accepted)

lemma fail_late:
  assumes "attempt_le (Some g) (slot_attempt slot s)"
  shows "fail_runtime_observation field replace g error s = (Inr (classify_attempt (slot_attempt slot s) g), s)"
  using classify_attempt_late [OF assms]
  by (auto simp: fail_runtime_observation_def Let_def slot_field simp del: classify_attempt_accepted)

end

text \<open>The sections' contract, discharged field by field.\<close>

lemmas compatible_defs =
  usage_compatible_def quota_compatible_def benefit_overview_compatible_def git_compatible_def lifetime_compatible_def

lemmas put_defs =
  put_data_status_def put_analytics_def put_history_def put_lifetime_def put_quota_def put_benefit_def
  put_git_def put_activity_def put_sessions_def put_usage_runtime_def put_quota_runtime_def
  put_reminder_runtime_def put_git_runtime_def

lemmas get_defs =
  get_usage_runtime_def get_quota_runtime_def get_reminder_runtime_def get_git_runtime_def

lemma slot_attempt_put [simp]:
  "slot_attempt k (put_data_status x1 s) = (if k = Slot_Data_Status then ps_attempt_generation x1 else slot_attempt k s)"
  "slot_attempt k (put_analytics x2 s) = (if k = Slot_Analytics then ps_attempt_generation x2 else slot_attempt k s)"
  "slot_attempt k (put_history x2 s) = (if k = Slot_History then ps_attempt_generation x2 else slot_attempt k s)"
  "slot_attempt k (put_lifetime x3 s) = (if k = Slot_Lifetime then ps_attempt_generation x3 else slot_attempt k s)"
  "slot_attempt k (put_quota x4 s) = (if k = Slot_Quota then ps_attempt_generation x4 else slot_attempt k s)"
  "slot_attempt k (put_benefit x4 s) = (if k = Slot_Benefit then ps_attempt_generation x4 else slot_attempt k s)"
  "slot_attempt k (put_git x4 s) = (if k = Slot_Git then ps_attempt_generation x4 else slot_attempt k s)"
  "slot_attempt k (put_activity x2 s) = (if k = Slot_Activity then ps_attempt_generation x2 else slot_attempt k s)"
  "slot_attempt k (put_sessions x2 s) = (if k = Slot_Sessions then ps_attempt_generation x2 else slot_attempt k s)"
  "slot_attempt k (put_usage_runtime y1 s) = (if k = Slot_Usage_Runtime then rs_generation y1 else slot_attempt k s)"
  "slot_attempt k (put_quota_runtime y2 s) = (if k = Slot_Quota_Runtime then rs_generation y2 else slot_attempt k s)"
  "slot_attempt k (put_reminder_runtime y3 s) = (if k = Slot_Reminder_Runtime then rs_generation y3 else slot_attempt k s)"
  "slot_attempt k (put_git_runtime y4 s) = (if k = Slot_Git_Runtime then rs_generation y4 else slot_attempt k s)"
  by (cases k; simp add: put_defs)+

definition same_status :: "'p product_snapshot \<Rightarrow> product_data_status \<Rightarrow> bool" where
  "same_status s v \<longleftrightarrow> ps_payload (sn_data_status s) = Some v"

interpretation data_status_slot: section_slot Slot_Data_Status sn_data_status put_data_status same_status
  by (unfold_locales, simp, simp)
    (auto simp: put_data_status_def same_status_def snapshot_consistent_def compatible_defs is_none_or_def
      split: option.splits)

interpretation lifetime_slot: section_slot Slot_Lifetime sn_lifetime put_lifetime lifetime_compatible
  by (unfold_locales, simp, simp)
    (auto simp: put_lifetime_def snapshot_consistent_def compatible_defs)

interpretation analytics_slot: section_slot Slot_Analytics sn_analytics put_analytics usage_compatible
  by (unfold_locales, simp, simp)
    (auto simp: put_analytics_def snapshot_consistent_def compatible_defs)

interpretation history_slot: section_slot Slot_History sn_history put_history usage_compatible
  by (unfold_locales, simp, simp)
    (auto simp: put_history_def snapshot_consistent_def compatible_defs)

interpretation quota_slot: section_slot Slot_Quota sn_quota put_quota quota_compatible
  by (unfold_locales, simp, simp)
    (auto simp: put_quota_def snapshot_consistent_def compatible_defs)

interpretation benefit_slot: section_slot Slot_Benefit sn_benefit put_benefit benefit_overview_compatible
  by (unfold_locales, simp, simp)
    (auto simp: put_benefit_def snapshot_consistent_def compatible_defs)

interpretation git_slot: section_slot Slot_Git sn_git put_git git_compatible
  by (unfold_locales, simp, simp)
    (auto simp: put_git_def snapshot_consistent_def compatible_defs)

interpretation activity_slot: section_slot Slot_Activity sn_activity put_activity usage_compatible
  by (unfold_locales, simp, simp)
    (auto simp: put_activity_def snapshot_consistent_def compatible_defs)

interpretation sessions_slot: section_slot Slot_Sessions sn_sessions put_sessions usage_compatible
  by (unfold_locales, simp, simp)
    (auto simp: put_sessions_def snapshot_consistent_def compatible_defs section_waiting_def)

interpretation usage_runtime_slot: runtime_slot Slot_Usage_Runtime get_usage_runtime put_usage_runtime
  by (unfold_locales, simp add: get_defs, simp)
    (auto simp: put_usage_runtime_def snapshot_consistent_def compatible_defs)

interpretation quota_runtime_slot: runtime_slot Slot_Quota_Runtime get_quota_runtime put_quota_runtime
  by (unfold_locales, simp add: get_defs, simp)
    (auto simp: put_quota_runtime_def snapshot_consistent_def compatible_defs)

interpretation reminder_runtime_slot: runtime_slot Slot_Reminder_Runtime get_reminder_runtime put_reminder_runtime
  by (unfold_locales, simp add: get_defs, simp)
    (auto simp: put_reminder_runtime_def snapshot_consistent_def compatible_defs)

interpretation git_runtime_slot: runtime_slot Slot_Git_Runtime get_git_runtime put_git_runtime
  by (unfold_locales, simp add: get_defs, simp)
    (auto simp: put_git_runtime_def snapshot_consistent_def compatible_defs)

section \<open>Every call, and every sequence of calls\<close>

lemma publish_sessions_eq: "publish_sessions = publish_section sn_sessions put_sessions usage_compatible"
  by (simp add: fun_eq_iff publish_sessions_def publish_section_def replace_sessions_def replace_section_def)

lemma fail_sessions_eq: "fail_sessions = fail_section sn_sessions put_sessions"
  by (simp add: fun_eq_iff fail_sessions_def fail_section_def replace_sessions_def replace_section_def)

lemmas operation_defs =
  fail_data_status_def publish_analytics_def fail_analytics_def publish_history_def fail_history_def
  publish_lifetime_def fail_lifetime_def publish_quota_def fail_quota_def publish_benefit_def fail_benefit_def
  publish_git_def fail_git_def publish_activity_def fail_activity_def publish_sessions_eq fail_sessions_eq

lemmas slot_steps =
  data_status_slot.fail_step lifetime_slot.publish_step lifetime_slot.fail_step
  analytics_slot.publish_step analytics_slot.fail_step history_slot.publish_step history_slot.fail_step
  quota_slot.publish_step quota_slot.fail_step benefit_slot.publish_step benefit_slot.fail_step
  git_slot.publish_step git_slot.fail_step activity_slot.publish_step activity_slot.fail_step
  sessions_slot.publish_step sessions_slot.fail_step
  usage_runtime_slot.publish_step usage_runtime_slot.fail_step
  quota_runtime_slot.publish_step quota_runtime_slot.fail_step
  reminder_runtime_slot.publish_step reminder_runtime_slot.fail_step
  git_runtime_slot.publish_step git_runtime_slot.fail_step

lemmas slot_attempts =
  data_status_slot.fail_attempt lifetime_slot.publish_attempt lifetime_slot.fail_attempt
  analytics_slot.publish_attempt analytics_slot.fail_attempt history_slot.publish_attempt history_slot.fail_attempt
  quota_slot.publish_attempt quota_slot.fail_attempt benefit_slot.publish_attempt benefit_slot.fail_attempt
  git_slot.publish_attempt git_slot.fail_attempt activity_slot.publish_attempt activity_slot.fail_attempt
  sessions_slot.publish_attempt sessions_slot.fail_attempt
  usage_runtime_slot.publish_attempt usage_runtime_slot.fail_attempt
  quota_runtime_slot.publish_attempt quota_runtime_slot.fail_attempt
  reminder_runtime_slot.publish_attempt reminder_runtime_slot.fail_attempt
  git_runtime_slot.publish_attempt git_runtime_slot.fail_attempt

lemmas slot_lates =
  data_status_slot.fail_late lifetime_slot.publish_late lifetime_slot.fail_late
  analytics_slot.publish_late analytics_slot.fail_late history_slot.publish_late history_slot.fail_late
  quota_slot.publish_late quota_slot.fail_late benefit_slot.publish_late benefit_slot.fail_late
  git_slot.publish_late git_slot.fail_late activity_slot.publish_late activity_slot.fail_late
  sessions_slot.publish_late sessions_slot.fail_late
  usage_runtime_slot.publish_late usage_runtime_slot.fail_late
  quota_runtime_slot.publish_late quota_runtime_slot.fail_late
  reminder_runtime_slot.publish_late reminder_runtime_slot.fail_late
  git_runtime_slot.publish_late git_runtime_slot.fail_late

lemma invalidate_if_payload:
  "ps_payload (invalidate_if a bad sec) = Some v \<Longrightarrow> ps_payload sec = Some v \<and> \<not> bad v"
  by (auto simp: invalidate_if_def section_unavailable_def split: option.splits if_splits)

lemma invalidate_if_attempt:
  "attempt_le (ps_attempt_generation sec) (ps_attempt_generation (invalidate_if a bad sec))"
  by (auto simp: invalidate_if_def section_unavailable_def split: option.splits)

lemma invalidate_sections_attempt:
  "attempt_le (slot_attempt k s) (slot_attempt k (invalidate_incompatible_sections a s))"
  by (cases k) (simp_all add: invalidate_incompatible_sections_def Let_def invalidate_usage_def
      invalidate_if_attempt split: option.split)

lemma invalidate_sections_consistent:
  assumes "sn_session_detail_selection s = None \<Longrightarrow> ps_payload (sn_session_detail s) = None"
    and "ps_payload (sn_data_status s) = Some status"
  shows "snapshot_consistent (invalidate_incompatible_sections a s)"
  using assms
  by (auto simp: snapshot_consistent_def invalidate_incompatible_sections_def Let_def invalidate_usage_def
      compatible_defs elem_set dest!: invalidate_if_payload)
    (simp add: invalidate_if_def)

lemma publish_data_status_step: "reducer_step s (publish_data_status attempt value s)"
proof (cases "classify_attempt (ps_attempt_generation (sn_data_status s)) attempt = Accepted")
  case True
  let ?next = "s \<lparr> sn_generation := sn_generation s + 1, sn_data_status := section_ready attempt value \<rparr>"
  have "reducer_step s (replace_with (\<lambda>next. invalidate_incompatible_sections attempt
        (next \<lparr> sn_data_status := section_ready attempt value \<rparr>)) s)"
  proof (rule replace_with_step)
    fix k
    have "attempt_le (slot_attempt k s) (slot_attempt k (put_data_status (section_ready attempt value) s))"
      using True by (auto simp: section_ready_def)
    moreover have "slot_attempt k (put_data_status (section_ready attempt value) s) = slot_attempt k ?next"
      by (cases k) (simp_all add: put_data_status_def)
    ultimately show "attempt_le (slot_attempt k s) (slot_attempt k (invalidate_incompatible_sections attempt ?next))"
      using attempt_le_trans invalidate_sections_attempt by metis
  next
    assume "snapshot_consistent s"
    then show "snapshot_consistent (invalidate_incompatible_sections attempt ?next)"
      by (intro invalidate_sections_consistent) (auto simp: snapshot_consistent_def section_ready_def)
  qed (simp add: invalidate_incompatible_sections_def Let_def split: option.split)
  with True show ?thesis
    by (simp add: publish_data_status_def)
qed (simp add: publish_data_status_def rejected_step del: classify_attempt_accepted)

lemma session_detail_step:
  assumes "\<And>v. ps_payload section = Some v \<Longrightarrow> usage_compatible s v"
  shows "reducer_step s (replace_session_detail selection section s)"
  unfolding replace_session_detail_def
proof (rule replace_with_step)
  fix k
  show "attempt_le (slot_attempt k s) (slot_attempt k (s \<lparr> sn_generation := sn_generation s + 1,
      sn_session_detail_selection := Some selection, sn_session_detail := section \<rparr>))"
    by (cases k) simp_all
  assume "snapshot_consistent s"
  then show "snapshot_consistent (s \<lparr> sn_generation := sn_generation s + 1,
      sn_session_detail_selection := Some selection, sn_session_detail := section \<rparr>)"
    using assms by (auto simp: snapshot_consistent_def compatible_defs)
qed simp

lemma publish_session_detail_step: "reducer_step s (publish_session_detail attempt selection value s)"
  by (auto simp: publish_session_detail_def Let_def section_ready_def intro!: rejected_step session_detail_step)

lemma fail_session_detail_step: "reducer_step s (fail_session_detail attempt selection code s)"
  by (auto simp: fail_session_detail_def Let_def section_unavailable_def intro!: rejected_step session_detail_step)

lemma reducer_apply_step: "reducer_step s (reducer_apply call s)"
  by (cases call) (simp_all add: operation_defs slot_steps publish_data_status_step
      publish_session_detail_step fail_session_detail_step)

lemma publish_data_status_attempt:
  assumes "fst (publish_data_status attempt value s) = Inr Accepted"
  shows "slot_attempt Slot_Data_Status (snd (publish_data_status attempt value s)) = Some attempt"
  using assms
  by (auto simp: publish_data_status_def Let_def replace_with_attempt invalidate_incompatible_sections_def
      section_ready_def simp del: slot_attempt.simps split: if_splits) simp

lemma publish_data_status_late:
  assumes "attempt_le (Some attempt) (slot_attempt Slot_Data_Status s)"
  shows "publish_data_status attempt value s = (Inr (classify_attempt (slot_attempt Slot_Data_Status s) attempt), s)"
  using classify_attempt_late [OF assms]
  by (auto simp: publish_data_status_def Let_def simp del: classify_attempt_accepted)

lemma reducer_apply_attempt:
  assumes "fst (reducer_apply call s) = Inr Accepted" "call_slot call = Some (slot, attempt)"
  shows "slot_attempt slot (snd (reducer_apply call s)) = Some attempt"
  using assms
  by (cases call) (auto simp: operation_defs slot_attempts publish_data_status_attempt simp del: slot_attempt.simps)

lemma reducer_apply_late:
  assumes "call_slot call = Some (slot, attempt)" "attempt_le (Some attempt) (slot_attempt slot s)"
  shows "reducer_apply call s = (Inr (classify_attempt (slot_attempt slot s) attempt), s)"
  using assms
  by (cases call) (auto simp: operation_defs slot_lates publish_data_status_late simp del: slot_attempt.simps)

primrec accepted_calls :: "'p reducer_call list \<Rightarrow> 'p product_snapshot \<Rightarrow> nat" where
  "accepted_calls [] self = 0"
| "accepted_calls (call # calls) self =
     (if fst (reducer_apply call self) = Inr Accepted then 1 else 0)
     + accepted_calls calls (snd (reducer_apply call self))"

lemma reducer_run_invariant:
  assumes "sn_routes s = derive_routes s" "snapshot_consistent s"
  shows "sn_routes (reducer_run calls s) = derive_routes (reducer_run calls s)
    \<and> snapshot_consistent (reducer_run calls s)
    \<and> unat (sn_generation (reducer_run calls s)) = unat (sn_generation s) + accepted_calls calls s"
  using assms
proof (induction calls arbitrary: s)
  case (Cons call calls)
  show ?case
    using Cons.IH [of "snd (reducer_apply call s)"] Cons.prems reducer_apply_step [of s call]
    by (auto simp: reducer_step_def split: if_splits)
qed simp

lemma reducer_run_attempts: "attempt_le (slot_attempt k s) (slot_attempt k (reducer_run calls s))"
proof (induction calls arbitrary: s)
  case (Cons call calls)
  have "attempt_le (slot_attempt k s) (slot_attempt k (snd (reducer_apply call s)))"
    using reducer_apply_step [of s call] by (auto simp: reducer_step_def split: if_splits)
  then show ?case
    using Cons.IH attempt_le_trans by (metis reducer_run.simps(2))
qed simp

lemma snapshot_initial_ok:
  "sn_routes snapshot_initial = derive_routes snapshot_initial" "snapshot_consistent snapshot_initial"
  by (simp_all add: snapshot_initial_def derive_routes_def snapshot_consistent_def section_waiting_def)

text \<open>
  C9. Whatever calls the reducer receives, and in whatever order, the snapshot it shows has the routes that
  follow from its sections; every answer in it was computed from the dataset, or at the quota, benefit or
  Git revision, that the data status in it names; no session detail is shown without a selected
  row; and its generation counts the accepted calls, so that no two snapshots share one.
\<close>

theorem product_snapshot_invariant:
  "let s = reducer_run calls snapshot_initial in
     sn_routes s = derive_routes s \<and> snapshot_consistent s
     \<and> unat (sn_generation s) = accepted_calls calls snapshot_initial"
  using reducer_run_invariant [OF snapshot_initial_ok, of calls]
  by (simp add: snapshot_initial_def)

text \<open>
  C15. Once a call for the data status, one of the sections lifetime, analytics, history, quota, benefit,
  git, activity and sessions, or a runtime observation was accepted, no later call for the same
  field with the same or an older attempt is: whatever happened in between, data status changes
  that blank the section included, it is answered as coalesced or older, and the snapshot stays.
  The session detail is not among these fields (\<open>call_slot\<close> gives it no slot): its attempts are
  compared only under the selection they were made for, and clearing the selection or choosing a
  newer one admits an earlier attempt again.
\<close>

theorem late_answers_refused:
  assumes "reducer_apply call s = (Inr Accepted, s1)" "call_slot call = Some (slot, attempt)"
    and "call_slot late_call = Some (slot, attempt')" "attempt' \<le> attempt"
  shows "fst (reducer_apply late_call (reducer_run calls s1)) \<in> {Inr Coalesced, Inr RejectedOlder}
    \<and> snd (reducer_apply late_call (reducer_run calls s1)) = reducer_run calls s1"
proof -
  have "slot_attempt slot s1 = Some attempt"
    using reducer_apply_attempt [of call s slot attempt] assms(1,2) by simp
  then have "attempt_le (Some attempt') (slot_attempt slot (reducer_run calls s1))"
    using reducer_run_attempts [of slot s1 calls] assms(4) attempt_le_trans [of "Some attempt'" "Some attempt"]
    by simp
  then show ?thesis
    using reducer_apply_late [OF assms(3)] classify_attempt_late by force
qed

theorem late_answers_refused_witness:
  "let s1 = snd (reducer_apply (Publish_Lifetime 2 (7 :: nat)) snapshot_initial) in
     fst (reducer_apply (Publish_Lifetime 1 9) (reducer_run [Fail_Data_Status 1 Query_Unavailable] s1))
       \<in> {Inr Coalesced, Inr RejectedOlder}"
proof -
  have "reducer_apply (Publish_Lifetime 2 (7 :: nat)) snapshot_initial
      = (Inr Accepted, snd (reducer_apply (Publish_Lifetime 2 (7 :: nat)) snapshot_initial))"
    by (simp add: publish_lifetime_def publish_section_def snapshot_initial_def section_waiting_def
        lifetime_compatible_def replace_section_def replace_with_def generation_checked_next_cases)
  from late_answers_refused [OF this, of Slot_Lifetime 2 "Publish_Lifetime 1 9" 1
      "[Fail_Data_Status 1 Query_Unavailable]"] show ?thesis
    unfolding Let_def by simp
qed

section \<open>Routes\<close>

lemma status_for_facts:
  "pr_state (status_for route r) = Route_Ready \<longleftrightarrow> r = 0"
  "pr_state (status_for route r) \<noteq> Route_Unavailable"
  "pr_route (status_for route r) = route" "pr_reasons (status_for route r) = r"
  by (simp_all add: status_for_def reasons_is_empty_def)

definition aggregate_reasons :: "product_route_reason set" where
  "aggregate_reasons = {Reason_AggregateRebuildRequired, Reason_AggregateRebuilding, Reason_AggregateFailed}"

definition has_aggregate_reason :: "product_route_reasons \<Rightarrow> bool" where
  "has_aggregate_reason r \<longleftrightarrow> (\<exists>x \<in> aggregate_reasons. reasons_contains r x)"

lemma aggregate_status_for_facts:
  "pr_state (aggregate_status_for route r) = Route_Ready \<longleftrightarrow> r = 0"
  "pr_state (aggregate_status_for route r) = Route_Unavailable \<longleftrightarrow> has_aggregate_reason r"
  "pr_route (aggregate_status_for route r) = route" "pr_reasons (aggregate_status_for route r) = r"
  by (auto simp: aggregate_status_for_def reasons_is_empty_def has_aggregate_reason_def
      aggregate_reasons_def reasons_contains_def)

lemma reason_bit_less: "reason_bit x < 16"
  by (cases x) simp_all

lemma reason_bit_inject [simp]: "reason_bit x = reason_bit y \<longleftrightarrow> x = y"
  by (cases x; cases y) simp_all

lemma reasons_contains_bit: "reasons_contains r y \<longleftrightarrow> bit r (reason_bit y)"
  by (simp add: reasons_contains_def push_bit_of_1 and_exp_eq_0_iff_not_bit)

lemma reasons_contains_simps [simp]:
  "reasons_contains reasons_empty y = False"
  "reasons_contains (reasons_with r x) y \<longleftrightarrow> x = y \<or> reasons_contains r y"
  "reasons_contains (with_unless ok x r) y \<longleftrightarrow> (\<not> ok \<and> x = y) \<or> reasons_contains r y"
  "reasons_contains (with_option z r) y \<longleftrightarrow> z = Some y \<or> reasons_contains r y"
proof -
  show with_iff: "reasons_contains (reasons_with r x) y \<longleftrightarrow> x = y \<or> reasons_contains r y" for r x
    using reason_bit_less [of y]
    by (auto simp: reasons_contains_bit reasons_with_def bit_or_iff push_bit_of_1 bit_exp_iff)
  show "reasons_contains (with_unless ok x r) y \<longleftrightarrow> (\<not> ok \<and> x = y) \<or> reasons_contains r y"
    by (simp add: with_unless_def with_iff)
  show "reasons_contains (with_option z r) y \<longleftrightarrow> z = Some y \<or> reasons_contains r y"
    by (simp add: with_option_def with_iff split: option.split)
qed (simp add: reasons_contains_def reasons_empty_def)

lemma aggregate_reason_in:
  "(\<exists>x \<in> aggregate_reasons. aggregate_reason state = Some x) \<longleftrightarrow> state \<noteq> Aggregate_Ready"
  by (cases state) (simp_all add: aggregate_reason_def aggregate_reasons_def)

lemma aggregate_contains:
  "has_aggregate_reason (with_option (aggregate_reason state) r)
    \<longleftrightarrow> state \<noteq> Aggregate_Ready \<or> has_aggregate_reason r"
  "reason \<notin> aggregate_reasons \<Longrightarrow>
    has_aggregate_reason (with_unless ok reason r) \<longleftrightarrow> has_aggregate_reason r"
  "reason \<notin> aggregate_reasons \<Longrightarrow>
    has_aggregate_reason (reasons_with r reason) \<longleftrightarrow> has_aggregate_reason r"
  "\<not> has_aggregate_reason reasons_empty"
  unfolding has_aggregate_reason_def using aggregate_reason_in [of state] by auto

lemma plain_reasons:
  "Reason_DataStatusUnavailable \<notin> aggregate_reasons" "Reason_UsageUnavailable \<notin> aggregate_reasons"
  "Reason_SessionsUnavailable \<notin> aggregate_reasons" "Reason_GitUnavailable \<notin> aggregate_reasons"
  by (simp_all add: aggregate_reasons_def)

text \<open>
  The contract of the page table, one row per reason: which pages show it, and when.  The data
  status is shown by every page but the settings and the help page; every other reason needs a
  data status, is shown only by the pages that read the component, and says that the component is
  not published, that its section is not ready, or that its runtime is degraded.
\<close>

definition data_status_holds :: "'p product_snapshot \<Rightarrow> (product_data_status \<Rightarrow> bool) \<Rightarrow> bool" where
  "data_status_holds s P = (case ps_payload (sn_data_status s) of None \<Rightarrow> False | Some status \<Rightarrow> P status)"

fun page_blocked :: "'p product_snapshot \<Rightarrow> product_route \<Rightarrow> product_route_reason \<Rightarrow> bool" where
  "page_blocked s page Reason_DataStatusUnavailable \<longleftrightarrow>
     page \<notin> {Route_Settings, Route_HelpAbout} \<and> section_kind (sn_data_status s) \<noteq> Section_Ready"
| "page_blocked s page Reason_UsageUnavailable \<longleftrightarrow> data_status_holds s (\<lambda>status.
     page = Route_Dashboard
       \<and> (section_kind (sn_analytics s) \<noteq> Section_Ready \<or> usage_is_degraded (sn_runtime s))
     \<or> page \<in> {Route_History, Route_Models, Route_Projects}
       \<and> (section_kind (sn_history s) \<noteq> Section_Ready \<or> usage_is_degraded (sn_runtime s)))"
| "page_blocked s page Reason_AggregateRebuildRequired \<longleftrightarrow> data_status_holds s (\<lambda>status.
     page \<in> {Route_Dashboard, Route_History, Route_Sessions, Route_Models, Route_Projects}
     \<and> ag_state (us_aggregate (st_usage status)) = Aggregate_RebuildRequired)"
| "page_blocked s page Reason_AggregateRebuilding \<longleftrightarrow> data_status_holds s (\<lambda>status.
     page \<in> {Route_Dashboard, Route_History, Route_Sessions, Route_Models, Route_Projects}
     \<and> ag_state (us_aggregate (st_usage status)) = Aggregate_Rebuilding)"
| "page_blocked s page Reason_AggregateFailed \<longleftrightarrow> data_status_holds s (\<lambda>status.
     page \<in> {Route_Dashboard, Route_History, Route_Sessions, Route_Models, Route_Projects}
     \<and> ag_state (us_aggregate (st_usage status)) = Aggregate_Failed)"
| "page_blocked s page Reason_QuotaUnavailable \<longleftrightarrow> data_status_holds s (\<lambda>status.
     page \<in> {Route_Dashboard, Route_CompactWidget}
     \<and> (qs_state (st_quota status) \<noteq> Component_Published \<or> section_kind (sn_quota s) \<noteq> Section_Ready
        \<or> quota_is_degraded (sn_runtime s)))"
| "page_blocked s page Reason_BenefitUnavailable \<longleftrightarrow> data_status_holds s (\<lambda>status.
     page \<in> {Route_Dashboard, Route_Notifications}
     \<and> (bs_state (st_benefit status) \<noteq> Component_Published \<or> section_kind (sn_benefit s) \<noteq> Section_Ready
        \<or> benefit_is_degraded (sn_runtime s)))"
| "page_blocked s page Reason_GitUnavailable \<longleftrightarrow> data_status_holds s (\<lambda>status.
     page \<in> {Route_Dashboard, Route_Projects}
     \<and> (gs_state (st_git status) \<noteq> Component_Published \<or> section_kind (sn_git s) \<noteq> Section_Ready
        \<or> git_is_degraded (sn_runtime s)))"
| "page_blocked s page Reason_ActivityUnavailable \<longleftrightarrow> data_status_holds s (\<lambda>status.
     page = Route_Activity
     \<and> (section_kind (sn_activity s) \<noteq> Section_Ready \<or> usage_is_degraded (sn_runtime s)))"
| "page_blocked s page Reason_SessionsUnavailable \<longleftrightarrow> data_status_holds s (\<lambda>status.
     page = Route_Sessions
     \<and> (section_kind (sn_sessions s) \<noteq> Section_Ready \<or> usage_is_degraded (sn_runtime s)))"
| "page_blocked s page Reason_SessionDetailUnavailable \<longleftrightarrow> False"

lemma aggregate_reason_iff:
  "aggregate_reason state = Some reason \<longleftrightarrow>
     (state, reason) \<in> {(Aggregate_RebuildRequired, Reason_AggregateRebuildRequired),
       (Aggregate_Rebuilding, Reason_AggregateRebuilding), (Aggregate_Failed, Reason_AggregateFailed)}"
  by (cases state) (auto simp: aggregate_reason_def)

lemma derive_routes_reasons:
  "list_all (\<lambda>r. reasons_contains (pr_reasons r) x \<longleftrightarrow> page_blocked s (pr_route r) x) (derive_routes s)"
proof (cases "ps_payload (sn_data_status s)")
  case None
  then show ?thesis
    by (cases x) (simp_all add: derive_routes_def initial_routes_def Let_def data_status_holds_def
        section_kind_def split: option.split)
next
  case (Some status)
  show ?thesis
    unfolding derive_routes_def Some option.case Let_def
    by (cases x) (simp_all add: status_for_facts aggregate_status_for_facts aggregate_reason_iff
        data_status_holds_def Some)
qed

text \<open>The bit set holds nothing but reasons, so it is zero exactly when it contains none of them.\<close>

definition only_reasons :: "product_route_reasons \<Rightarrow> bool" where
  "only_reasons r \<longleftrightarrow> r = 0 \<or> (\<exists>x. reasons_contains r x)"

lemma only_reasons_simps [simp]:
  "only_reasons reasons_empty" "only_reasons (reasons_with r x)"
  "only_reasons r \<Longrightarrow> only_reasons (with_unless ok x r)"
  "only_reasons r \<Longrightarrow> only_reasons (with_option z r)"
  unfolding only_reasons_def with_unless_def with_option_def
  by (auto simp: reasons_empty_def split: option.split)

lemma derive_routes_only_reasons: "list_all (\<lambda>r. only_reasons (pr_reasons r)) (derive_routes s)"
proof (cases "ps_payload (sn_data_status s)")
  case None
  then show ?thesis by (simp add: derive_routes_def initial_routes_def Let_def)
next
  case (Some status)
  show ?thesis
    unfolding derive_routes_def Some option.case Let_def
    by (simp add: status_for_facts aggregate_status_for_facts)
qed

lemma derive_routes_ready:
  "list_all (\<lambda>r. pr_reasons r = 0 \<longleftrightarrow> (\<nexists>x. page_blocked s (pr_route r) x)) (derive_routes s)"
proof -
  have "(\<nexists>x. reasons_contains 0 x)" using reasons_contains_simps(1) by (simp add: reasons_empty_def)
  with derive_routes_only_reasons [of s] derive_routes_reasons [of _ s] show ?thesis
    by (simp add: list_all_iff only_reasons_def) metis
qed

lemma derive_routes_states:
  "map pr_route (derive_routes s) = ROUTE_ALL
   \<and> list_all (\<lambda>r. (pr_state r = Route_Ready \<longleftrightarrow> pr_reasons r = 0)
       \<and> (pr_state r = Route_Unavailable \<longleftrightarrow> pr_route r \<notin> {Route_Settings, Route_HelpAbout}
          \<and> (case ps_payload (sn_data_status s) of None \<Rightarrow> True
             | Some status \<Rightarrow> pr_route r \<in> {Route_History, Route_Sessions, Route_Models, Route_Projects}
                 \<and> ag_state (us_aggregate (st_usage status)) \<noteq> Aggregate_Ready)))
     (derive_routes s)"
proof (cases "ps_payload (sn_data_status s)")
  case None
  then show ?thesis
    by (simp add: derive_routes_def initial_routes_def Let_def ROUTE_ALL_def reasons_empty_def
        reasons_with_def push_bit_of_1)
next
  case (Some status)
  show ?thesis
    unfolding derive_routes_def Some option.case Let_def
    by (simp add: status_for_facts aggregate_status_for_facts aggregate_contains plain_reasons
        ROUTE_ALL_def)
      (simp add: reasons_empty_def)
qed

text \<open>
  C32. The routes are the eleven pages in order, and the page table is exact. A page records exactly
  the reasons the contract gives it, in terms of the data status, the sections and the runtime of
  the components it reads. It is ready exactly when no reason blocks it, which is always so for
  the settings and the help page. It is unavailable, rather than degraded, exactly when it is
  neither of these two and either no data status is known yet, or it is the history, sessions,
  models or projects page and the aggregates are being rebuilt, need to be, or failed; every
  other page with a reason, the dashboard with unready aggregates included, is degraded.
\<close>

theorem derive_routes_exact:
  "map pr_route (derive_routes s) = ROUTE_ALL
   \<and> list_all (\<lambda>r. (\<forall>x. reasons_contains (pr_reasons r) x \<longleftrightarrow> page_blocked s (pr_route r) x)
       \<and> (pr_state r = Route_Ready \<longleftrightarrow> pr_reasons r = 0)
       \<and> (pr_state r = Route_Ready \<longleftrightarrow> (\<nexists>x. page_blocked s (pr_route r) x))
       \<and> (pr_state r = Route_Unavailable \<longleftrightarrow> pr_route r \<notin> {Route_Settings, Route_HelpAbout}
          \<and> (case ps_payload (sn_data_status s) of None \<Rightarrow> True
             | Some status \<Rightarrow> pr_route r \<in> {Route_History, Route_Sessions, Route_Models, Route_Projects}
                 \<and> ag_state (us_aggregate (st_usage status)) \<noteq> Aggregate_Ready)))
     (derive_routes s)"
  using derive_routes_states [of s] derive_routes_ready [of s] derive_routes_reasons [of _ s]
  by (auto simp: list_all_iff)

end
