(* ===== verification/Spec2Isabelle.thy ===== *)
theory Spec2Isabelle
  imports CodexFiles Replay QuotaDetector Reminders CostSelection ExecutorRuns ProductReducer
begin

text \<open>
  A verification library for TokenMaster, a desktop monitor of AI usage written in Rust.

  \<^bold>\<open>The program.\<close>  Provider adapters (\<open>crates/codex\<close>) read session logs and quota reports.  The engine
  (\<open>crates/engine\<close>) coordinates refreshes: it discovers sources, reads them in batches and replays
  them into an archive.  Accounting (\<open>crates/accounting\<close>) turns observations into canonical events with fingerprints and tells
  replayed events of forked sessions from new ones.  The domain and its reducers (\<open>crates/domain\<close>) keep
  quota epochs and benefit inventories.  Pricing (\<open>crates/pricing\<close>) costs the events.  Queries
  (\<open>crates/query\<close>) and the product reducer (\<open>crates/product\<close>) shape what the desktop shows.

  \<^bold>\<open>Conventions.\<close>  Unsigned integers are words of their width, \<open>i64\<close> is \<open>int\<close> with its range written out;
  \<open>Result<T, E>\<close> is \<open>E + T\<close> with \<open>and_then\<close> for the question mark; validated text is its UTF-8 form, or its scalar
  values where the code looks at characters; a \<open>BTreeMap\<close> is a list sorted by key; digests are byte lists.
  Code outside the sources is a parameter: SHA-256, \<open>memchr\<close>, the JSON decoder, \<open>chrono\<close>, the archive, readers and
  adapters behind the engine's traits, allocation, and what a cancellation or clock check answers.  What is assumed of
  a parameter is a named hypothesis (\<open>finds_first\<close>, injectivity of the hash on the two messages compared, the
  archive contract of the executor) and is discharged on a concrete instance in a witness.

  \<^bold>\<open>The theories.\<close>
  \<^item> \<open>Prelude\<close>, \<open>Encoding\<close>, \<open>Ordered_Map\<close>, \<open>Counter\<close>, \<open>Binary_Search\<close>, \<open>Action\<close>: results, checked and
    saturating arithmetic, byte encodings with their prefix-freeness, sorted maps, checked counters, the standard
    library's binary search, and the state-and-error monad of the executor with its weakest preconditions.  The locales
    \<open>prefix_code\<close>, \<open>ordered_map\<close> and \<open>checked_counter\<close> are interpreted on the encodings, inventories and counters the
    components use.
  \<^item> \<open>Usage\<close>, \<open>Accounting\<close>, \<open>Replay\<close>: \<open>domain/src/usage.rs\<close> and the accounting crate.  Fingerprints agree exactly when the
    covered fields agree; the classifier drops exactly the common prefix of a fork and its parent.
  \<^item> \<open>Quota\<close>, \<open>QuotaDetector\<close>: quota values and \<open>evaluate_sample\<close>.  Every reachable epoch keeps its invariant
    and can be restored, records the true maximum, and resets only on evidence; a transition can be restored too, a
    reset provided its sample does not reuse the identifier the closing epoch started with.
  \<^item> \<open>Benefit\<close>, \<open>BenefitReconcile\<close>, \<open>Reminders\<close>: benefit lots, their reconciliation as a refinement of a map
    update with a change log that replays, and the reminders that follow from an inventory.
  \<^item> \<open>Pricing\<close>, \<open>PriceOverrides\<close>, \<open>CostSelection\<close>: the catalogue, its tiers and parser, overrides with their revision
    hash, and \<open>select_cost\<close>, whose amount and counters are exact.
  \<^item> \<open>EngineValues\<close>, \<open>Coordinator\<close>, \<open>Executor\<close>, \<open>ExecutorProtocol\<close>, \<open>ExecutorRuns\<close>: batches and manifests, the refresh
    coordinator with its permits and tokens, and one whole run of the executor.  A run talks to the archive in the
    order the archive demands, publishes or cleans up, and returns.
  \<^item> \<open>QueryStatus\<close>, \<open>ProductValues\<close>, \<open>ProductReducer\<close>: the data status, sections, routes and every operation of the
    product reducer, with the invariant of its snapshot; the locales \<open>section_slot\<close> and \<open>runtime_slot\<close> prove it once for all
    fields.  Late answers are refused for every field but the session detail, whose attempts count only under one
    selection; \<open>page_blocked\<close> is the contract of the page table that \<open>derive_routes\<close> meets exactly.
  \<^item> \<open>Framing\<close>, \<open>FramingBatches\<close>, \<open>FramingResume\<close>: \<open>codex/src/reader/framing.rs\<close> and how \<open>reader/mod.rs\<close> calls it.  A batch reports
    exactly the lines of the bytes it consumed, batches compose to the whole file, and the locale
    \<open>resumable_parser\<close> says when storing the parser's state between them does not show.
  \<^item> \<open>CodexValues\<close>, \<open>CodexParser\<close>, \<open>CodexSessions\<close>, \<open>CodexRuns\<close>, \<open>CodexFiles\<close>: \<open>codex/src/parser\<close>.  The visitors and wire records,
    the parser with its state and resumption, the invariant of that state, cumulative totals that add up, and the
    interpretation of \<open>resumable_parser\<close> on the parser.

  \<^bold>\<open>Bounds and fuel.\<close>  Loops are recursive functions with termination proofs.  Fuel is used where the code's loop is
  bounded by its environment only: the executor's continuation rounds and batches, with a proof that enough of it
  gives a result (\<open>executor_returns\<close>), and the batches of a file, where one more than the bytes left is enough
  (\<open>read_file_ends\<close>, \<open>codex_file_events\<close>).  Files are shorter than $2^{63}$ bytes, so that offsets and event numbers do not
  saturate.

  \<^bold>\<open>Not modelled.\<close>  SQL over SQLite (\<open>crates/store\<close>), durable files and encryption (\<open>crates/state\<close>), the git collector
  (\<open>crates/git\<close>), threads, watchers and leases (\<open>crates/runtime\<close>, \<open>engine/src/worker.rs\<close>), operating system calls
  (\<open>crates/platform\<close>, \<open>codex/src/reader/source.rs\<close>), the query projections over SQL reads, and the application and user
  interface (\<open>crates/app\<close>, \<open>crates/desktop\<close>): their behaviour is that of libraries, the operating system or
  threads outside the sources.  The checkpoint codec and the opening of a log file are not modelled either; a batch
  starts from the values its checkpoint holds.  Paths are those of the builds that are not for Windows.  Elapsed-time statistics and
  debug output are left out.
\<close>

section \<open>From a log file to its events\<close>

text \<open>
  C2. A Codex log file that does not change is read to its end, whatever pieces its bytes arrive in, in
  batches between which the parser's state is stored in a checkpoint and resumed, and the events that come
  out are exactly those of parsing the file's complete lines once, in order: numbered from zero without
  gap, each at the offset of its line.
\<close>

theorem codex_file_events:
  assumes "finds_first memchr" "context_ok cxt" "delivers deliver file" "length file < 2 ^ 63" "length file < batches"
    "\<forall>b t. \<not> should_cancel b t" "\<forall>n. alloc n" "\<forall>b offset. \<forall>d \<in> set (deliver b offset). \<not> isl d"
    "parse_lines env cxt parser_state_new (parsed_lines 0 (fst (split_lines file))) = (outcomes, s)"
  shows "\<exists>s' committed relations. read_resumed (pe_sha256 env) memchr alloc (parse_line env cxt) (codex_resume env)
      should_cancel deliver batches (first_input file) = Some (Inr (s', committed, emitted outcomes, relations))
    \<and> forget_repository s' = forget_repository s
    \<and> map (unat \<circ> obs_session_ordinal) (emitted outcomes) = [0 ..< length (emitted outcomes)]
    \<and> subseq (map obs_source_offset (emitted outcomes)) (map fst (parsed_lines 0 (fst (split_lines file))))"
proof -
  have "length (parsed_lines 0 (fst (split_lines file))) < 2 ^ 64"
    using parsed_lines_bytes [of 0 "file"] assms(4) by simp
  with file_events [OF assms] parse_lines_ordinal [OF assms(9)] show ?thesis
    by (simp add: parser_state_new_def)
qed

definition sample_log :: "u8 list" where
  "sample_log = [92, 100, 10, 92, 150, 10, 92, 150, 10]"

theorem codex_file_events_witness:
  "\<exists>s' committed relations events. read_resumed (pe_sha256 sample_env) first_index (\<lambda>_. True)
      (parse_line sample_env sample_context) (codex_resume sample_env) (\<lambda>_ _. False) (byte_by_byte sample_log) 10
      (first_input sample_log) = Some (Inr (s', committed, events, relations))
    \<and> map obs_delta_usage events = [input_only 100, input_only 50]
    \<and> map (unat \<circ> obs_session_ordinal) events = [0, 1]"
proof -
  obtain outcomes s where run: "parse_lines sample_env sample_context parser_state_new sample_lines = (outcomes, s)"
    and deltas: "map obs_delta_usage (emitted outcomes) = [input_only 100, input_only 50]"
    and "ps_previous_totals s = Some (input_only 150)"
    by (rule sample_run)
  have lines: "parsed_lines 0 (fst (split_lines sample_log)) = sample_lines"
    by (simp add: split_lines_def sample_log_def split_step_def line_text_def MAX_LINE_BYTES_def sample_lines_def)
  have two: "length (emitted outcomes) = 2"
    using arg_cong [OF deltas, of length] by simp
  have "\<exists>s' committed relations. read_resumed (pe_sha256 sample_env) first_index (\<lambda>_. True)
      (parse_line sample_env sample_context) (codex_resume sample_env) (\<lambda>_ _. False) (byte_by_byte sample_log) 10
      (first_input sample_log) = Some (Inr (s', committed, emitted outcomes, relations))
    \<and> forget_repository s' = forget_repository s
    \<and> map (unat \<circ> obs_session_ordinal) (emitted outcomes) = [0 ..< length (emitted outcomes)]
    \<and> subseq (map obs_source_offset (emitted outcomes)) (map fst (parsed_lines 0 (fst (split_lines sample_log))))"
    by (rule codex_file_events [OF finds_first_index sample_context_ok delivers_byte_by_byte])
      (simp_all add: sample_log_def byte_by_byte_def run lines [unfolded sample_log_def])
  moreover have "[0 ..< 2] = [0, 1 :: nat]"
    by (simp add: upt_rec)
  ultimately show ?thesis
    using deltas two by fastforce
qed

end
